(* ===== verification/Prelude.thy ===== *)
theory Prelude
  imports Complex_Main
begin

text \<open>
  Shared vocabulary of the development: the theorem collections the component theories fill,
  Python exceptions as values, the table operations that stand for SQL statements, and the
  generic facts on lists and tables every component reuses.

  A table is the list of its rows. \<open>UPDATE t SET f WHERE p\<close> is \<open>sql_update p f\<close>, its
  \<open>rowcount\<close> the number of rows that satisfied \<open>p\<close>, and \<open>session.get\<close> is \<open>fetch\<close> by the
  primary key. The locale \<open>table\<close> is the contract every table of the database state keeps.
\<close>

named_theorems tx_simps \<open>what a database transaction does to each table\<close>
named_theorems ledger_simps \<open>cost and token sums after an update\<close>

type_synonym uuid = nat
type_synonym timestamp = nat

subsection \<open>Exceptions\<close>

text \<open>
  The exceptions the modelled code raises, catches or lets through, each with the text
  \<open>str(exc)\<close> returns.
\<close>

datatype exn =
    ValueError string
  | TypeError string
  | KeyError string
  | IndexError string
  | OverflowError string
  | AttributeError string
  | JSONDecodeError string
  | RegexError string
  | ValidationError string
  | RetryableProviderError string
  | NonRetryableProviderError string
  | JudgeParseError string
  | DatabaseError string

primrec exn_text :: "exn \<Rightarrow> string" where
  "exn_text (ValueError m) = m"
| "exn_text (TypeError m) = m"
| "exn_text (KeyError m) = m"
| "exn_text (IndexError m) = m"
| "exn_text (OverflowError m) = m"
| "exn_text (AttributeError m) = m"
| "exn_text (JSONDecodeError m) = m"
| "exn_text (RegexError m) = m"
| "exn_text (ValidationError m) = m"
| "exn_text (RetryableProviderError m) = m"
| "exn_text (NonRetryableProviderError m) = m"
| "exn_text (JudgeParseError m) = m"
| "exn_text (DatabaseError m) = m"

text \<open>An HTTP error response of an endpoint: the status code and the detail text.\<close>

datatype http_error = HTTPException int string

subsection \<open>SQL statements on a table\<close>

definition sql_update :: "('r \<Rightarrow> bool) \<Rightarrow> ('r \<Rightarrow> 'r) \<Rightarrow> 'r list \<Rightarrow> 'r list" where
  "sql_update p f rows = map (\<lambda>r. if p r then f r else r) rows"

definition rowcount :: "('r \<Rightarrow> bool) \<Rightarrow> 'r list \<Rightarrow> nat" where
  "rowcount p rows = length (filter p rows)"

definition fetch :: "('r \<Rightarrow> 'k) \<Rightarrow> 'k \<Rightarrow> 'r list \<Rightarrow> 'r option" where
  "fetch pk k rows = find (\<lambda>r. pk r = k) rows"

definition exists_row :: "('r \<Rightarrow> bool) \<Rightarrow> 'r list \<Rightarrow> bool" where
  "exists_row p rows = list_ex p rows"

lemma fetch_simps [simp]:
  "fetch pk k [] = None"
  "fetch pk k (r # rs) = (if pk r = k then Some r else fetch pk k rs)"
  by (simp_all add: fetch_def)

lemma rowcount_simps [simp]:
  "rowcount p [] = 0"
  "rowcount p (r # rs) = (if p r then Suc (rowcount p rs) else rowcount p rs)"
  by (simp_all add: rowcount_def)

lemma sql_update_simps [simp]:
  "sql_update p f [] = []"
  "sql_update p f (r # rs) = (if p r then f r else r) # sql_update p f rs"
  by (simp_all add: sql_update_def)

lemma exists_row_iff: "exists_row p rows \<longleftrightarrow> (\<exists>r \<in> set rows. p r)"
  by (simp add: exists_row_def list_ex_iff)

lemma length_sql_update [simp]: "length (sql_update p f rows) = length rows"
  by (simp add: sql_update_def)

lemma set_sql_update: "set (sql_update p f rows) = (\<lambda>r. if p r then f r else r) ` set rows"
  by (simp add: sql_update_def)

lemma rowcount_zero_iff: "rowcount p rows = 0 \<longleftrightarrow> (\<forall>r \<in> set rows. \<not> p r)"
  by (auto simp: rowcount_def filter_empty_conv)

lemma rowcount_pos_iff: "0 < rowcount p rows \<longleftrightarrow> (\<exists>r \<in> set rows. p r)"
  using rowcount_zero_iff [of p rows] by auto

lemma sql_update_noop: "rowcount p rows = 0 \<Longrightarrow> sql_update p f rows = rows"
  by (auto simp: rowcount_zero_iff sql_update_def intro: map_idI)

lemma sql_update_sql_update:
  "sql_update q g (sql_update p f rows) =
     map (\<lambda>r. let r' = (if p r then f r else r) in if q r' then g r' else r') rows"
  by (simp add: sql_update_def Let_def)

lemma map_sql_update:
  assumes "\<And>r. key (f r) = key r"
  shows "map key (sql_update p f rows) = map key rows"
  using assms by (simp add: sql_update_def)

lemma filter_sql_update:
  assumes "\<And>r. r \<in> set rows \<Longrightarrow> p r \<Longrightarrow> q (f r) = q r"
  shows "filter q (sql_update p f rows) = sql_update p f (filter q rows)"
  using assms by (induction rows) auto

lemma fetch_sql_update:
  assumes "\<And>r. pk (f r) = pk r"
  shows "fetch pk k (sql_update p f rows) =
           map_option (\<lambda>r. if p r then f r else r) (fetch pk k rows)"
  using assms by (induction rows) auto

lemma fetch_SomeD: "fetch pk k rows = Some r \<Longrightarrow> pk r = k \<and> r \<in> set rows"
  by (induction rows) (auto split: if_splits)

lemma fetch_None_iff: "fetch pk k rows = None \<longleftrightarrow> k \<notin> pk ` set rows"
  by (induction rows) auto

lemma fetch_eqI:
  "distinct (map pk rows) \<Longrightarrow> r \<in> set rows \<Longrightarrow> fetch pk (pk r) rows = Some r"
  by (induction rows) (auto simp: image_iff)

lemma fetch_eq_Some_iff:
  "distinct (map pk rows) \<Longrightarrow> fetch pk k rows = Some r \<longleftrightarrow> r \<in> set rows \<and> pk r = k"
  using fetch_eqI [of pk rows r] fetch_SomeD [of pk k rows r] by auto

lemma fetch_append:
  "fetch pk k (xs @ ys) = (case fetch pk k xs of None \<Rightarrow> fetch pk k ys | Some r \<Rightarrow> Some r)"
  by (induction xs) auto

lemma rowcount_key:
  "distinct (map pk rows) \<Longrightarrow>
   rowcount (\<lambda>r. pk r = k \<and> q r) rows =
     (case fetch pk k rows of None \<Rightarrow> 0 | Some r \<Rightarrow> if q r then 1 else 0)"
proof (induction rows)
  case Nil
  then show ?case by simp
next
  case (Cons r rows)
  have "rowcount (\<lambda>r'. pk r' = pk r \<and> q r') rows = 0" if "pk r = k"
    using Cons.prems by (auto simp: rowcount_zero_iff) (metis image_eqI)
  then show ?case using Cons by auto
qed

lemma rowcount_append [simp]: "rowcount p (xs @ ys) = rowcount p xs + rowcount p ys"
  by (simp add: rowcount_def)

lemma rowcount_le_length: "rowcount p rows \<le> length rows"
  by (simp add: rowcount_def)

lemma rowcount_cong:
  "(\<And>r. r \<in> set rows \<Longrightarrow> p r = q r) \<Longrightarrow> rowcount p rows = rowcount q rows"
  by (simp add: rowcount_def cong: filter_cong)

lemma sql_update_cong:
  "(\<And>r. r \<in> set rows \<Longrightarrow> p r = q r) \<Longrightarrow> (\<And>r. r \<in> set rows \<Longrightarrow> p r \<Longrightarrow> f r = g r) \<Longrightarrow>
   sql_update p f rows = sql_update q g rows"
  by (simp add: sql_update_def)

subsection \<open>Weighted sums over the rows of a group\<close>

text \<open>
  \<open>group_sum g w k rows\<close> is \<open>SELECT SUM(w) WHERE g = k\<close>: the column \<open>w\<close> summed over the rows
  of group \<open>k\<close>.
\<close>

definition group_sum :: "('r \<Rightarrow> 'g) \<Rightarrow> ('r \<Rightarrow> 'n::comm_monoid_add) \<Rightarrow> 'g \<Rightarrow> 'r list \<Rightarrow> 'n" where
  "group_sum g w k rows = sum_list (map w (filter (\<lambda>r. g r = k) rows))"

lemma group_sum_simps [simp]:
  "group_sum g w k [] = 0"
  "group_sum g w k (r # rs) = (if g r = k then w r + group_sum g w k rs else group_sum g w k rs)"
  by (simp_all add: group_sum_def)

lemma group_sum_append [simp]:
  "group_sum g w k (xs @ ys) = group_sum g w k xs + group_sum g w k ys"
  by (simp add: group_sum_def)

lemma group_sum_zero: "(\<And>r. r \<in> set rows \<Longrightarrow> g r = k \<Longrightarrow> w r = 0) \<Longrightarrow> group_sum g w k rows = 0"
  by (induction rows) auto

text \<open>An update that touches neither the group nor the summed column leaves the sum alone.\<close>

lemma group_sum_frame [ledger_simps]:
  assumes "\<And>r. g (f r) = g r" and "\<And>r. w (f r) = w r"
  shows "group_sum g w k (sql_update p f rows) = group_sum g w k rows"
  using assms by (induction rows) auto

text \<open>An update of the one row with key \<open>i\<close> moves the sum of its group by the change of that row.\<close>

lemma group_sum_update_key:
  fixes w :: "'r \<Rightarrow> 'n::ab_group_add"
  assumes "distinct (map pk rows)" and "fetch pk i rows = Some r0" and "q r0"
    and "\<And>r. g (f r) = g r"
  shows "group_sum g w k (sql_update (\<lambda>r. pk r = i \<and> q r) f rows) =
           group_sum g w k rows + (if g r0 = k then w (f r0) - w r0 else 0)"
  using assms(1,2)
proof (induction rows)
  case Nil
  then show ?case by simp
next
  case (Cons r rows)
  show ?case
  proof (cases "pk r = i")
    case True
    then have "r = r0" using Cons.prems(2) by simp
    moreover have "sql_update (\<lambda>r. pk r = i \<and> q r) f rows = rows"
      using Cons.prems(1) True
      by (intro sql_update_noop) (auto simp: rowcount_zero_iff, metis image_eqI)
    ultimately show ?thesis using True assms(3,4) by (simp add: algebra_simps)
  next
    case False
    then show ?thesis using Cons assms(4) by (simp add: algebra_simps)
  qed
qed

subsection \<open>The contract of a table of the database state\<close>

text \<open>
  \<open>rows\<close> reads a table from the state and \<open>put\<close> rewrites it; the laws are those of a record
  field. Everything the components need about guarded updates follows.
\<close>

locale table =
  fixes rows :: "'d \<Rightarrow> 'r list"
    and put :: "('r list \<Rightarrow> 'r list) \<Rightarrow> 'd \<Rightarrow> 'd"
    and pk :: "'r \<Rightarrow> 'k"
  assumes rows_put: "rows (put h d) = h (rows d)"
    and put_cong: "h (rows d) = rows d \<Longrightarrow> put h d = d"
begin

lemma fetch_put:
  assumes "\<And>r. pk (f r) = pk r"
  shows "fetch pk k (rows (put (sql_update p f) d)) =
           map_option (\<lambda>r. if p r then f r else r) (fetch pk k (rows d))"
  by (simp add: rows_put fetch_sql_update assms)

lemma fetch_put_other:
  assumes "\<And>r. pk (f r) = pk r" and "k \<noteq> i"
  shows "fetch pk k (rows (put (sql_update (\<lambda>r. pk r = i \<and> q r) f) d)) = fetch pk k (rows d)"
  using assms by (cases "fetch pk k (rows d)") (auto simp: fetch_put dest: fetch_SomeD)

lemma keys_put:
  "(\<And>r. pk (f r) = pk r) \<Longrightarrow> map pk (rows (put (sql_update p f) d)) = map pk (rows d)"
  by (simp add: rows_put map_sql_update)

lemma put_noop: "rowcount p (rows d) = 0 \<Longrightarrow> put (sql_update p f) d = d"
  by (rule put_cong) (rule sql_update_noop)

lemma guarded_rowcount:
  "distinct (map pk (rows d)) \<Longrightarrow> rowcount (\<lambda>r. pk r = k \<and> q r) (rows d) \<le> 1"
  by (simp add: rowcount_key split: option.split)

lemma guarded_update_twice:
  assumes "\<And>r. pk (f r) = pk r" and "\<And>r. q r \<Longrightarrow> \<not> q (f r)"
  shows "rowcount (\<lambda>r. pk r = k \<and> q r) (rows (put (sql_update (\<lambda>r. pk r = k \<and> q r) f) d)) = 0"
  using assms by (auto simp: rows_put rowcount_zero_iff set_sql_update)

end

subsection \<open>Systems of operations that keep an invariant\<close>

text \<open>
  The contract of a component driven by operations: each keeps the invariant, so every run of
  operations does. \<open>ordered_system\<close> adds a preorder no operation descends.
\<close>

locale op_system =
  fixes step :: "'op \<Rightarrow> 's \<Rightarrow> 's" and inv :: "'s \<Rightarrow> bool"
  assumes inv_step: "inv s \<Longrightarrow> inv (step a s)"
begin

lemma inv_run: "inv s \<Longrightarrow> inv (fold step ops s)"
  by (induction ops arbitrary: s) (auto intro: inv_step)

end

locale ordered_system = op_system +
  fixes below :: "'s \<Rightarrow> 's \<Rightarrow> bool"
  assumes below_step: "inv s \<Longrightarrow> below s (step a s)"
    and below_refl: "below s s"
    and below_trans: "below s t \<Longrightarrow> below t u \<Longrightarrow> below s u"
begin

lemma below_run: "inv s \<Longrightarrow> below s (fold step ops s)"
proof (induction ops arbitrary: s)
  case Nil
  show ?case by (simp add: below_refl)
next
  case (Cons a ops)
  then have "below (step a s) (fold step ops (step a s))" by (blast intro: inv_step)
  with below_step [OF Cons.prems] show ?case by (auto intro: below_trans)
qed

end

end
