(* ===== verification/PyNum.thy ===== *)
theory PyNum
  imports Prelude
begin

text \<open>
  Numbers. Python's \<open>Decimal\<close> and PostgreSQL's \<open>numeric\<close> are exact rationals here; rounding is
  written out. \<open>Decimal.quantize\<close> and \<open>round\<close> round halves to even, SQL \<open>ROUND\<close> rounds halves
  away from zero. Both satisfy the contract \<open>rounding\<close>, from which the error and range bounds
  follow once. Column ranges of \<open>Integer\<close> and \<open>Numeric(p, s)\<close> are boolean checks.
\<close>

subsection \<open>Rounding to an integer\<close>

definition half_even :: "rat \<Rightarrow> int" where
  "half_even x =
     (let f = \<lfloor>x\<rfloor>; d = x - of_int f in
      if d < 1 / 2 then f else if 1 / 2 < d then f + 1 else if even f then f else f + 1)"

definition half_away :: "rat \<Rightarrow> int" where
  "half_away x = (if x < 0 then - \<lfloor>1 / 2 - x\<rfloor> else \<lfloor>x + 1 / 2\<rfloor>)"

text \<open>Rounding to \<open>n\<close> decimal places, with the integer rounding as an argument.\<close>

definition scaled :: "(rat \<Rightarrow> int) \<Rightarrow> nat \<Rightarrow> rat \<Rightarrow> rat" where
  "scaled rnd n x = of_int (rnd (x * 10 ^ n)) / 10 ^ n"

text \<open>\<open>d.quantize(Decimal("0.001"))\<close> is \<open>quantize 3 d\<close>; \<open>ROUND(d, 3)\<close> is \<open>sql_round 3 d\<close>.\<close>

definition quantize :: "nat \<Rightarrow> rat \<Rightarrow> rat" where
  "quantize = scaled half_even"

definition sql_round :: "nat \<Rightarrow> rat \<Rightarrow> rat" where
  "sql_round = scaled half_away"

locale rounding =
  fixes rnd :: "rat \<Rightarrow> int"
  assumes rnd_near: "\<bar>of_int (rnd x) - x\<bar> \<le> 1 / 2"
    and rnd_of_int: "rnd (of_int z) = z"
    and rnd_mono: "x \<le> y \<Longrightarrow> rnd x \<le> rnd y"
begin

lemma scaled_near: "\<bar>scaled rnd n x - x\<bar> \<le> 1 / (2 * 10 ^ n)"
proof -
  have "scaled rnd n x - x = (of_int (rnd (x * 10 ^ n)) - x * 10 ^ n) / 10 ^ n"
    by (simp add: scaled_def diff_divide_distrib)
  then have "\<bar>scaled rnd n x - x\<bar> = \<bar>of_int (rnd (x * 10 ^ n)) - x * 10 ^ n\<bar> / 10 ^ n"
    by simp
  also have "\<dots> \<le> (1 / 2) / 10 ^ n"
    by (intro divide_right_mono rnd_near) simp
  finally show ?thesis by simp
qed

lemma scaled_mono: "x \<le> y \<Longrightarrow> scaled rnd n x \<le> scaled rnd n y"
  unfolding scaled_def
  by (intro divide_right_mono) (simp_all add: rnd_mono mult_right_mono)

lemma scaled_multiple: "scaled rnd n (of_int z / 10 ^ n) = of_int z / 10 ^ n"
  by (simp add: scaled_def rnd_of_int)

lemma scaled_of_int: "scaled rnd n (of_int z) = of_int z"
  using scaled_multiple [of n "z * 10 ^ n"] by simp

lemma scaled_idem: "scaled rnd n (scaled rnd n x) = scaled rnd n x"
  using scaled_multiple [of n "rnd (x * 10 ^ n)"] by (simp add: scaled_def)

lemma scaled_between:
  assumes "of_int a \<le> x" and "x \<le> of_int b"
  shows "of_int a \<le> scaled rnd n x \<and> scaled rnd n x \<le> of_int b"
  using scaled_mono [OF assms(1), of n] scaled_mono [OF assms(2), of n]
  by (simp add: scaled_of_int)

lemma scaled_unit: "0 \<le> x \<Longrightarrow> x \<le> 1 \<Longrightarrow> 0 \<le> scaled rnd n x \<and> scaled rnd n x \<le> 1"
  using scaled_between [of 0 x 1 n] by simp

lemma scaled_nonneg: "0 \<le> x \<Longrightarrow> 0 \<le> scaled rnd n x"
  using scaled_mono [of 0 x n] scaled_of_int [of n 0] by simp

lemma scaled_zero: "scaled rnd n 0 = 0"
  using scaled_of_int [of n 0] by simp

end

lemma half_even_near: "\<bar>of_int (half_even x) - x\<bar> \<le> (1 / 2 :: rat)"
proof -
  define f where "f = \<lfloor>x\<rfloor>"
  have "of_int f \<le> x" and "x < of_int f + 1"
    unfolding f_def by linarith+
  then show ?thesis by (simp add: half_even_def Let_def abs_if flip: f_def)
qed

lemma half_even_of_int: "half_even (of_int z) = z"
  by (simp add: half_even_def)

lemma half_even_mono: "x \<le> y \<Longrightarrow> half_even x \<le> half_even y"
proof -
  assume le: "x \<le> y"
  then have fl: "\<lfloor>x\<rfloor> \<le> \<lfloor>y\<rfloor>" by (rule floor_mono)
  show ?thesis
  proof (cases "\<lfloor>x\<rfloor> = \<lfloor>y\<rfloor>")
    case True
    then show ?thesis using le by (simp add: half_even_def Let_def)
  next
    case False
    with fl have "\<lfloor>x\<rfloor> + 1 \<le> \<lfloor>y\<rfloor>" by simp
    moreover have "half_even x \<le> \<lfloor>x\<rfloor> + 1" and "\<lfloor>y\<rfloor> \<le> half_even y"
      by (simp_all add: half_even_def Let_def)
    ultimately show ?thesis by simp
  qed
qed

lemma half_away_near: "\<bar>of_int (half_away x) - x\<bar> \<le> (1 / 2 :: rat)"
proof (cases "x < 0")
  case True
  define f where "f = \<lfloor>1 / 2 - x\<rfloor>"
  have "of_int f \<le> 1 / 2 - x" and "1 / 2 - x < of_int f + 1"
    unfolding f_def by linarith+
  with True show ?thesis by (simp add: half_away_def abs_if flip: f_def)
next
  case False
  define f where "f = \<lfloor>x + 1 / 2\<rfloor>"
  have "of_int f \<le> x + 1 / 2" and "x + 1 / 2 < of_int f + 1"
    unfolding f_def by linarith+
  with False show ?thesis by (simp add: half_away_def abs_if flip: f_def)
qed

lemma half_away_of_int: "half_away (of_int z) = z"
proof -
  have "\<lfloor>of_int z + 1 / 2 :: rat\<rfloor> = z" and "\<lfloor>1 / 2 - of_int z :: rat\<rfloor> = - z"
    by (simp_all add: floor_eq_iff)
  then show ?thesis by (simp add: half_away_def)
qed

lemma half_away_mono: "x \<le> y \<Longrightarrow> half_away x \<le> half_away y"
proof -
  assume le: "x \<le> y"
  consider "y < 0" | "x < 0" "0 \<le> y" | "0 \<le> x" by linarith
  then show ?thesis
  proof cases
    case 1
    with le show ?thesis by (simp add: half_away_def floor_mono)
  next
    case 2
    have "0 \<le> \<lfloor>1 / 2 - x\<rfloor>" and "0 \<le> \<lfloor>y + 1 / 2\<rfloor>" using 2 by simp_all
    then have "- \<lfloor>1 / 2 - x\<rfloor> \<le> \<lfloor>y + 1 / 2\<rfloor>" by linarith
    with 2 show ?thesis by (simp add: half_away_def)
  next
    case 3
    with le show ?thesis by (simp add: half_away_def floor_mono)
  qed
qed

interpretation he: rounding half_even
  by unfold_locales (rule half_even_near half_even_of_int half_even_mono; assumption?)+

interpretation ha: rounding half_away
  by unfold_locales (rule half_away_near half_away_of_int half_away_mono; assumption?)+

lemmas quantize_near = he.scaled_near [folded quantize_def]
lemmas quantize_mono = he.scaled_mono [folded quantize_def]
lemmas quantize_idem = he.scaled_idem [folded quantize_def]
lemmas quantize_unit = he.scaled_unit [folded quantize_def]
lemmas quantize_nonneg = he.scaled_nonneg [folded quantize_def]
lemmas quantize_zero = he.scaled_zero [folded quantize_def]
lemmas quantize_of_int = he.scaled_of_int [folded quantize_def]
lemmas quantize_between = he.scaled_between [folded quantize_def]

lemmas sql_round_near = ha.scaled_near [folded sql_round_def]
lemmas sql_round_mono = ha.scaled_mono [folded sql_round_def]
lemmas sql_round_idem = ha.scaled_idem [folded sql_round_def]
lemmas sql_round_unit = ha.scaled_unit [folded sql_round_def]
lemmas sql_round_nonneg = ha.scaled_nonneg [folded sql_round_def]
lemmas sql_round_zero = ha.scaled_zero [folded sql_round_def]

subsection \<open>Column ranges\<close>

definition int4 :: "int \<Rightarrow> bool" where
  "int4 x \<longleftrightarrow> - 2147483648 \<le> x \<and> x \<le> 2147483647"

text \<open>\<open>Numeric(p, s)\<close> holds values below \<open>10 ^ (p - s)\<close> in magnitude.\<close>

definition numeric_fits :: "nat \<Rightarrow> nat \<Rightarrow> rat \<Rightarrow> bool" where
  "numeric_fits p s x \<longleftrightarrow> \<bar>x\<bar> < 10 ^ (p - s)"

text \<open>The mean of the values of a group; SQL \<open>AVG\<close> of no rows is NULL.\<close>

definition mean :: "rat list \<Rightarrow> rat option" where
  "mean xs = (if xs = [] then None else Some (sum_list xs / of_nat (length xs)))"

lemma sum_list_between:
  fixes xs :: "rat list"
  assumes "\<And>x. x \<in> set xs \<Longrightarrow> lo \<le> x" and "\<And>x. x \<in> set xs \<Longrightarrow> x \<le> hi"
  shows "of_nat (length xs) * lo \<le> sum_list xs \<and> sum_list xs \<le> of_nat (length xs) * hi"
  using assms
proof (induction xs)
  case Nil
  then show ?case by simp
next
  case (Cons x xs)
  have "of_nat (length xs) * lo \<le> sum_list xs \<and> sum_list xs \<le> of_nat (length xs) * hi"
    by (rule Cons.IH) (use Cons.prems in auto)
  moreover have "lo \<le> x" and "x \<le> hi" using Cons.prems by auto
  ultimately show ?case by (simp add: algebra_simps add_mono)
qed

lemma mean_between:
  assumes "mean xs = Some m"
    and "\<And>x. x \<in> set xs \<Longrightarrow> lo \<le> x" and "\<And>x. x \<in> set xs \<Longrightarrow> x \<le> hi"
  shows "lo \<le> m \<and> m \<le> hi"
proof -
  have ne: "0 < (of_nat (length xs) :: rat)" and m: "m = sum_list xs / of_nat (length xs)"
    using assms(1) by (auto simp: mean_def split: if_splits)
  show ?thesis using sum_list_between [of xs lo hi, OF assms(2,3)] ne
    by (simp add: m pos_le_divide_eq pos_divide_le_eq mult.commute)
qed

end
