(* ===== verification/PyText.thy ===== *)
theory PyText
  imports Prelude "HOL-Library.Char_ord"
begin

text \<open>
  Python string operations. A \<open>string\<close> holds code points below 256; \<open>is_space\<close> and
  \<open>lower_char\<close> are \<open>str.isspace\<close> and \<open>str.lower\<close> on that range. Then \<open>str.split()\<close>,
  \<open>" ".join\<close>, \<open>strip\<close>, decimal and hexadecimal printing, and the text form of a UUID, which is a
  natural number (\<open>UUID.int\<close>).
\<close>

subsection \<open>Characters\<close>

definition is_space :: "char \<Rightarrow> bool" where
  "is_space c \<longleftrightarrow> (let n = (of_char c :: nat) in
     9 \<le> n \<and> n \<le> 13 \<or> 28 \<le> n \<and> n \<le> 32 \<or> n = 133 \<or> n = 160)"

definition lower_char :: "char \<Rightarrow> char" where
  "lower_char c = (let n = (of_char c :: nat) in
     if 65 \<le> n \<and> n \<le> 90 \<or> 192 \<le> n \<and> n \<le> 222 \<and> n \<noteq> 215 then char_of (n + 32) else c)"

definition lower :: "string \<Rightarrow> string" where
  "lower s = map lower_char s"

lemma of_char_lower:
  "(of_char (lower_char c) :: nat) =
     (let n = of_char c in
      if 65 \<le> n \<and> n \<le> 90 \<or> 192 \<le> n \<and> n \<le> 222 \<and> n \<noteq> 215 then n + 32 else n)"
  by (auto simp: lower_char_def Let_def)

lemma is_space_lower [simp]: "is_space (lower_char c) = is_space c"
  by (auto simp: is_space_def of_char_lower Let_def)

lemma lower_char_idem [simp]: "lower_char (lower_char c) = lower_char c"
  unfolding lower_char_def [of "lower_char c"] by (auto simp: of_char_lower Let_def)

lemma lower_idem [simp]: "lower (lower s) = lower s"
  by (simp add: lower_def)

subsection \<open>Splitting on whitespace\<close>

function split_ws :: "string \<Rightarrow> string list" where
  "split_ws s =
     (case dropWhile is_space s of
        [] \<Rightarrow> []
      | c # cs \<Rightarrow> takeWhile (\<lambda>c. \<not> is_space c) (c # cs) #
                  split_ws (dropWhile (\<lambda>c. \<not> is_space c) (c # cs)))"
  by pat_completeness auto
termination
proof (relation "measure length")
  fix s :: string and c cs
  assume eq: "dropWhile is_space s = c # cs"
  then have "\<not> is_space c" by (metis hd_dropWhile list.discI list.sel(1))
  then have "length (dropWhile (\<lambda>c. \<not> is_space c) (c # cs)) \<le> length cs"
    by (simp add: length_dropWhile_le)
  also have "\<dots> < length s"
    using length_dropWhile_le [of is_space s] by (simp add: eq)
  finally show "(dropWhile (\<lambda>c. \<not> is_space c) (c # cs), s) \<in> measure length" by simp
qed simp

declare split_ws.simps [simp del]

fun join :: "string \<Rightarrow> string list \<Rightarrow> string" where
  "join sep [] = []"
| "join sep [w] = w"
| "join sep (w # v # ws) = w @ sep @ join sep (v # ws)"

definition word :: "string \<Rightarrow> bool" where
  "word w \<longleftrightarrow> w \<noteq> [] \<and> list_all (\<lambda>c. \<not> is_space c) w"

lemma is_space_blank [simp]: "is_space CHR '' ''"
  by (simp add: is_space_def)

lemma split_ws_Nil [simp]: "split_ws [] = []"
  by (subst split_ws.simps) simp

lemma split_ws_space [simp]: "is_space c \<Longrightarrow> split_ws (c # cs) = split_ws cs"
  by (subst (1 2) split_ws.simps) simp

lemma split_ws_lead: "list_all is_space pad \<Longrightarrow> split_ws (pad @ s) = split_ws s"
  by (induction pad) auto

lemma split_ws_blank: "list_all is_space pad \<Longrightarrow> split_ws pad = []"
  using split_ws_lead [of pad "[]"] by simp

lemma split_ws_word:
  assumes "word w" and "rest = [] \<or> is_space (hd rest)"
  shows "split_ws (w @ rest) = w # split_ws rest"
proof -
  obtain c cs where w: "w = c # cs" "\<not> is_space c" "\<And>x. x \<in> set cs \<Longrightarrow> \<not> is_space x"
    using assms(1) by (cases w) (auto simp: word_def list_all_iff)
  have take: "takeWhile (\<lambda>c. \<not> is_space c) (cs @ rest) = cs"
    using w(3) assms(2) by (cases rest) (auto simp: takeWhile_append)
  have drop: "dropWhile (\<lambda>c. \<not> is_space c) (cs @ rest) = rest"
    using w(3) assms(2) by (cases rest) (auto simp: dropWhile_append)
  show ?thesis
    by (subst split_ws.simps) (simp add: w(1,2) take drop)
qed

lemma words_split_ws: "w \<in> set (split_ws s) \<Longrightarrow> word w"
proof (induction s rule: split_ws.induct)
  case (1 s)
  show ?case
  proof (cases "dropWhile is_space s")
    case Nil
    with "1.prems" show ?thesis by (simp add: split_ws.simps [of s])
  next
    case (Cons c cs)
    then have c: "\<not> is_space c" by (metis hd_dropWhile list.discI list.sel(1))
    have "word (takeWhile (\<lambda>c. \<not> is_space c) (c # cs))"
      using c by (auto simp: word_def list_all_iff dest: set_takeWhileD)
    with "1.prems" "1.IH" [OF Cons] Cons show ?thesis
      by (auto simp: split_ws.simps [of s])
  qed
qed

lemma split_ws_join:
  "(\<And>w. w \<in> set ws \<Longrightarrow> word w) \<Longrightarrow> split_ws (join '' '' ws) = ws"
proof (induction ws)
  case Nil
  then show ?case by simp
next
  case (Cons w ws)
  have w: "word w" using Cons.prems by simp
  show ?case
  proof (cases ws)
    case Nil
    then show ?thesis using split_ws_word [OF w, of "[]"] by simp
  next
    case (Cons v vs)
    have "split_ws (join '' '' ws) = ws" by (rule Cons.IH) (use Cons.prems in auto)
    then show ?thesis using split_ws_word [OF w, of "'' '' @ join '' '' ws"] Cons by simp
  qed
qed

lemma split_ws_trail: "list_all is_space pad \<Longrightarrow> split_ws (s @ pad) = split_ws s"
proof (induction s rule: split_ws.induct)
  case (1 s)
  show ?case
  proof (cases "dropWhile is_space s")
    case Nil
    then have "list_all is_space s" by (simp add: list_all_iff)
    then show ?thesis using "1.prems" by (simp add: split_ws_blank)
  next
    case (Cons c cs)
    define w where "w = takeWhile (\<lambda>c. \<not> is_space c) (c # cs)"
    define r where "r = dropWhile (\<lambda>c. \<not> is_space c) (c # cs)"
    have c: "\<not> is_space c" using Cons by (metis hd_dropWhile list.discI list.sel(1))
    have w: "word w"
      using c by (auto simp: w_def word_def list_all_iff dest: set_takeWhileD)
    have r: "r = [] \<or> is_space (hd r)"
      using hd_dropWhile [of "\<lambda>c. \<not> is_space c" "c # cs"] unfolding r_def by blast
    have r': "r @ pad = [] \<or> is_space (hd (r @ pad))"
      using r "1.prems" by (cases r; cases pad) auto
    have s: "s = takeWhile is_space s @ w @ r"
      using takeWhile_dropWhile_id [of is_space s] Cons by (simp add: w_def r_def)
    have lead: "list_all is_space (takeWhile is_space s)"
      by (auto simp: list_all_iff dest: set_takeWhileD)
    have "split_ws (s @ pad) = w # split_ws (r @ pad)"
      using split_ws_lead [OF lead, of "w @ r @ pad"] split_ws_word [OF w r']
      by (subst s) simp
    also have "\<dots> = w # split_ws r"
      using "1.IH" [OF Cons "1.prems"] by (simp add: r_def)
    also have "\<dots> = split_ws s"
      using split_ws_lead [OF lead, of "w @ r"] split_ws_word [OF w r]
      by (subst s) simp
    finally show ?thesis .
  qed
qed

lemma split_ws_lower: "split_ws (lower s) = map lower (split_ws s)"
proof (induction s rule: split_ws.induct)
  case (1 s)
  have o: "is_space \<circ> lower_char = is_space" "(\<lambda>c. \<not> is_space c) \<circ> lower_char = (\<lambda>c. \<not> is_space c)"
    by (simp_all add: fun_eq_iff)
  show ?case
  proof (cases "dropWhile is_space s")
    case Nil
    then have "list_all is_space s" and "list_all is_space (lower s)"
      by (simp_all add: list_all_iff lower_def)
    then show ?thesis by (simp add: split_ws_blank)
  next
    case (Cons c cs)
    then have c: "\<not> is_space c" by (metis hd_dropWhile list.discI list.sel(1))
    have "split_ws (lower (dropWhile (\<lambda>c. \<not> is_space c) (c # cs))) =
            map lower (split_ws (dropWhile (\<lambda>c. \<not> is_space c) (c # cs)))"
      by (rule "1.IH" [OF Cons])
    then show ?thesis using c
      by (simp add: split_ws.simps [of s] split_ws.simps [of "map lower_char s"] lower_def
            dropWhile_map takeWhile_map o Cons)
  qed
qed

subsection \<open>Stripping and prefixes\<close>

definition strip :: "string \<Rightarrow> string" where
  "strip s = rev (dropWhile is_space (rev (dropWhile is_space s)))"

definition starts_with :: "string \<Rightarrow> string \<Rightarrow> bool" where
  "starts_with p s \<longleftrightarrow> take (length p) s = p"

subsection \<open>Printing numbers\<close>

definition digit_char :: "nat \<Rightarrow> char" where
  "digit_char d = (if d < 10 then char_of (48 + d) else char_of (87 + d))"

definition digit_val :: "char \<Rightarrow> nat" where
  "digit_val c = (let n = of_char c in if n < 58 then n - 48 else n - 87)"

lemma digit_val_char [simp]: "d < 16 \<Longrightarrow> digit_val (digit_char d) = d"
  by (simp add: digit_val_def digit_char_def Let_def)

fun show_nat :: "nat \<Rightarrow> string" where
  "show_nat n = (if n < 10 then [digit_char n] else show_nat (n div 10) @ [digit_char (n mod 10)])"

declare show_nat.simps [simp del]

definition show_int :: "int \<Rightarrow> string" where
  "show_int i = (if i < 0 then CHR ''-'' # show_nat (nat (- i)) else show_nat (nat i))"

fun hex_nat :: "nat \<Rightarrow> string" where
  "hex_nat n = (if n < 16 then [digit_char n] else hex_nat (n div 16) @ [digit_char (n mod 16)])"

declare hex_nat.simps [simp del]

text \<open>\<open>'%032x' % n\<close>, and \<open>UUID.__str__\<close>, which cuts it into 8-4-4-4-12.\<close>

definition hex32 :: "nat \<Rightarrow> string" where
  "hex32 n = (let h = hex_nat n in replicate (32 - length h) CHR ''0'' @ h)"

definition uuid_str :: "uuid \<Rightarrow> string" where
  "uuid_str u =
     (let h = hex32 u in
      take 8 h @ ''-'' @ take 4 (drop 8 h) @ ''-'' @ take 4 (drop 12 h) @ ''-'' @
      take 4 (drop 16 h) @ ''-'' @ drop 20 h)"

definition hex_val :: "string \<Rightarrow> nat" where
  "hex_val s = foldl (\<lambda>a c. 16 * a + digit_val c) 0 s"

lemma hex_val_hex_nat: "hex_val (hex_nat n) = n"
proof (induction n rule: hex_nat.induct)
  case (1 n)
  then show ?case by (cases "n < 16") (simp_all add: hex_nat.simps [of n] hex_val_def)
qed

lemma hex_val_zeros: "foldl (\<lambda>a c. 16 * a + digit_val c) 0 (replicate k CHR ''0'') = 0"
  by (induction k) (simp_all add: digit_val_def)

lemma hex_val_hex32: "hex_val (hex32 n) = n"
  using hex_val_hex_nat [of n] by (simp add: hex32_def hex_val_def Let_def hex_val_zeros)

lemma digit_char_not_dash: "d < 16 \<Longrightarrow> digit_char d \<noteq> CHR ''-''"
proof
  assume d: "d < 16" and eq: "digit_char d = CHR ''-''"
  from eq have "(of_char (digit_char d) :: nat) = 45" by simp
  with d show False by (simp add: digit_char_def split: if_splits)
qed

lemma hex_nat_no_dash: "CHR ''-'' \<notin> set (hex_nat n)"
proof (induction n rule: hex_nat.induct)
  case (1 n)
  then show ?case
    using digit_char_not_dash [of n] digit_char_not_dash [of "n mod 16"]
    by (cases "n < 16") (auto simp: hex_nat.simps [of n])
qed

lemma uuid_cut:
  "take 8 h @ take 4 (drop 8 h) @ take 4 (drop 12 h) @ take 4 (drop 16 h) @ drop 20 h = h"
  using append_take_drop_id [of 8 h] append_take_drop_id [of 4 "drop 8 h"]
    append_take_drop_id [of 4 "drop 12 h"] append_take_drop_id [of 4 "drop 16 h"]
  by simp

lemma undash_uuid_str: "filter (\<lambda>c. c \<noteq> CHR ''-'') (uuid_str u) = hex32 u"
proof -
  have keep: "filter (\<lambda>c. c \<noteq> CHR ''-'') xs = xs" if "set xs \<subseteq> set (hex32 u)" for xs
    using that hex_nat_no_dash [of u]
    by (intro filter_True) (auto simp: hex32_def Let_def split: if_splits)
  have "filter (\<lambda>c. c \<noteq> CHR ''-'') (uuid_str u) =
          take 8 (hex32 u) @ take 4 (drop 8 (hex32 u)) @ take 4 (drop 12 (hex32 u)) @
          take 4 (drop 16 (hex32 u)) @ drop 20 (hex32 u)"
    by (simp add: uuid_str_def Let_def keep set_take_subset set_drop_subset
          subset_trans [OF set_take_subset set_drop_subset])
  also have "\<dots> = hex32 u" by (rule uuid_cut)
  finally show ?thesis .
qed

lemma uuid_str_inject [simp]: "uuid_str u = uuid_str v \<longleftrightarrow> u = v"
  by (metis undash_uuid_str hex_val_hex32)

end
