(* ===== verification/PyJson.thy ===== *)
theory PyJson
  imports PyNum PyText
begin

text \<open>
  JSON values as Python sees them after \<open>json.loads\<close> or in a JSONB column, with truth testing,
  \<open>dict.get\<close> and subscripting. A dict is an association list with distinct keys in insertion
  order. A float stands for the decimal its \<open>repr\<close> prints; NaN and the infinities, which
  \<open>json.loads\<close> accepts, are constructors of their own.
\<close>

datatype json =
    JNull
  | JBool bool
  | JInt int
  | JFloat rat
  | JNaN
  | JInfinity bool
  | JStr string
  | JArr "json list"
  | JObj "(string \<times> json) list"

type_synonym dict = "(string \<times> json) list"

fun truthy :: "json \<Rightarrow> bool" where
  "truthy JNull = False"
| "truthy (JBool b) = b"
| "truthy (JInt i) = (i \<noteq> 0)"
| "truthy (JFloat r) = (r \<noteq> 0)"
| "truthy JNaN = True"
| "truthy (JInfinity _) = True"
| "truthy (JStr s) = (s \<noteq> [])"
| "truthy (JArr xs) = (xs \<noteq> [])"
| "truthy (JObj kvs) = (kvs \<noteq> [])"

text \<open>\<open>d.get(k, default)\<close> and, without a default, \<open>d.get(k)\<close>.\<close>

definition dict_get :: "dict \<Rightarrow> string \<Rightarrow> json \<Rightarrow> json" where
  "dict_get d k dflt = (case map_of d k of None \<Rightarrow> dflt | Some v \<Rightarrow> v)"

text \<open>\<open>config or {}\<close>: None and the empty dict both read as the empty dict.\<close>

definition or_empty :: "dict option \<Rightarrow> dict" where
  "or_empty c = (case c of None \<Rightarrow> [] | Some d \<Rightarrow> d)"

text \<open>Subscripting with a string key and with an integer index, on any JSON value.\<close>

definition json_key :: "json \<Rightarrow> string \<Rightarrow> exn + json" where
  "json_key v k =
     (case v of
        JObj kvs \<Rightarrow> (case map_of kvs k of None \<Rightarrow> Inl (KeyError k) | Some x \<Rightarrow> Inr x)
      | _ \<Rightarrow> Inl (TypeError k))"

definition json_index :: "json \<Rightarrow> nat \<Rightarrow> exn + json" where
  "json_index v i =
     (case v of
        JArr xs \<Rightarrow> (if i < length xs then Inr (xs ! i) else Inl (IndexError ''list index out of range''))
      | JStr s \<Rightarrow> (if i < length s then Inr (JStr [s ! i]) else Inl (IndexError ''string index out of range''))
      | JObj _ \<Rightarrow> Inl (KeyError (show_nat i))
      | _ \<Rightarrow> Inl (TypeError (show_nat i)))"

lemma dict_get_Nil [simp]: "dict_get [] k v = v"
  by (simp add: dict_get_def)

lemma dict_get_Cons [simp]:
  "dict_get ((k', x) # d) k v = (if k' = k then x else dict_get d k v)"
  by (simp add: dict_get_def)

lemma or_empty_simps [simp]: "or_empty None = []" "or_empty (Some d) = d"
  by (simp_all add: or_empty_def)

end
