(* ===== verification/Schema.thy ===== *)
theory Schema
  imports PyJson
begin

text \<open>
  The data model of \<open>app/models\<close>: the enums with the values the database stores, one record per
  table, and the database state. Column defaults and constraints (primary keys, foreign keys) are
  the predicates at the end. \<open>uuid.uuid4()\<close> draws the next unused number of the state, so fresh
  ids are distinct; \<open>func.now()\<close> reads the state's clock.
\<close>

subsection \<open>Enums\<close>

datatype grader_type = GT_exact_match | GT_regex | GT_llm_judge

datatype provider_kind = P_openai | P_anthropic | P_local

datatype eval_run_status = Run_pending | Run_running | Run_completed | Run_failed | Run_cancelled

datatype run_item_status =
  Item_queued | Item_running | Item_succeeded | Item_failed | Item_dead_lettered

datatype grader_kind = GK_deterministic | GK_llm_judge

datatype review_reason = RR_judge_disagreement | RR_low_confidence

datatype review_status = RS_open | RS_claimed | RS_resolved

datatype api_key_role = Role_admin | Role_reviewer

primrec grader_type_value :: "grader_type \<Rightarrow> string" where
  "grader_type_value GT_exact_match = ''exact_match''"
| "grader_type_value GT_regex = ''regex''"
| "grader_type_value GT_llm_judge = ''llm_judge''"

primrec provider_value :: "provider_kind \<Rightarrow> string" where
  "provider_value P_openai = ''openai''"
| "provider_value P_anthropic = ''anthropic''"
| "provider_value P_local = ''local''"

primrec grader_kind_value :: "grader_kind \<Rightarrow> string" where
  "grader_kind_value GK_deterministic = ''deterministic''"
| "grader_kind_value GK_llm_judge = ''llm_judge''"

primrec eval_run_status_value :: "eval_run_status \<Rightarrow> string" where
  "eval_run_status_value Run_pending = ''pending''"
| "eval_run_status_value Run_running = ''running''"
| "eval_run_status_value Run_completed = ''completed''"
| "eval_run_status_value Run_failed = ''failed''"
| "eval_run_status_value Run_cancelled = ''cancelled''"

primrec run_item_status_value :: "run_item_status \<Rightarrow> string" where
  "run_item_status_value Item_queued = ''queued''"
| "run_item_status_value Item_running = ''running''"
| "run_item_status_value Item_succeeded = ''succeeded''"
| "run_item_status_value Item_failed = ''failed''"
| "run_item_status_value Item_dead_lettered = ''dead_lettered''"

primrec review_reason_value :: "review_reason \<Rightarrow> string" where
  "review_reason_value RR_judge_disagreement = ''judge_disagreement''"
| "review_reason_value RR_low_confidence = ''low_confidence''"

primrec review_status_value :: "review_status \<Rightarrow> string" where
  "review_status_value RS_open = ''open''"
| "review_status_value RS_claimed = ''claimed''"
| "review_status_value RS_resolved = ''resolved''"

primrec api_key_role_value :: "api_key_role \<Rightarrow> string" where
  "api_key_role_value Role_admin = ''admin''"
| "api_key_role_value Role_reviewer = ''reviewer''"

text \<open>
  The review lifecycle is ordered open, claimed, resolved: an order instance, so that "never goes
  back" is an inequality.
\<close>

primrec review_rank :: "review_status \<Rightarrow> nat" where
  "review_rank RS_open = 0"
| "review_rank RS_claimed = 1"
| "review_rank RS_resolved = 2"

lemma review_rank_inject: "review_rank a = review_rank b \<Longrightarrow> a = b"
  by (cases a; cases b) simp_all

instantiation review_status :: linorder
begin

definition less_eq_review_status :: "review_status \<Rightarrow> review_status \<Rightarrow> bool" where
  "less_eq_review_status a b \<longleftrightarrow> review_rank a \<le> review_rank b"

definition less_review_status :: "review_status \<Rightarrow> review_status \<Rightarrow> bool" where
  "less_review_status a b \<longleftrightarrow> review_rank a < review_rank b"

instance
  by standard (auto simp: less_eq_review_status_def less_review_status_def
      intro: review_rank_inject)

end

subsection \<open>Tables\<close>

record task_set =
  ts_id :: uuid
  ts_name :: string
  ts_description :: "string option"
  ts_created_at :: timestamp

record task =
  tk_id :: uuid
  tk_task_set_id :: uuid
  tk_prompt :: string
  tk_capability :: string
  tk_expected_output :: "string option"
  tk_grader_type :: grader_type
  tk_grader_config :: "dict option"
  tk_created_at :: timestamp

record model_endpoint =
  me_id :: uuid
  me_name :: string
  me_provider :: provider_kind
  me_model_id :: string
  me_model_version :: string
  me_base_url :: "string option"
  me_created_at :: timestamp

record eval_run =
  er_id :: uuid
  er_task_set_id :: uuid
  er_status :: eval_run_status
  er_started_at :: "timestamp option"
  er_completed_at :: "timestamp option"
  er_total_cost_usd :: rat
  er_total_tokens :: int
  er_error :: "string option"
  er_created_at :: timestamp

record run_item =
  ri_id :: uuid
  ri_eval_run_id :: uuid
  ri_task_id :: uuid
  ri_model_endpoint_id :: uuid
  ri_status :: run_item_status
  ri_attempt_count :: int
  ri_latency_ms :: "int option"
  ri_prompt_tokens :: "int option"
  ri_completion_tokens :: "int option"
  ri_cost_usd :: "rat option"
  ri_error :: "string option"
  ri_artifact_key :: "string option"
  ri_created_at :: timestamp
  ri_updated_at :: timestamp

record grade =
  gr_id :: uuid
  gr_run_item_id :: uuid
  gr_grader :: grader_kind
  gr_score :: "rat option"
  gr_passed :: "bool option"
  gr_rubric_scores :: "(string \<times> rat) list option"
  gr_rationale :: "string option"
  gr_created_at :: timestamp

record review_item =
  rv_id :: uuid
  rv_run_item_id :: uuid
  rv_reason :: review_reason
  rv_status :: review_status
  rv_reviewer_label :: "rat option"
  rv_reviewer_notes :: "string option"
  rv_claimed_at :: "timestamp option"
  rv_resolved_at :: "timestamp option"
  rv_created_at :: timestamp

record api_key =
  ak_id :: uuid
  ak_name :: string
  ak_role :: api_key_role
  ak_key_prefix :: string
  ak_key_hash :: string
  ak_created_at :: timestamp

record db =
  task_sets :: "task_set list"
  tasks :: "task list"
  model_endpoints :: "model_endpoint list"
  eval_runs :: "eval_run list"
  run_items :: "run_item list"
  grades :: "grade list"
  review_items :: "review_item list"
  api_keys :: "api_key list"
  db_now :: timestamp
  uuid_next :: uuid

interpretation ri: table run_items run_items_update ri_id
  by unfold_locales simp_all

interpretation er: table eval_runs eval_runs_update er_id
  by unfold_locales simp_all

interpretation rv: table review_items review_items_update rv_id
  by unfold_locales simp_all

subsection \<open>Python truth of an optional string, absent numbers as zero\<close>

text \<open>\<open>x or 0\<close> on a nullable number column.\<close>

definition or_zero :: "'n::zero option \<Rightarrow> 'n" where
  "or_zero x = (case x of None \<Rightarrow> 0 | Some v \<Rightarrow> v)"

lemma or_zero_simps [simp]: "or_zero None = 0" "or_zero (Some v) = v"
  by (simp_all add: or_zero_def)

text \<open>What a run item has recorded: its cost and its tokens, zero before it finalizes.\<close>

definition item_cost :: "run_item \<Rightarrow> rat" where
  "item_cost r = or_zero (ri_cost_usd r)"

definition item_tokens :: "run_item \<Rightarrow> int" where
  "item_tokens r = or_zero (ri_prompt_tokens r) + or_zero (ri_completion_tokens r)"

subsection \<open>Constraints\<close>

definition keys_ok :: "'a db_scheme \<Rightarrow> bool" where
  "keys_ok d \<longleftrightarrow> distinct (map ri_id (run_items d)) \<and> distinct (map er_id (eval_runs d)) \<and>
     distinct (map tk_id (tasks d)) \<and> distinct (map me_id (model_endpoints d)) \<and>
     distinct (map rv_id (review_items d))"

definition refs_ok :: "'a db_scheme \<Rightarrow> bool" where
  "refs_ok d \<longleftrightarrow> (\<forall>r \<in> set (run_items d).
     fetch er_id (ri_eval_run_id r) (eval_runs d) \<noteq> None \<and>
     fetch tk_id (ri_task_id r) (tasks d) \<noteq> None \<and>
     fetch me_id (ri_model_endpoint_id r) (model_endpoints d) \<noteq> None)"

end
