(* ===== verification/Pricing.thy ===== *)
theory Pricing
  imports Schema
begin

text \<open>
  \<open>app/pricing.py\<close>: prices in USD per million tokens and the cost of one completion, rounded to
  six decimals. Token counts are integers, \<open>Decimal\<close> arithmetic is exact here;
  \<open>cost_coefficient_bound\<close> shows that for token counts of the column type every intermediate
  value has far fewer than the 28 significant digits the decimal context keeps, so no intermediate
  rounding is left out.
\<close>

definition price_per_million :: "(string \<times> (rat \<times> rat)) list" where
  "price_per_million =
     [(''gpt-4o'', (250 / 100, 1000 / 100)),
      (''gpt-4o-mini'', (15 / 100, 60 / 100)),
      (''gpt-4.1'', (200 / 100, 800 / 100)),
      (''gpt-4.1-mini'', (40 / 100, 160 / 100)),
      (''claude-3-5-sonnet-20241022'', (300 / 100, 1500 / 100)),
      (''claude-3-7-sonnet-20250219'', (300 / 100, 1500 / 100)),
      (''claude-sonnet-4-20250514'', (300 / 100, 1500 / 100)),
      (''claude-opus-4-20250514'', (1500 / 100, 7500 / 100))]"

definition price_for_model :: "string \<Rightarrow> rat \<times> rat" where
  "price_for_model model_id =
     (case map_of price_per_million model_id of None \<Rightarrow> (0, 0) | Some p \<Rightarrow> p)"

definition raw_cost :: "string \<Rightarrow> int \<Rightarrow> int \<Rightarrow> rat" where
  "raw_cost model_id prompt_tokens completion_tokens =
     (let (input_price, output_price) = price_for_model model_id in
      (of_int prompt_tokens * input_price + of_int completion_tokens * output_price) / 1000000)"

definition compute_cost :: "string \<Rightarrow> int \<Rightarrow> int \<Rightarrow> rat" where
  "compute_cost model_id prompt_tokens completion_tokens =
     quantize 6 (raw_cost model_id prompt_tokens completion_tokens)"

text \<open>Every price is a number of cents between 0 and 75 dollars.\<close>

definition cents :: "string \<Rightarrow> int \<times> int" where
  "cents model_id =
     (let (i, q) = price_for_model model_id in (\<lfloor>100 * i\<rfloor>, \<lfloor>100 * q\<rfloor>))"

lemma map_of_all: "map_of xs k = Some v \<Longrightarrow> list_all (\<lambda>kv. P (snd kv)) xs \<Longrightarrow> P v"
  by (auto simp: list_all_iff dest!: map_of_SomeD)

lemma price_in_cents:
  "price_for_model m = (i, q) \<Longrightarrow>
     (i = of_int \<lfloor>100 * i\<rfloor> / 100 \<and> 0 \<le> \<lfloor>100 * i\<rfloor> \<and> \<lfloor>100 * i\<rfloor> \<le> 7500) \<and>
     (q = of_int \<lfloor>100 * q\<rfloor> / 100 \<and> 0 \<le> \<lfloor>100 * q\<rfloor> \<and> \<lfloor>100 * q\<rfloor> \<le> 7500)"
proof -
  assume eq: "price_for_model m = (i, q)"
  let ?ok = "\<lambda>x :: rat. x = of_int \<lfloor>100 * x\<rfloor> / 100 \<and> 0 \<le> \<lfloor>100 * x\<rfloor> \<and> \<lfloor>100 * x\<rfloor> \<le> 7500"
  have all: "list_all (\<lambda>kv. ?ok (fst (snd kv)) \<and> ?ok (snd (snd kv))) price_per_million"
    by (simp add: price_per_million_def)
  show ?thesis
  proof (cases "map_of price_per_million m")
    case None
    with eq show ?thesis by (simp add: price_for_model_def)
  next
    case (Some p)
    with eq have "p = (i, q)" by (simp add: price_for_model_def)
    with map_of_all [OF Some, of "\<lambda>p. ?ok (fst p) \<and> ?ok (snd p)"] all show ?thesis by simp
  qed
qed

lemma cents_bounds:
  "0 \<le> fst (cents m) \<and> fst (cents m) \<le> 7500 \<and> 0 \<le> snd (cents m) \<and> snd (cents m) \<le> 7500"
  using price_in_cents [of m] by (cases "price_for_model m") (simp add: cents_def)

lemma raw_cost_cents:
  "raw_cost m p c = of_int (p * fst (cents m) + c * snd (cents m)) / 10 ^ 8"
proof -
  obtain i q where iq: "price_for_model m = (i, q)" by (cases "price_for_model m")
  define ci where "ci = fst (cents m)"
  define cq where "cq = snd (cents m)"
  have i: "i = of_int ci / 100" and q: "q = of_int cq / 100"
    using price_in_cents [OF iq] by (simp_all add: ci_def cq_def cents_def iq)
  have "raw_cost m p c = of_int (p * ci + c * cq) / 10 ^ 8"
    by (simp add: raw_cost_def iq) (simp add: i q field_simps)
  then show ?thesis by (simp add: ci_def cq_def)
qed

lemma price_nonneg: "price_for_model m = (i, q) \<Longrightarrow> 0 \<le> i \<and> 0 \<le> q"
  using price_in_cents [of m i q] by (metis divide_nonneg_pos of_int_0_le_iff zero_less_numeral)

lemma raw_cost_nonneg: "0 \<le> p \<Longrightarrow> 0 \<le> c \<Longrightarrow> 0 \<le> raw_cost m p c"
  using cents_bounds [of m] by (simp add: raw_cost_cents)

lemma raw_cost_mono:
  assumes "p \<le> p'" and "c \<le> c'"
  shows "raw_cost m p c \<le> raw_cost m p' c'"
proof -
  have "p * fst (cents m) + c * snd (cents m) \<le> p' * fst (cents m) + c' * snd (cents m)"
    using assms cents_bounds [of m] by (intro add_mono mult_right_mono) auto
  then show ?thesis by (simp add: raw_cost_cents divide_right_mono del: of_int_add of_int_mult)
qed

lemma compute_cost_unknown: "m \<notin> fst ` set price_per_million \<Longrightarrow> compute_cost m p c = 0"
  by (simp add: compute_cost_def raw_cost_def price_for_model_def quantize_zero
      map_of_eq_None_iff [symmetric])



text \<open>
  For token counts an \<open>Integer\<close> column can hold, the cost is a coefficient of less than 28
  digits over \<open>10 ^ 8\<close>: the decimal context rounds nothing before \<open>quantize\<close>, and the result
  fits the \<open>Numeric(12, 6)\<close> column.
\<close>

theorem cost_coefficient_bound:
  assumes "0 \<le> p" and "int4 p" and "0 \<le> c" and "int4 c"
  shows "\<exists>k. raw_cost m p c = of_int k / 10 ^ 8 \<and> 0 \<le> k \<and> k < 10 ^ 14 \<and>
             numeric_fits 12 6 (compute_cost m p c)"
proof -
  define k where "k = p * fst (cents m) + c * snd (cents m)"
  have "p * fst (cents m) \<le> 2147483647 * 7500" and "c * snd (cents m) \<le> 2147483647 * 7500"
    by (rule mult_mono; use assms cents_bounds [of m] in \<open>simp add: int4_def\<close>)+
  then have hi: "k \<le> 32212254705000" by (simp add: k_def)
  have lo: "0 \<le> k" using assms cents_bounds [of m] by (simp add: k_def)
  have raw: "raw_cost m p c = of_int k / 10 ^ 8" by (simp add: raw_cost_cents k_def)
  have "raw_cost m p c \<le> 400000"
    using hi by (simp add: raw pos_divide_le_eq)
  then have "compute_cost m p c \<le> of_int 400000"
    using quantize_between [of 0 "raw_cost m p c" 400000 6] raw_cost_nonneg [OF assms(1,3)]
    by (simp add: compute_cost_def)
  moreover have "0 \<le> compute_cost m p c"
    unfolding compute_cost_def by (intro quantize_nonneg raw_cost_nonneg assms)
  ultimately have "numeric_fits 12 6 (compute_cost m p c)" by (simp add: numeric_fits_def)
  with raw lo hi show ?thesis by (intro exI [of _ k]) simp
qed

theorem cost_coefficient_bound_witness:
  "\<exists>k. raw_cost ''claude-opus-4-20250514'' 2147483647 2147483647 = of_int k / 10 ^ 8 \<and> 0 \<le> k \<and>
       k < 10 ^ 14 \<and> numeric_fits 12 6 (compute_cost ''claude-opus-4-20250514'' 2147483647 2147483647)"
  by (rule cost_coefficient_bound) (simp_all add: int4_def)

end
