(* ===== verification/Transactions.thy ===== *)
theory Transactions
  imports Pricing
begin

text \<open>
  The state of the running system and the database transactions of \<open>app/workers/execute.py\<close>: the
  five \<open>mark\<close> updates, the finalizing transaction with its rollup, the spend guard and the
  completion check. Each is one committed transaction, a function of the database state; a failing
  transaction leaves the state unchanged. The ledger invariant (a run's totals are the sums over
  its items) and the frame facts of every transaction close the theory.

  \<open>sys\<close> extends the database state by Redis (the artifact store), the two Celery queues, the
  Prometheus counters, the number of provider calls made and the delays slept. Queue messages
  carry the run item id itself.
\<close>

record sys = db +
  redis :: "string \<rightharpoonup> json"
  evals_queue :: "uuid list"
  dlq :: "uuid list"
  eval_items_total :: "string \<times> string \<Rightarrow> nat"
  dead_letters_total :: nat
  review_items_total :: "review_reason \<Rightarrow> nat"
  provider_calls :: nat
  sleeps :: "rat list"

subsection \<open>The mark updates\<close>

definition mark_running :: "uuid \<Rightarrow> 'a db_scheme \<Rightarrow> 'a db_scheme" where
  "mark_running rid d = run_items_update (sql_update (\<lambda>r. ri_id r = rid)
     (\<lambda>r. r\<lparr>ri_status := Item_running, ri_attempt_count := ri_attempt_count r + 1,
            ri_updated_at := db_now d\<rparr>)) d"

definition mark_failed :: "uuid \<Rightarrow> string \<Rightarrow> 'a db_scheme \<Rightarrow> 'a db_scheme" where
  "mark_failed rid err d = run_items_update (sql_update (\<lambda>r. ri_id r = rid)
     (\<lambda>r. r\<lparr>ri_status := Item_failed, ri_error := Some err, ri_updated_at := db_now d\<rparr>)) d"

definition mark_dead_lettered :: "uuid \<Rightarrow> string \<Rightarrow> 'a db_scheme \<Rightarrow> 'a db_scheme" where
  "mark_dead_lettered rid err d = run_items_update (sql_update (\<lambda>r. ri_id r = rid)
     (\<lambda>r. r\<lparr>ri_status := Item_dead_lettered, ri_error := Some err, ri_updated_at := db_now d\<rparr>)) d"

definition mark_cancelled :: "uuid \<Rightarrow> 'a db_scheme \<Rightarrow> 'a db_scheme" where
  "mark_cancelled rid d = run_items_update
     (sql_update (\<lambda>r. ri_id r = rid \<and> ri_status r \<noteq> Item_succeeded)
     (\<lambda>r. r\<lparr>ri_status := Item_failed, ri_error := Some ''eval run cancelled'',
            ri_updated_at := db_now d\<rparr>)) d"

subsection \<open>The finalizing transaction\<close>

text \<open>
  The guarded update of the item and, when it matched, the rollup of the run, committed together.
  The driver refuses integers outside the \<open>Integer\<close> columns and PostgreSQL refuses values outside
  \<open>Numeric(12, 6)\<close>: then the transaction rolls back and raises. \<open>Inr (False, _)\<close> is "already
  finalized".
\<close>

definition finalize_item :: "uuid \<Rightarrow> uuid \<Rightarrow> int \<Rightarrow> int \<Rightarrow> int \<Rightarrow> rat \<Rightarrow> string \<Rightarrow> rat \<Rightarrow> int \<Rightarrow>
    'a db_scheme \<Rightarrow> exn + (bool \<times> 'a db_scheme)" where
  "finalize_item rid run_id latency ptok ctok cost akey delta_cost delta_tokens d =
     (if \<not> (int4 latency \<and> int4 ptok \<and> int4 ctok) then Inl (DatabaseError ''integer out of range'')
      else let p = (\<lambda>r. ri_id r = rid \<and> ri_status r = Item_running) in
      if rowcount p (run_items d) = 0 then Inr (False, d)
      else if \<not> numeric_fits 12 6 cost then Inl (DatabaseError ''numeric field overflow'')
      else if \<not> int4 delta_tokens then Inl (DatabaseError ''integer out of range'')
      else if exists_row (\<lambda>e. er_id e = run_id \<and>
                \<not> (numeric_fits 12 6 (er_total_cost_usd e + delta_cost) \<and>
                   int4 (er_total_tokens e + delta_tokens))) (eval_runs d)
           then Inl (DatabaseError ''numeric field overflow'')
      else Inr (True,
        eval_runs_update (sql_update (\<lambda>e. er_id e = run_id)
          (\<lambda>e. e\<lparr>er_total_cost_usd := er_total_cost_usd e + delta_cost,
                 er_total_tokens := er_total_tokens e + delta_tokens\<rparr>))
        (run_items_update (sql_update p
          (\<lambda>r. r\<lparr>ri_status := Item_succeeded, ri_latency_ms := Some latency,
                 ri_prompt_tokens := Some ptok, ri_completion_tokens := Some ctok,
                 ri_cost_usd := Some cost, ri_error := None, ri_artifact_key := Some akey,
                 ri_updated_at := db_now d\<rparr>)) d)))"

subsection \<open>The spend guard and the completion check\<close>

text \<open>The text \<open>str(Decimal)\<close> of the limit is an argument: it only reaches the error column.\<close>

definition abort_over_budget :: "uuid \<Rightarrow> rat \<Rightarrow> string \<Rightarrow> 'a db_scheme \<Rightarrow> bool \<times> 'a db_scheme" where
  "abort_over_budget run_id limit limit_text d =
     (let p = (\<lambda>e. er_id e = run_id \<and> er_status e = Run_running \<and> limit < er_total_cost_usd e);
          d1 = eval_runs_update (sql_update p
            (\<lambda>e. e\<lparr>er_status := Run_failed, er_completed_at := Some (db_now d),
                   er_error := Some (''aborted: projected spend exceeds limit of $'' @ limit_text)\<rparr>)) d
      in if rowcount p (eval_runs d) = 1
         then (True, run_items_update (sql_update
                (\<lambda>r. ri_eval_run_id r = run_id \<and> ri_status r = Item_queued)
                (\<lambda>r. r\<lparr>ri_status := Item_failed,
                       ri_error := Some ''aborted: eval run spend limit exceeded'',
                       ri_updated_at := db_now d\<rparr>)) d1)
         else (False, d1))"

definition unfinished :: "uuid \<Rightarrow> run_item \<Rightarrow> bool" where
  "unfinished run_id r \<longleftrightarrow> ri_eval_run_id r = run_id \<and> ri_status r \<in> {Item_queued, Item_running}"

text \<open>\<open>_maybe_complete_run\<close> counts the items left, then writes when there are none.\<close>

definition remaining_items :: "uuid \<Rightarrow> 'a db_scheme \<Rightarrow> nat" where
  "remaining_items run_id d = rowcount (unfinished run_id) (run_items d)"

definition complete_updates :: "uuid \<Rightarrow> 'a db_scheme \<Rightarrow> 'a db_scheme" where
  "complete_updates run_id d =
     (let
        dead = exists_row (\<lambda>r. ri_eval_run_id r = run_id \<and> ri_status r = Item_dead_lettered)
                 (run_items d);
        d1 = eval_runs_update (sql_update
               (\<lambda>e. er_id e = run_id \<and> er_status e = Run_running \<and> dead)
               (\<lambda>e. e\<lparr>er_status := Run_failed, er_completed_at := Some (db_now d)\<rparr>)) d
      in eval_runs_update (sql_update
           (\<lambda>e. er_id e = run_id \<and> er_status e = Run_running)
           (\<lambda>e. e\<lparr>er_status := Run_completed, er_completed_at := Some (db_now d)\<rparr>)) d1)"

definition maybe_complete_run :: "uuid \<Rightarrow> 'a db_scheme \<Rightarrow> 'a db_scheme" where
  "maybe_complete_run run_id d = (if remaining_items run_id d = 0 then complete_updates run_id d else d)"

subsection \<open>What each transaction writes\<close>

lemmas complete_run_defs = maybe_complete_run_def remaining_items_def complete_updates_def

lemmas mark_defs = mark_running_def mark_failed_def mark_dead_lettered_def mark_cancelled_def

lemma mark_eval_runs [tx_simps]:
  "eval_runs (mark_running rid d) = eval_runs d"
  "eval_runs (mark_failed rid err d) = eval_runs d"
  "eval_runs (mark_dead_lettered rid err d) = eval_runs d"
  "eval_runs (mark_cancelled rid d) = eval_runs d"
  by (simp_all add: mark_defs)

lemma mark_tables [tx_simps]:
  "tasks (mark_running rid d) = tasks d" "model_endpoints (mark_running rid d) = model_endpoints d"
  "tasks (mark_failed rid err d) = tasks d" "model_endpoints (mark_failed rid err d) = model_endpoints d"
  "tasks (mark_dead_lettered rid err d) = tasks d"
  "model_endpoints (mark_dead_lettered rid err d) = model_endpoints d"
  "tasks (mark_cancelled rid d) = tasks d" "model_endpoints (mark_cancelled rid d) = model_endpoints d"
  by (simp_all add: mark_defs)

lemma complete_tables [tx_simps]:
  "run_items (maybe_complete_run k d) = run_items d"
  "tasks (maybe_complete_run k d) = tasks d"
  "model_endpoints (maybe_complete_run k d) = model_endpoints d"
  "review_items (maybe_complete_run k d) = review_items d"
  "grades (maybe_complete_run k d) = grades d"
  by (simp_all add: complete_run_defs Let_def)

lemma abort_tables [tx_simps]:
  "tasks (snd (abort_over_budget k l t d)) = tasks d"
  "model_endpoints (snd (abort_over_budget k l t d)) = model_endpoints d"
  "review_items (snd (abort_over_budget k l t d)) = review_items d"
  "grades (snd (abort_over_budget k l t d)) = grades d"
  by (simp_all add: abort_over_budget_def Let_def)

text \<open>The row of one item after each update of that item.\<close>

lemma fetch_mark_running:
  "fetch ri_id i (run_items (mark_running rid d)) =
     map_option (\<lambda>r. if ri_id r = rid then r\<lparr>ri_status := Item_running,
        ri_attempt_count := ri_attempt_count r + 1, ri_updated_at := db_now d\<rparr> else r)
       (fetch ri_id i (run_items d))"
  by (simp add: mark_running_def fetch_sql_update)

lemma fetch_mark_failed:
  "fetch ri_id i (run_items (mark_failed rid err d)) =
     map_option (\<lambda>r. if ri_id r = rid then r\<lparr>ri_status := Item_failed, ri_error := Some err,
        ri_updated_at := db_now d\<rparr> else r) (fetch ri_id i (run_items d))"
  by (simp add: mark_failed_def fetch_sql_update)

lemma fetch_mark_dead_lettered:
  "fetch ri_id i (run_items (mark_dead_lettered rid err d)) =
     map_option (\<lambda>r. if ri_id r = rid then r\<lparr>ri_status := Item_dead_lettered, ri_error := Some err,
        ri_updated_at := db_now d\<rparr> else r) (fetch ri_id i (run_items d))"
  by (simp add: mark_dead_lettered_def fetch_sql_update)

lemma fetch_mark_cancelled:
  "fetch ri_id i (run_items (mark_cancelled rid d)) =
     map_option (\<lambda>r. if ri_id r = rid \<and> ri_status r \<noteq> Item_succeeded
        then r\<lparr>ri_status := Item_failed, ri_error := Some ''eval run cancelled'',
               ri_updated_at := db_now d\<rparr> else r) (fetch ri_id i (run_items d))"
  by (simp add: mark_cancelled_def fetch_sql_update)

lemmas fetch_mark = fetch_mark_running fetch_mark_failed fetch_mark_dead_lettered
  fetch_mark_cancelled

end
