(* ===== verification/Ledger.thy ===== *)
theory Ledger
  imports Transactions
begin

text \<open>
  The ledger of a run: \<open>total_cost_usd\<close> and \<open>total_tokens\<close> are the sums of what its items have
  recorded. \<open>cost_book\<close> and \<open>token_book\<close> are those sums, \<open>totals\<close> the stored columns; every
  transaction is described by what it does to the three, so the ledger proofs of the worker and of
  the API are rewriting.
\<close>

definition cost_book :: "'a db_scheme \<Rightarrow> uuid \<Rightarrow> rat" where
  "cost_book d k = group_sum ri_eval_run_id item_cost k (run_items d)"

definition token_book :: "'a db_scheme \<Rightarrow> uuid \<Rightarrow> int" where
  "token_book d k = group_sum ri_eval_run_id item_tokens k (run_items d)"

definition totals :: "'a db_scheme \<Rightarrow> (uuid \<times> rat \<times> int) list" where
  "totals d = map (\<lambda>e. (er_id e, er_total_cost_usd e, er_total_tokens e)) (eval_runs d)"

definition ledger_ok :: "'a db_scheme \<Rightarrow> bool" where
  "ledger_ok d \<longleftrightarrow>
     list_all (\<lambda>(k, cost, tokens). cost = cost_book d k \<and> tokens = token_book d k) (totals d)"

lemma ledger_ok_iff:
  "ledger_ok d \<longleftrightarrow> (\<forall>e \<in> set (eval_runs d).
     er_total_cost_usd e = cost_book d (er_id e) \<and> er_total_tokens e = token_book d (er_id e))"
  by (simp add: ledger_ok_def totals_def list_all_iff)

lemma ledger_ok_cong:
  "cost_book d' = cost_book d \<Longrightarrow> token_book d' = token_book d \<Longrightarrow> totals d' = totals d \<Longrightarrow>
   ledger_ok d' = ledger_ok d"
  by (simp add: ledger_ok_def)

subsection \<open>Updates that do not touch the money\<close>

lemma books_sql_update [ledger_simps]:
  assumes "\<And>r. ri_eval_run_id (f r) = ri_eval_run_id r" and "\<And>r. ri_cost_usd (f r) = ri_cost_usd r"
    and "\<And>r. ri_prompt_tokens (f r) = ri_prompt_tokens r"
    and "\<And>r. ri_completion_tokens (f r) = ri_completion_tokens r"
  shows "cost_book (run_items_update (sql_update p f) d) = cost_book d"
    and "token_book (run_items_update (sql_update p f) d) = token_book d"
  using assms
  by (auto simp: fun_eq_iff cost_book_def token_book_def item_cost_def item_tokens_def
      intro!: group_sum_frame)

lemma books_eval_runs [ledger_simps]:
  "cost_book (eval_runs_update h d) = cost_book d"
  "token_book (eval_runs_update h d) = token_book d"
  by (simp_all add: fun_eq_iff cost_book_def token_book_def)

lemma totals_run_items [ledger_simps]: "totals (run_items_update h d) = totals d"
  by (simp add: totals_def)

lemma totals_eval_runs [ledger_simps]:
  "totals (eval_runs_update h d) =
     map (\<lambda>e. (er_id e, er_total_cost_usd e, er_total_tokens e)) (h (eval_runs d))"
  by (simp add: totals_def)

lemma mark_books [ledger_simps]:
  "cost_book (mark_running rid d) = cost_book d" "token_book (mark_running rid d) = token_book d"
  "totals (mark_running rid d) = totals d"
  "cost_book (mark_failed rid err d) = cost_book d" "token_book (mark_failed rid err d) = token_book d"
  "totals (mark_failed rid err d) = totals d"
  "cost_book (mark_dead_lettered rid err d) = cost_book d"
  "token_book (mark_dead_lettered rid err d) = token_book d"
  "totals (mark_dead_lettered rid err d) = totals d"
  "cost_book (mark_cancelled rid d) = cost_book d" "token_book (mark_cancelled rid d) = token_book d"
  "totals (mark_cancelled rid d) = totals d"
  by (simp_all add: mark_defs ledger_simps)

lemma complete_books [ledger_simps]:
  "cost_book (maybe_complete_run k d) = cost_book d"
  "token_book (maybe_complete_run k d) = token_book d"
  "totals (maybe_complete_run k d) = totals d"
  by (simp_all add: complete_run_defs Let_def ledger_simps map_sql_update totals_def)

lemma abort_books [ledger_simps]:
  "cost_book (snd (abort_over_budget k l t d)) = cost_book d"
  "token_book (snd (abort_over_budget k l t d)) = token_book d"
  "totals (snd (abort_over_budget k l t d)) = totals d"
  by (simp_all add: abort_over_budget_def Let_def ledger_simps map_sql_update totals_def)

lemma mark_ledger [ledger_simps]:
  "ledger_ok (mark_running rid d) = ledger_ok d"
  "ledger_ok (mark_failed rid err d) = ledger_ok d"
  "ledger_ok (mark_dead_lettered rid err d) = ledger_ok d"
  "ledger_ok (mark_cancelled rid d) = ledger_ok d"
  "ledger_ok (maybe_complete_run k d) = ledger_ok d"
  "ledger_ok (snd (abort_over_budget k l t d)) = ledger_ok d"
  by (simp_all add: ledger_ok_def ledger_simps)

subsection \<open>The finalizing transaction\<close>

text \<open>Inversion of a committed finalize: what held before, and the state it left.\<close>

lemma finalize_item_cases:
  assumes "finalize_item rid k lat pt ct cost akey dc dt d = Inr (b, d')"
  obtains (skipped) "\<not> b" "d' = d"
      "rowcount (\<lambda>r. ri_id r = rid \<and> ri_status r = Item_running) (run_items d) = 0"
  | (written) b "int4 pt" "int4 ct" "numeric_fits 12 6 cost"
      "rowcount (\<lambda>r. ri_id r = rid \<and> ri_status r = Item_running) (run_items d) \<noteq> 0"
      "eval_runs d' = sql_update (\<lambda>e. er_id e = k)
          (\<lambda>e. e\<lparr>er_total_cost_usd := er_total_cost_usd e + dc,
                 er_total_tokens := er_total_tokens e + dt\<rparr>) (eval_runs d)"
      "run_items d' = sql_update (\<lambda>r. ri_id r = rid \<and> ri_status r = Item_running)
          (\<lambda>r. r\<lparr>ri_status := Item_succeeded, ri_latency_ms := Some lat,
                 ri_prompt_tokens := Some pt, ri_completion_tokens := Some ct,
                 ri_cost_usd := Some cost, ri_error := None, ri_artifact_key := Some akey,
                 ri_updated_at := db_now d\<rparr>) (run_items d)"
      "tasks d' = tasks d" "model_endpoints d' = model_endpoints d"
      "grades d' = grades d" "review_items d' = review_items d"
  using assms by (auto simp: finalize_item_def Let_def split: if_splits)

lemma finalize_skipped_iff:
  assumes "finalize_item rid k lat pt ct cost akey dc dt d = Inr (b, d')"
  shows "b \<longleftrightarrow> rowcount (\<lambda>r. ri_id r = rid \<and> ri_status r = Item_running) (run_items d) \<noteq> 0"
  using assms by (cases rule: finalize_item_cases) auto

lemma rowcount_rid:
  "distinct (map ri_id rows) \<Longrightarrow>
   0 < rowcount (\<lambda>r. ri_id r = rid \<and> q r) rows \<longleftrightarrow> (\<exists>r. fetch ri_id rid rows = Some r \<and> q r)"
  by (simp add: rowcount_key split: option.split)

text \<open>
  The finalizing transaction keeps the ledger when the deltas are taken against what the item
  records at that moment.
\<close>

lemma finalize_ledger:
  assumes fin: "finalize_item rid k lat pt ct cost akey dc dt d = Inr (b, d')"
    and dist: "distinct (map ri_id (run_items d))" and ok: "ledger_ok d"
    and item: "fetch ri_id rid (run_items d) = Some r0" and run: "ri_eval_run_id r0 = k"
    and dc: "dc = cost - item_cost r0" and dt: "dt = pt + ct - item_tokens r0"
  shows "ledger_ok d'"
  using fin
proof (cases rule: finalize_item_cases)
  case skipped
  with ok show ?thesis by simp
next
  case written
  have running: "ri_status r0 = Item_running"
    using written(5) item by (simp add: rowcount_rid [OF dist])
  note upd = group_sum_update_key [where pk = ri_id and g = ri_eval_run_id and i = rid
      and q = "\<lambda>r. ri_status r = Item_running", OF dist item running]
  have cost: "cost_book d' j = cost_book d j + (if k = j then dc else 0)" for j
    unfolding cost_book_def written(7) by (subst upd) (simp_all add: run dc item_cost_def)
  have tokens: "token_book d' j = token_book d j + (if k = j then dt else 0)" for j
    unfolding token_book_def written(7) by (subst upd) (simp_all add: run dt item_tokens_def)
  show ?thesis
    using ok unfolding ledger_ok_iff written(6) by (auto simp: set_sql_update cost tokens)
qed

subsection \<open>The book invariant\<close>

text \<open>Item ids are a key and the totals agree with the items; every mark and check keeps both.\<close>

definition book_inv :: "'a db_scheme \<Rightarrow> bool" where
  "book_inv d \<longleftrightarrow> distinct (map ri_id (run_items d)) \<and> ledger_ok d"

lemma book_inv_frame:
  assumes "run_items d' = run_items d" and "eval_runs d' = eval_runs d"
  shows "book_inv d' = book_inv d"
  using assms by (simp add: book_inv_def ledger_ok_iff cost_book_def token_book_def)

lemma abort_keys: "map ri_id (run_items (snd (abort_over_budget k l t d))) = map ri_id (run_items d)"
  by (simp add: abort_over_budget_def Let_def map_sql_update)

lemma book_inv_marks [ledger_simps]:
  "book_inv (mark_running rid d) = book_inv d" "book_inv (mark_failed rid err d) = book_inv d"
  "book_inv (mark_dead_lettered rid err d) = book_inv d" "book_inv (mark_cancelled rid d) = book_inv d"
  "book_inv (maybe_complete_run k d) = book_inv d"
  "book_inv (snd (abort_over_budget k l t d)) = book_inv d"
  by (simp_all add: book_inv_def ledger_simps tx_simps abort_keys)
     (simp_all add: mark_defs map_sql_update)

lemma finalize_book_inv:
  assumes "finalize_item rid k lat pt ct cost akey dc dt d = Inr (b, d')" and "book_inv d"
    and "fetch ri_id rid (run_items d) = Some r0" and "ri_eval_run_id r0 = k"
    and "dc = cost - item_cost r0" and "dt = pt + ct - item_tokens r0"
  shows "book_inv d'"
proof -
  have "map ri_id (run_items d') = map ri_id (run_items d)"
    using assms(1) by (cases rule: finalize_item_cases) (simp_all add: map_sql_update)
  with finalize_ledger [OF assms(1) _ _ assms(3-6)] assms(2) show ?thesis
    by (simp add: book_inv_def)
qed

end
