(* ===== verification/Deterministic.thy ===== *)
theory Deterministic
  imports Schema
begin

text \<open>
  \<open>app/graders/deterministic.py\<close>: the exact-match and regex graders and the dispatch on the
  task. The regular-expression engine is an argument (\<open>re_search\<close> and \<open>re_fullmatch\<close> with the
  IGNORECASE flag, \<open>Inl\<close> when the pattern does not compile); the rest is written out. The locale
  \<open>binary_grader\<close> is what the pipeline relies on: the score is 1 exactly when the grade passed
  and 0 otherwise.
\<close>

record regex_engine =
  re_search :: "string \<Rightarrow> string \<Rightarrow> bool \<Rightarrow> exn + bool"
  re_fullmatch :: "string \<Rightarrow> string \<Rightarrow> bool \<Rightarrow> exn + bool"

record deterministic_grade =
  dg_score :: rat
  dg_passed :: bool
  dg_rationale :: string

definition normalize_whitespace :: "string \<Rightarrow> string" where
  "normalize_whitespace text = join '' '' (split_ws text)"

definition grade_exact_match :: "string \<Rightarrow> string \<Rightarrow> dict option \<Rightarrow> deterministic_grade" where
  "grade_exact_match actual expected config =
     (let cfg = or_empty config;
          (a1, e1) = (if truthy (dict_get cfg ''normalize_whitespace'' (JBool True))
                      then (normalize_whitespace actual, normalize_whitespace expected)
                      else (actual, expected));
          (a2, e2) = (if \<not> truthy (dict_get cfg ''case_sensitive'' (JBool False))
                      then (lower a1, lower e1) else (a1, e1));
          matched = (a2 = e2)
      in \<lparr>dg_score = (if matched then 1 else 0), dg_passed = matched,
           dg_rationale = ''exact match''\<rparr>)"

definition grade_regex ::
  "regex_engine \<Rightarrow> string \<Rightarrow> string \<Rightarrow> dict option \<Rightarrow> exn + deterministic_grade" where
  "grade_regex re actual pattern config =
     (let cfg = or_empty config;
          ignore = truthy (dict_get cfg ''ignore_case'' (JBool False));
          found = (if truthy (dict_get cfg ''fullmatch'' (JBool False))
                   then re_fullmatch re pattern actual ignore
                   else re_search re pattern actual ignore)
      in case found of
           Inl e \<Rightarrow> Inl e
         | Inr matched \<Rightarrow> Inr \<lparr>dg_score = (if matched then 1 else 0), dg_passed = matched,
                              dg_rationale = ''regex '' @ pattern\<rparr>)"

text \<open>
  \<open>cfg.get("pattern") or task.expected_output\<close>, with None when that is falsy. A configured pattern
  may be any JSON value; \<open>re\<close> raises TypeError on one that is not a string.
\<close>

definition regex_pattern :: "dict \<Rightarrow> string option \<Rightarrow> json option" where
  "regex_pattern cfg expected =
     (let p = dict_get cfg ''pattern'' JNull in
      if truthy p then Some p
      else case expected of None \<Rightarrow> None | Some s \<Rightarrow> if s = [] then None else Some (JStr s))"

definition run_deterministic ::
  "regex_engine \<Rightarrow> task \<Rightarrow> string \<Rightarrow> exn + deterministic_grade option" where
  "run_deterministic re task actual =
     (let cfg = or_empty (tk_grader_config task) in
      case tk_grader_type task of
        GT_exact_match \<Rightarrow>
          (case tk_expected_output task of
             None \<Rightarrow> Inr None
           | Some expected \<Rightarrow> Inr (Some (grade_exact_match actual expected (Some cfg))))
      | GT_regex \<Rightarrow>
          (case regex_pattern cfg (tk_expected_output task) of
             None \<Rightarrow> Inr None
           | Some (JStr pattern) \<Rightarrow>
               (case grade_regex re actual pattern (Some cfg) of
                  Inl e \<Rightarrow> Inl e | Inr g \<Rightarrow> Inr (Some g))
           | Some _ \<Rightarrow> Inl (TypeError ''first argument must be string or compiled pattern''))
      | GT_llm_judge \<Rightarrow> Inr None)"

subsection \<open>The contract of a deterministic grader\<close>

locale binary_grader =
  fixes yields :: "'i \<Rightarrow> deterministic_grade \<Rightarrow> bool"
  assumes score_of_passed: "yields i g \<Longrightarrow> dg_score g = (if dg_passed g then 1 else 0)"
begin

lemma score_unit: "yields i g \<Longrightarrow> 0 \<le> dg_score g \<and> dg_score g \<le> 1"
  by (simp add: score_of_passed)

lemma score_binary: "yields i g \<Longrightarrow> dg_score g = 0 \<or> dg_score g = 1"
  by (simp add: score_of_passed)

lemma passed_threshold: "yields i g \<Longrightarrow> dg_passed g \<longleftrightarrow> 1 / 2 \<le> dg_score g"
  by (simp add: score_of_passed)

end

lemma exact_match_score:
  "dg_score (grade_exact_match a e c) = (if dg_passed (grade_exact_match a e c) then 1 else 0)"
  by (simp add: grade_exact_match_def Let_def split: prod.split)

lemma regex_score:
  "grade_regex re a p c = Inr g \<Longrightarrow> dg_score g = (if dg_passed g then 1 else 0)"
  by (auto simp: grade_regex_def Let_def split: sum.splits if_splits)

lemma run_deterministic_score:
  "run_deterministic re t a = Inr (Some g) \<Longrightarrow> dg_score g = (if dg_passed g then 1 else 0)"
  by (auto simp: run_deterministic_def Let_def exact_match_score
      split: grader_type.splits option.splits json.splits sum.splits dest: regex_score)

interpretation exact: binary_grader "\<lambda>(a, e, c) g. grade_exact_match a e c = g"
  by unfold_locales (auto simp: exact_match_score)

interpretation regex: binary_grader "\<lambda>(re, a, p, c) g. grade_regex re a p c = Inr g"
  by unfold_locales (auto simp: regex_score)

interpretation det: binary_grader "\<lambda>(re, t, a) g. run_deterministic re t a = Inr (Some g)"
  by unfold_locales (auto simp: run_deterministic_score)

subsection \<open>Exact match against its specification\<close>

lemma normalize_eq_iff:
  "normalize_whitespace a = normalize_whitespace b \<longleftrightarrow> split_ws a = split_ws b"
  by (metis normalize_whitespace_def split_ws_join words_split_ws)

lemma split_ws_normalize: "split_ws (normalize_whitespace a) = split_ws a"
  by (simp add: normalize_whitespace_def split_ws_join words_split_ws)

lemma lower_normalize: "lower (normalize_whitespace a) = normalize_whitespace (lower a)"
proof -
  have blank: "lower_char CHR '' '' = CHR '' ''" by (simp add: lower_char_def)
  have j: "lower (join '' '' ws) = join '' '' (map lower ws)" for ws
    by (induction ws rule: induct_list012) (simp_all add: lower_def blank)
  show ?thesis by (simp add: normalize_whitespace_def split_ws_lower j)
qed

text \<open>
  C30. What exact match decides, for each configuration: by default the sequences of
  whitespace-separated words are equal up to case; without whitespace normalization the lowered
  texts, with \<open>case_sensitive\<close> the words or the texts themselves. The score is 1.0 on a match and
  0.0 otherwise.
\<close>

theorem exact_match_spec:
  "let cfg = or_empty config; g = grade_exact_match actual expected config;
       words = truthy (dict_get cfg ''normalize_whitespace'' (JBool True));
       cased = truthy (dict_get cfg ''case_sensitive'' (JBool False))
   in dg_score g = (if dg_passed g then 1 else 0) \<and>
      dg_passed g =
        (if words then if cased then split_ws actual = split_ws expected
                       else map lower (split_ws actual) = map lower (split_ws expected)
         else if cased then actual = expected else lower actual = lower expected)"
proof -
  have *: "lower (normalize_whitespace actual) = lower (normalize_whitespace expected) \<longleftrightarrow>
      map lower (split_ws actual) = map lower (split_ws expected)"
    by (simp add: lower_normalize normalize_eq_iff split_ws_lower)
  show ?thesis
    by (simp add: exact_match_score Let_def)
       (simp add: grade_exact_match_def Let_def * normalize_eq_iff)
qed

text \<open>
  By default exact match ignores whitespace around the answer and the case of its letters: any
  padding and any case change of either side leaves the grade as it was.
\<close>

theorem exact_match_padding:
  assumes "list_all is_space pad" and "list_all is_space pad'"
    and "or_empty config = []" and "lower actual' = lower actual"
  shows "grade_exact_match (pad @ actual' @ pad') expected config =
         grade_exact_match actual expected config"
proof -
  have "split_ws (pad @ actual' @ pad') = split_ws actual'"
    using assms(1,2) by (simp add: split_ws_lead split_ws_trail)
  then have "lower (normalize_whitespace (pad @ actual' @ pad')) = lower (normalize_whitespace actual)"
    using assms(4) by (simp add: lower_normalize normalize_eq_iff split_ws_lower)
      (metis split_ws_lower)
  then show ?thesis using assms(3) by (simp add: grade_exact_match_def Let_def)
qed

theorem exact_match_padding_witness:
  "grade_exact_match (''  '' @ ''PARIS'' @ '' '') ''paris'' None =
   grade_exact_match ''Paris'' ''paris'' None"
  by (rule exact_match_padding) code_simp+

end
