(* ===== verification/ProviderBase.thy ===== *)
theory ProviderBase
  imports Transactions
begin

text \<open>
  \<open>app/providers/base.py\<close>: the completion result and the interface of a provider. A provider is
  asked with the base URL of \<open>with_base_url\<close> (None for the provider as configured), the prompt, the
  model id and the running number of the call, so that it may answer every call differently; an
  exception is the \<open>Inl\<close> side. \<open>call_provider\<close> counts the call in the system state.
\<close>

record completion_result =
  cr_text :: string
  cr_prompt_tokens :: int
  cr_completion_tokens :: int
  cr_latency_ms :: int

type_synonym provider = "string option \<Rightarrow> string \<Rightarrow> string \<Rightarrow> nat \<Rightarrow> exn + completion_result"

definition with_base_url :: "provider \<Rightarrow> string \<Rightarrow> provider" where
  "with_base_url p base_url = (\<lambda>_. p (Some base_url))"

definition call_provider ::
  "provider \<Rightarrow> string \<Rightarrow> string \<Rightarrow> sys \<Rightarrow> (exn + completion_result) \<times> sys" where
  "call_provider p prompt model_id s =
     (p None prompt model_id (provider_calls s), s\<lparr>provider_calls := provider_calls s + 1\<rparr>)"

lemma snd_call_provider [simp]:
  "snd (call_provider p prompt model_id s) = s\<lparr>provider_calls := provider_calls s + 1\<rparr>"
  by (simp add: call_provider_def)

end
