(* ===== verification/Judge.thy ===== *)
theory Judge
  imports ProviderBase
begin

text \<open>
  \<open>app/graders/llm_judge.py\<close>: the rubric, the verdict and its validation, the judge prompt, the
  extraction of a JSON object from the answer, and the judge loop with its one retry.

  Arguments of the model, collected in \<open>judge_env\<close>: \<open>json.loads\<close> on a text, how pydantic reads a
  JSON value as a float or a string field (None where it refuses; a float that is not finite is
  refused here already, as the range constraints refuse it), the text of a pydantic error and of a
  key mismatch, and the printing of floats in the prompt.
\<close>

record judge_env =
  loads :: "string \<Rightarrow> exn + json"
  pyd_float :: "json \<Rightarrow> rat option"
  pyd_str :: "json \<Rightarrow> string option"
  pyd_error :: "json \<Rightarrow> string"
  keys_error :: "string list \<Rightarrow> string list \<Rightarrow> string"
  float_repr :: "rat \<Rightarrow> string"
  float_2f_sum :: "rat list \<Rightarrow> string"

record rubric_criterion =
  rc_name :: string
  rc_description :: string
  rc_weight :: rat

record judge_verdict =
  jv_rubric_scores :: "(string \<times> rat) list"
  jv_overall :: rat
  jv_rationale :: string

subsection \<open>Validation\<close>

text \<open>\<open>RubricCriterion.model_validate\<close>: name of length at least 1, weight above 0.\<close>

definition validate_criterion :: "judge_env \<Rightarrow> json \<Rightarrow> exn + rubric_criterion" where
  "validate_criterion env item =
     (let bad = Inl (ValidationError (pyd_error env item)) in
      case item of
        JObj d \<Rightarrow>
          (case (Option.bind (map_of d ''name'') (pyd_str env),
                 (case map_of d ''description'' of None \<Rightarrow> Some [] | Some v \<Rightarrow> pyd_str env v),
                 Option.bind (map_of d ''weight'') (pyd_float env)) of
             (Some name, Some description, Some weight) \<Rightarrow>
               if name \<noteq> [] \<and> 0 < weight
               then Inr \<lparr>rc_name = name, rc_description = description, rc_weight = weight\<rparr>
               else bad
           | _ \<Rightarrow> bad)
      | _ \<Rightarrow> bad)"

fun read_scores :: "judge_env \<Rightarrow> dict \<Rightarrow> (string \<times> rat) list option" where
  "read_scores env [] = Some []"
| "read_scores env ((k, v) # d) =
     (case (pyd_float env v, read_scores env d) of
        (Some x, Some rest) \<Rightarrow> Some ((k, x) # rest)
      | _ \<Rightarrow> None)"

text \<open>\<open>JudgeVerdict.model_validate\<close>, the field constraints and the \<open>model_validator\<close>.\<close>

definition validate_verdict :: "judge_env \<Rightarrow> json \<Rightarrow> exn + judge_verdict" where
  "validate_verdict env data =
     (let bad = Inl (ValidationError (pyd_error env data)) in
      case data of
        JObj d \<Rightarrow>
          (case (Option.bind (map_of d ''rubric_scores'')
                   (\<lambda>v. case v of JObj sc \<Rightarrow> read_scores env sc | _ \<Rightarrow> None),
                 Option.bind (map_of d ''overall'') (pyd_float env),
                 Option.bind (map_of d ''rationale'') (pyd_str env)) of
             (Some scores, Some overall, Some rationale) \<Rightarrow>
               if 0 \<le> overall \<and> overall \<le> 1 \<and> \<not> list_ex (\<lambda>kv. \<not> (0 \<le> snd kv \<and> snd kv \<le> 1)) scores
               then Inr \<lparr>jv_rubric_scores = scores, jv_overall = overall, jv_rationale = rationale\<rparr>
               else bad
           | _ \<Rightarrow> bad)
      | _ \<Rightarrow> bad)"

definition validate_rubric_keys ::
  "judge_env \<Rightarrow> judge_verdict \<Rightarrow> rubric_criterion list \<Rightarrow> exn option" where
  "validate_rubric_keys env verdict rubric =
     (let expected = map rc_name rubric; actual = map fst (jv_rubric_scores verdict) in
      if set actual \<noteq> set expected
      then Some (JudgeParseError (keys_error env
             (filter (\<lambda>k. k \<notin> set actual) expected) (filter (\<lambda>k. k \<notin> set expected) actual)))
      else None)"

subsection \<open>The prompt\<close>

definition nl :: string where
  "nl = [CHR 0x0A]"

definition build_judge_prompt ::
  "judge_env \<Rightarrow> string \<Rightarrow> string option \<Rightarrow> string \<Rightarrow> rubric_criterion list \<Rightarrow> string" where
  "build_judge_prompt env prompt expected_output output rubric =
     (let total = float_2f_sum env (map rc_weight rubric);
          criteria = join nl (map (\<lambda>c. ''- '' @ rc_name c @ '' (weight '' @ float_repr env (rc_weight c) @
                       ''/'' @ total @ ''): '' @ rc_description c) rubric);
          expected_line = (case expected_output of
              None \<Rightarrow> [] | Some e \<Rightarrow> if e = [] then [] else ''Expected output: '' @ e @ nl);
          names = join '', '' (map rc_name rubric)
      in ''You are a strict eval judge. Score the model answer against each rubric criterion.'' @
         nl @ nl @ ''Task prompt:'' @ nl @ prompt @ nl @ nl @ expected_line @ ''Model output:'' @ nl @
         output @ nl @ nl @ ''Rubric:'' @ nl @ criteria @ nl @ nl @
         ''Return ONLY a JSON object with this exact shape:'' @ nl @
         ''{\"rubric_scores\": {\"<criterion>\": <0.0-1.0 score>},'' @ nl @
         '' \"overall\": <weighted mean of rubric_scores>,'' @ nl @
         '' \"rationale\": \"<one sentence>\"}'' @ nl @ nl @ ''Criterion names: '' @ names)"

text \<open>The prompt of the second attempt, after the parse failure \<open>exc\<close>.\<close>

definition retry_prompt :: "string \<Rightarrow> exn \<Rightarrow> string" where
  "retry_prompt judge_prompt exc =
     judge_prompt @ nl @ nl @ ''Your previous response was not parseable as the '' @
     ''required JSON ('' @ exn_text exc @ ''). Respond with ONLY the JSON object.''"

subsection \<open>Extracting the JSON object\<close>

text \<open>Position of the first occurrence of a non-empty pattern.\<close>

fun find_sub :: "string \<Rightarrow> string \<Rightarrow> nat option" where
  "find_sub pat [] = (if pat = [] then Some 0 else None)"
| "find_sub pat (c # cs) =
     (if starts_with pat (c # cs) then Some 0 else map_option Suc (find_sub pat cs))"

definition backticks :: string where
  "backticks = replicate 3 (CHR 0x60)"

text \<open>
  Group 1 of the search for three backticks, an optional \<open>json\<close>, whitespace, the shortest text, and
  three backticks again. The text between the opening fence and the group holds no backtick, so the
  greedy choices of the engine never have to be undone.
\<close>

definition fence_group :: "string \<Rightarrow> string option" where
  "fence_group s =
     (case find_sub backticks s of
        None \<Rightarrow> None
      | Some i \<Rightarrow>
          (let r = drop (i + 3) s;
               r1 = (if starts_with ''json'' r then drop 4 r else r);
               r2 = dropWhile is_space r1
           in map_option (\<lambda>j. take j r2) (find_sub backticks r2)))"

text \<open>From the first opening brace to the last closing brace.\<close>

definition brace_span :: "string \<Rightarrow> string option" where
  "brace_span s =
     (case dropWhile (\<lambda>c. c \<noteq> CHR 0x7B) s of
        [] \<Rightarrow> None
      | _ # rest \<Rightarrow>
          (case rev (dropWhile (\<lambda>c. c \<noteq> CHR 0x7D) (rev rest)) of
             [] \<Rightarrow> None
           | body \<Rightarrow> Some (CHR 0x7B # body)))"

definition extract_json :: "judge_env \<Rightarrow> string \<Rightarrow> exn + json" where
  "extract_json env text =
     (let stripped = (case fence_group (strip text) of None \<Rightarrow> strip text | Some g \<Rightarrow> strip g) in
      case loads env stripped of
        Inr v \<Rightarrow> Inr v
      | Inl (JSONDecodeError _) \<Rightarrow>
          (case brace_span stripped of
             Some m \<Rightarrow>
               (case loads env m of
                  Inr v \<Rightarrow> Inr v
                | Inl (JSONDecodeError e) \<Rightarrow>
                    Inl (JudgeParseError (''no parseable JSON object found: '' @ e))
                | Inl e \<Rightarrow> Inl e)
           | None \<Rightarrow> Inl (JudgeParseError ''no JSON object found in judge response''))
      | Inl e \<Rightarrow> Inl e)"

subsection \<open>The judge loop\<close>

text \<open>The body of the \<open>try\<close>: extract, validate, check the keys.\<close>

definition read_verdict ::
  "judge_env \<Rightarrow> rubric_criterion list \<Rightarrow> string \<Rightarrow> exn + judge_verdict" where
  "read_verdict env rubric text =
     (case extract_json env text of
        Inl e \<Rightarrow> Inl e
      | Inr data \<Rightarrow>
          (case validate_verdict env data of
             Inl e \<Rightarrow> Inl e
           | Inr verdict \<Rightarrow>
               (case validate_rubric_keys env verdict rubric of
                  Some e \<Rightarrow> Inl e
                | None \<Rightarrow> Inr verdict)))"

fun parse_failure :: "exn \<Rightarrow> bool" where
  "parse_failure (JudgeParseError _) = True"
| "parse_failure (ValidationError _) = True"
| "parse_failure _ = False"

fun judge_loop :: "judge_env \<Rightarrow> provider \<Rightarrow> rubric_criterion list \<Rightarrow> string \<Rightarrow> nat \<Rightarrow> string \<Rightarrow>
    string \<Rightarrow> sys \<Rightarrow> (exn + judge_verdict) \<times> sys" where
  "judge_loop env p rubric model_id 0 judge_prompt last_error s =
     (Inl (JudgeParseError (''judge verdict unparseable after 2 attempts: '' @ last_error)), s)"
| "judge_loop env p rubric model_id (Suc left) judge_prompt last_error s =
     (let (r, s1) = call_provider p judge_prompt model_id s in
      case r of
        Inl e \<Rightarrow> (Inl e, s1)
      | Inr result \<Rightarrow>
          (case read_verdict env rubric (cr_text result) of
             Inr verdict \<Rightarrow> (Inr verdict, s1)
           | Inl exc \<Rightarrow>
               if parse_failure exc
               then judge_loop env p rubric model_id left (retry_prompt judge_prompt exc)
                      (exn_text exc) s1
               else (Inl exc, s1)))"

definition judge_grade :: "judge_env \<Rightarrow> provider \<Rightarrow> string \<Rightarrow> string option \<Rightarrow> string \<Rightarrow>
    rubric_criterion list \<Rightarrow> string \<Rightarrow> sys \<Rightarrow> (exn + judge_verdict) \<times> sys" where
  "judge_grade env p prompt expected_output output rubric model_id s =
     judge_loop env p rubric model_id 2
       (build_judge_prompt env prompt expected_output output rubric) ''None'' s"

subsection \<open>What a verdict guarantees\<close>

definition verdict_ok :: "judge_verdict \<Rightarrow> bool" where
  "verdict_ok v \<longleftrightarrow> 0 \<le> jv_overall v \<and> jv_overall v \<le> 1 \<and>
     list_all (\<lambda>kv. 0 \<le> snd kv \<and> snd kv \<le> 1) (jv_rubric_scores v)"

lemma validate_verdict_ok: "validate_verdict env data = Inr v \<Longrightarrow> verdict_ok v"
  by (auto simp: validate_verdict_def verdict_ok_def Let_def list_all_iff list_ex_iff
      split: json.splits option.splits if_splits)

lemma validate_rubric_keys_None:
  "validate_rubric_keys env v rubric = None \<longleftrightarrow>
     fst ` set (jv_rubric_scores v) = rc_name ` set rubric"
  by (auto simp: validate_rubric_keys_def Let_def)

lemma read_verdict_ok:
  "read_verdict env rubric text = Inr v \<Longrightarrow>
     verdict_ok v \<and> fst ` set (jv_rubric_scores v) = rc_name ` set rubric"
  unfolding read_verdict_def
  by (simp add: validate_verdict_ok validate_rubric_keys_None split: sum.splits option.splits)

lemma judge_loop_ok:
  "fst (judge_loop env p rubric m n q le s) = Inr v \<Longrightarrow>
     verdict_ok v \<and> fst ` set (jv_rubric_scores v) = rc_name ` set rubric"
proof (induction n arbitrary: q le s)
  case 0
  then show ?case by simp
next
  case (Suc n)
  then show ?case
    by (simp add: Let_def read_verdict_ok split: prod.splits sum.splits if_splits)
qed

text \<open>A judge loop only counts its calls, at most one per attempt and at least one.\<close>

lemma judge_loop_calls:
  "\<exists>k \<le> n. snd (judge_loop env p rubric m n q le s) = s\<lparr>provider_calls := provider_calls s + k\<rparr>"
proof (induction n arbitrary: q le s)
  case 0
  then show ?case by simp
next
  case (Suc n)
  let ?s1 = "s\<lparr>provider_calls := provider_calls s + 1\<rparr>"
  have rec: "\<exists>k \<le> Suc n. snd (judge_loop env p rubric m n q' le' ?s1) =
      s\<lparr>provider_calls := provider_calls s + k\<rparr>" for q' le'
  proof -
    obtain k where "k \<le> n" "snd (judge_loop env p rubric m n q' le' ?s1) =
        ?s1\<lparr>provider_calls := provider_calls ?s1 + k\<rparr>"
      using Suc.IH by blast
    then show ?thesis by (intro exI [of _ "Suc k"]) simp
  qed
  have one: "\<exists>k \<le> Suc n. ?s1 = s\<lparr>provider_calls := provider_calls s + k\<rparr>"
    by (intro exI [of _ 1]) simp
  show ?case
    using rec one by (simp add: call_provider_def Let_def split: sum.split)
qed

text \<open>The exceptions a judge loop lets through are those of the provider or of \<open>json.loads\<close>.\<close>

lemma judge_grade_frame:
  "\<exists>k \<le> 2. snd (judge_grade env p q e out rubric m s) = s\<lparr>provider_calls := provider_calls s + k\<rparr>"
  unfolding judge_grade_def by (rule judge_loop_calls)

end
