(* ===== verification/Pipeline.thy ===== *)
theory Pipeline
  imports Deterministic Judge
begin

text \<open>
  \<open>app/graders/pipeline.py\<close> and the grading settings of \<open>app/config.py\<close>: grading a succeeded run
  item in one transaction. Both graders run when both are configured; a judge answer that cannot
  be parsed records a failed grade; a disagreement or a judge score in the low-confidence band
  opens a review item unless the run item has one. An exception other than \<open>JudgeParseError\<close>
  leaves the block before the commit, so nothing is written.

  Settings floats stand for the decimals their \<open>repr\<close> prints; \<open>Decimal(str(x))\<close> is then \<open>x\<close>, and
  comparing \<open>float(judge_score)\<close> with them is comparing the decimals, because both have at most a
  few digits and nearest doubles of distinct short decimals are distinct and ordered.
\<close>

record settings =
  judge_model_id :: string
  disagreement_threshold :: rat
  low_confidence_min :: rat
  low_confidence_max :: rat

definition default_settings :: settings where
  "default_settings = \<lparr>judge_model_id = ''gpt-4o-mini'', disagreement_threshold = 1 / 2,
     low_confidence_min = 2 / 5, low_confidence_max = 3 / 5\<rparr>"

record grading_env =
  ge_regex :: regex_engine
  ge_judge :: judge_env
  ge_settings :: settings

definition pass_threshold :: rat where
  "pass_threshold = 1 / 2"

fun validate_rubric :: "judge_env \<Rightarrow> json list \<Rightarrow> exn + rubric_criterion list" where
  "validate_rubric env [] = Inr []"
| "validate_rubric env (x # xs) =
     (case validate_criterion env x of
        Inl e \<Rightarrow> Inl e
      | Inr c \<Rightarrow> (case validate_rubric env xs of Inl e \<Rightarrow> Inl e | Inr cs \<Rightarrow> Inr (c # cs)))"

definition rubric_from_config ::
  "judge_env \<Rightarrow> dict option \<Rightarrow> exn + rubric_criterion list option" where
  "rubric_from_config env grader_config =
     (case dict_get (or_empty grader_config) ''rubric'' JNull of
        JArr (x # xs) \<Rightarrow>
          (case validate_rubric env (x # xs) of Inl e \<Rightarrow> Inl e | Inr cs \<Rightarrow> Inr (Some cs))
      | _ \<Rightarrow> Inr None)"

text \<open>The reason of the review item \<open>_review_item_for_disagreement\<close> returns, None for no item.\<close>

definition review_reason_for :: "settings \<Rightarrow> rat \<Rightarrow> rat \<Rightarrow> review_reason option" where
  "review_reason_for st det_score judge_score =
     (if disagreement_threshold st < \<bar>det_score - judge_score\<bar> then Some RR_judge_disagreement
      else if low_confidence_min st \<le> judge_score \<and> judge_score \<le> low_confidence_max st
      then Some RR_low_confidence
      else None)"

definition new_grade :: "uuid \<Rightarrow> timestamp \<Rightarrow> uuid \<Rightarrow> grader_kind \<Rightarrow> rat option \<Rightarrow> bool option \<Rightarrow>
    (string \<times> rat) list option \<Rightarrow> string \<Rightarrow> grade" where
  "new_grade i now rid kind score passed rubric_scores rationale =
     \<lparr>gr_id = i, gr_run_item_id = rid, gr_grader = kind, gr_score = score, gr_passed = passed,
      gr_rubric_scores = rubric_scores, gr_rationale = Some rationale, gr_created_at = now\<rparr>"

definition new_review_item :: "uuid \<Rightarrow> timestamp \<Rightarrow> uuid \<Rightarrow> review_reason \<Rightarrow> review_item" where
  "new_review_item i now rid reason =
     \<lparr>rv_id = i, rv_run_item_id = rid, rv_reason = reason, rv_status = RS_open,
      rv_reviewer_label = None, rv_reviewer_notes = None, rv_claimed_at = None,
      rv_resolved_at = None, rv_created_at = now\<rparr>"

text \<open>
  The judge half of the pipeline: None when the task has no rubric, otherwise the judge score, if
  any, and the columns of its grade.
\<close>

record judge_outcome =
  jo_score :: "rat option"
  jo_passed :: "bool option"
  jo_rubric_scores :: "(string \<times> rat) list option"
  jo_rationale :: string

definition run_judge :: "grading_env \<Rightarrow> provider \<Rightarrow> task \<Rightarrow> string \<Rightarrow> sys \<Rightarrow>
    (exn + judge_outcome option) \<times> sys" where
  "run_judge env p task output_text s =
     (case rubric_from_config (ge_judge env) (tk_grader_config task) of
        Inl e \<Rightarrow> (Inl e, s)
      | Inr None \<Rightarrow> (Inr None, s)
      | Inr (Some rubric) \<Rightarrow>
          (let (r, s1) = judge_grade (ge_judge env) p (tk_prompt task) (tk_expected_output task)
                           output_text rubric (judge_model_id (ge_settings env)) s
           in case r of
                Inr verdict \<Rightarrow>
                  (let score = quantize 3 (jv_overall verdict) in
                   (Inr (Some \<lparr>jo_score = Some score, jo_passed = Some (pass_threshold \<le> score),
                        jo_rubric_scores = Some (jv_rubric_scores verdict),
                        jo_rationale = jv_rationale verdict\<rparr>), s1))
              | Inl (JudgeParseError m) \<Rightarrow>
                  (Inr (Some \<lparr>jo_score = None, jo_passed = None, jo_rubric_scores = None,
                        jo_rationale = ''judge parse failure: '' @ m\<rparr>), s1)
              | Inl e \<Rightarrow> (Inl e, s1)))"

text \<open>The rows a graded item gets: the deterministic grade first, then the judge's.\<close>

definition grade_rows :: "uuid \<Rightarrow> timestamp \<Rightarrow> uuid \<Rightarrow> deterministic_grade option \<Rightarrow>
    judge_outcome option \<Rightarrow> grade list" where
  "grade_rows i now rid det judge =
     (case det of None \<Rightarrow> [] | Some g \<Rightarrow>
        [new_grade i now rid GK_deterministic (Some (dg_score g)) (Some (dg_passed g)) None
           (dg_rationale g)]) @
     (case judge of None \<Rightarrow> [] | Some j \<Rightarrow>
        [new_grade (i + 1) now rid GK_llm_judge (jo_score j) (jo_passed j) (jo_rubric_scores j)
           (jo_rationale j)])"

definition judge_score_of :: "judge_outcome option \<Rightarrow> rat option" where
  "judge_score_of j = Option.bind j jo_score"

definition review_wanted :: "settings \<Rightarrow> deterministic_grade option \<Rightarrow> judge_outcome option \<Rightarrow>
    review_reason option" where
  "review_wanted st det judge =
     (case (det, judge_score_of judge) of
        (Some g, Some js) \<Rightarrow> review_reason_for st (dg_score g) js
      | _ \<Rightarrow> None)"

definition insert_review :: "timestamp \<Rightarrow> uuid \<Rightarrow> review_reason option \<Rightarrow> bool \<Rightarrow> sys \<Rightarrow> sys" where
  "insert_review now rid wanted already s =
     (case wanted of
        None \<Rightarrow> s
      | Some reason \<Rightarrow>
          if already then s
          else s\<lparr>review_items_total := (review_items_total s)(reason := review_items_total s reason + 1),
                 review_items := review_items s @ [new_review_item (uuid_next s + 2) now rid reason]\<rparr>)"

definition review_exists :: "uuid \<Rightarrow> 'a db_scheme \<Rightarrow> bool" where
  "review_exists rid d = exists_row (\<lambda>v. rv_run_item_id v = rid) (review_items d)"

definition existing_grades :: "uuid \<Rightarrow> 'a db_scheme \<Rightarrow> grade list" where
  "existing_grades rid d = sort_key gr_created_at (filter (\<lambda>g. gr_run_item_id g = rid) (grades d))"

text \<open>
  \<open>grade_run_item\<close> touches the database three times: it reads the grades of the item before the
  graders run, looks for a review item after them, and commits its rows. \<open>func.now()\<close> is the start
  of the transaction, that is the moment of the first read.
\<close>

datatype grading_start =
    G_existing "grade list"
  | G_raised exn
  | G_new "deterministic_grade option"

definition grading_begin :: "grading_env \<Rightarrow> uuid \<Rightarrow> task \<Rightarrow> string \<Rightarrow> 'a db_scheme \<Rightarrow> grading_start" where
  "grading_begin env rid task output_text d =
     (if existing_grades rid d \<noteq> [] then G_existing (existing_grades rid d)
      else case run_deterministic (ge_regex env) task output_text of
        Inl e \<Rightarrow> G_raised e
      | Inr det \<Rightarrow> G_new det)"

definition grading_commit :: "grading_env \<Rightarrow> timestamp \<Rightarrow> uuid \<Rightarrow> deterministic_grade option \<Rightarrow>
    judge_outcome option \<Rightarrow> bool \<Rightarrow> sys \<Rightarrow> grade list \<times> sys" where
  "grading_commit env now rid det judge already s =
     (let rows = grade_rows (uuid_next s) now rid det judge;
          s1 = insert_review now rid (review_wanted (ge_settings env) det judge) already s
      in (rows, s1\<lparr>grades := grades s1 @ rows, uuid_next := uuid_next s1 + 3\<rparr>))"

definition grade_run_item :: "grading_env \<Rightarrow> provider \<Rightarrow> uuid \<Rightarrow> task \<Rightarrow> string \<Rightarrow> sys \<Rightarrow>
    (exn + grade list) \<times> sys" where
  "grade_run_item env p rid task output_text s =
     (case grading_begin env rid task output_text s of
        G_existing gs \<Rightarrow> (Inr gs, s)
      | G_raised e \<Rightarrow> (Inl e, s)
      | G_new det \<Rightarrow>
          (let (r, s1) = run_judge env p task output_text s in
           case r of
             Inl e \<Rightarrow> (Inl e, s1)
           | Inr judge \<Rightarrow>
               (let (rows, s2) = grading_commit env (db_now s) rid det judge (review_exists rid s1) s1
                in (Inr rows, s2))))"

text \<open>The review item of a pass nothing comes between.\<close>

definition add_review :: "uuid \<Rightarrow> review_reason option \<Rightarrow> sys \<Rightarrow> sys" where
  "add_review rid wanted s = insert_review (db_now s) rid wanted (review_exists rid s) s"

text \<open>\<open>authoritative_score\<close>: the reviewer label, else the mean of the available grade scores.\<close>

definition authoritative_score :: "review_item \<Rightarrow> grade list \<Rightarrow> rat option" where
  "authoritative_score review_item gs =
     (case rv_reviewer_label review_item of
        Some label \<Rightarrow> Some label
      | None \<Rightarrow> map_option (quantize 3)
                  (mean (map (\<lambda>g. the (gr_score g)) (filter (\<lambda>g. gr_score g \<noteq> None) gs))))"

subsection \<open>What grading leaves alone\<close>

text \<open>
  The contract the worker relies on: grading touches no run item, run, task, endpoint, queue or
  artifact.
\<close>

locale grading_step =
  fixes gstep :: "uuid \<Rightarrow> task \<Rightarrow> string \<Rightarrow> sys \<Rightarrow> (exn + grade list) \<times> sys"
  assumes keeps_run_items: "run_items (snd (gstep rid t out s)) = run_items s"
    and keeps_eval_runs: "eval_runs (snd (gstep rid t out s)) = eval_runs s"
    and keeps_tasks: "tasks (snd (gstep rid t out s)) = tasks s"
    and keeps_model_endpoints: "model_endpoints (snd (gstep rid t out s)) = model_endpoints s"
    and keeps_queue: "evals_queue (snd (gstep rid t out s)) = evals_queue s"
    and keeps_dlq: "dlq (snd (gstep rid t out s)) = dlq s"
    and keeps_redis: "redis (snd (gstep rid t out s)) = redis s"
    and keeps_sleeps: "sleeps (snd (gstep rid t out s)) = sleeps s"
    and keeps_clock: "db_now (snd (gstep rid t out s)) = db_now s"
    and ids_grow: "uuid_next s \<le> uuid_next (snd (gstep rid t out s))"

lemma run_judge_frame:
  "\<exists>k \<le> 2. snd (run_judge env p t out s) = s\<lparr>provider_calls := provider_calls s + k\<rparr>"
proof -
  have id: "\<exists>k \<le> 2. s = s\<lparr>provider_calls := provider_calls s + k\<rparr>"
    by (intro exI [of _ 0]) simp
  show ?thesis
  proof (cases "rubric_from_config (ge_judge env) (tk_grader_config t)")
    case (Inl e)
    with id show ?thesis by (simp add: run_judge_def)
  next
    case (Inr a)
    show ?thesis
    proof (cases a)
      case None
      with id Inr show ?thesis by (simp add: run_judge_def)
    next
      case (Some rubric)
      have "snd (run_judge env p t out s) = snd (judge_grade (ge_judge env) p (tk_prompt t)
          (tk_expected_output t) out rubric (judge_model_id (ge_settings env)) s)"
        by (simp add: run_judge_def Inr Some Let_def split: prod.split sum.split exn.split)
      with judge_grade_frame show ?thesis by metis
    qed
  qed
qed

lemma insert_review_frame:
  "run_items (insert_review now rid w a s) = run_items s" "eval_runs (insert_review now rid w a s) = eval_runs s"
  "tasks (insert_review now rid w a s) = tasks s" "model_endpoints (insert_review now rid w a s) = model_endpoints s"
  "grades (insert_review now rid w a s) = grades s" "evals_queue (insert_review now rid w a s) = evals_queue s"
  "dlq (insert_review now rid w a s) = dlq s" "redis (insert_review now rid w a s) = redis s"
  "db_now (insert_review now rid w a s) = db_now s" "uuid_next (insert_review now rid w a s) = uuid_next s"
  "provider_calls (insert_review now rid w a s) = provider_calls s"
  "eval_items_total (insert_review now rid w a s) = eval_items_total s"
  "dead_letters_total (insert_review now rid w a s) = dead_letters_total s" "sleeps (insert_review now rid w a s) = sleeps s"
  by (simp_all add: insert_review_def split: option.split)

lemma add_review_frame:
  "run_items (add_review rid w s) = run_items s" "eval_runs (add_review rid w s) = eval_runs s"
  "tasks (add_review rid w s) = tasks s" "model_endpoints (add_review rid w s) = model_endpoints s"
  "grades (add_review rid w s) = grades s" "evals_queue (add_review rid w s) = evals_queue s"
  "dlq (add_review rid w s) = dlq s" "redis (add_review rid w s) = redis s"
  "db_now (add_review rid w s) = db_now s" "uuid_next (add_review rid w s) = uuid_next s"
  "provider_calls (add_review rid w s) = provider_calls s"
  "eval_items_total (add_review rid w s) = eval_items_total s"
  "dead_letters_total (add_review rid w s) = dead_letters_total s" "sleeps (add_review rid w s) = sleeps s"
  by (simp_all add: add_review_def insert_review_frame)

lemma add_review_eq:
  "add_review rid wanted s =
     (case wanted of
        None \<Rightarrow> s
      | Some reason \<Rightarrow>
          if exists_row (\<lambda>v. rv_run_item_id v = rid) (review_items s) then s
          else s\<lparr>review_items_total := (review_items_total s)(reason := review_items_total s reason + 1),
                 review_items := review_items s @ [new_review_item (uuid_next s + 2) (db_now s) rid reason]\<rparr>)"
  by (simp add: add_review_def insert_review_def review_exists_def)

lemma run_judge_clock: "run_judge env p t out s = (r, s1) \<Longrightarrow> db_now s1 = db_now s"
  using run_judge_frame [of env p t out s] by auto

lemma grade_run_item_eq:
  "grade_run_item env p rid task output_text s =
     (if existing_grades rid s \<noteq> [] then (Inr (existing_grades rid s), s)
      else case run_deterministic (ge_regex env) task output_text of
        Inl e \<Rightarrow> (Inl e, s)
      | Inr det \<Rightarrow>
          (let (r, s1) = run_judge env p task output_text s in
           case r of
             Inl e \<Rightarrow> (Inl e, s1)
           | Inr judge \<Rightarrow>
               (let rows = grade_rows (uuid_next s1) (db_now s1) rid det judge;
                    s2 = add_review rid (review_wanted (ge_settings env) det judge) s1
                in (Inr rows, s2\<lparr>grades := grades s2 @ rows, uuid_next := uuid_next s2 + 3\<rparr>))))"
  by (auto simp: grade_run_item_def grading_begin_def grading_commit_def add_review_def Let_def
      run_judge_clock split: sum.split prod.split)

text \<open>
  The three outcomes of grading: grades existed, an exception (only provider calls happened), or a
  commit of the new rows and the review item.
\<close>

lemma grade_run_item_cases:
  obtains (existing) "existing_grades rid s \<noteq> []"
      "grade_run_item env p rid t out s = (Inr (existing_grades rid s), s)"
  | (raised) e k where "k \<le> 2" "existing_grades rid s = []"
      "grade_run_item env p rid t out s = (Inl e, s\<lparr>provider_calls := provider_calls s + k\<rparr>)"
  | (graded) det judge k rows s1 where "k \<le> 2" "existing_grades rid s = []"
      "run_deterministic (ge_regex env) t out = Inr det"
      "s1 = s\<lparr>provider_calls := provider_calls s + k\<rparr>"
      "run_judge env p t out s = (Inr judge, s1)"
      "rows = grade_rows (uuid_next s) (db_now s) rid det judge"
      "grade_run_item env p rid t out s =
         (Inr rows, (add_review rid (review_wanted (ge_settings env) det judge) s1)
            \<lparr>grades := grades s @ rows, uuid_next := uuid_next s + 3\<rparr>)"
proof -
  obtain r s1 where rj: "run_judge env p t out s = (r, s1)" by fastforce
  obtain k where k: "k \<le> 2" "s1 = s\<lparr>provider_calls := provider_calls s + k\<rparr>"
    using run_judge_frame [of env p t out s] rj by auto
  have zero: "s = s\<lparr>provider_calls := provider_calls s + 0\<rparr>" by simp
  show thesis
  proof (cases "existing_grades rid s = []")
    case False
    with existing show thesis by (simp add: grade_run_item_eq)
  next
    case True
    show thesis
    proof (cases "run_deterministic (ge_regex env) t out")
      case (Inl e)
      then show thesis using True raised [of 0 e] by (simp add: grade_run_item_eq)
    next
      case (Inr det)
      show thesis
      proof (cases r)
        case (Inl e)
        then show thesis using Inr True raised [OF k(1) True, of e]
          by (simp add: grade_run_item_eq rj k(2))
      next
        fix judge assume "r = Inr judge"
        then show thesis
          by (intro graded [OF k(1) True Inr k(2), of judge]; use rj True Inr in
              \<open>simp add: grade_run_item_eq Let_def k(2) add_review_frame\<close>)
      qed
    qed
  qed
qed

lemma grade_run_item_frame:
  "run_items (snd (grade_run_item env p rid t out s)) = run_items s"
  "eval_runs (snd (grade_run_item env p rid t out s)) = eval_runs s"
  "tasks (snd (grade_run_item env p rid t out s)) = tasks s"
  "model_endpoints (snd (grade_run_item env p rid t out s)) = model_endpoints s"
  "evals_queue (snd (grade_run_item env p rid t out s)) = evals_queue s"
  "dlq (snd (grade_run_item env p rid t out s)) = dlq s"
  "redis (snd (grade_run_item env p rid t out s)) = redis s"
  "sleeps (snd (grade_run_item env p rid t out s)) = sleeps s"
  "db_now (snd (grade_run_item env p rid t out s)) = db_now s"
  "uuid_next s \<le> uuid_next (snd (grade_run_item env p rid t out s))"
  by (cases rule: grade_run_item_cases [of rid s env p t out]; simp add: add_review_frame)+

interpretation pipeline: grading_step "grade_run_item env p"
  by unfold_locales (rule grade_run_item_frame)+

end
