(* ===== verification/Fixture.thy ===== *)
theory Fixture
  imports Pipeline
begin

text \<open>
  Concrete inputs for the witnesses: a grading environment whose regex engine tests equality and
  whose JSON reader knows one verdict, two providers, two tasks and a small database.
\<close>

definition fx_verdict :: json where
  "fx_verdict = JObj [(''rubric_scores'', JObj [(''clarity'', JFloat (9 / 20))]),
     (''overall'', JFloat (9 / 20)), (''rationale'', JStr ''hm'')]"

definition fx_judge :: judge_env where
  "fx_judge = \<lparr>
     loads = (\<lambda>s. if s = ''V'' then Inr fx_verdict else Inl (JSONDecodeError ''no'')),
     pyd_float = (\<lambda>v. case v of JFloat x \<Rightarrow> Some x | JInt i \<Rightarrow> Some (of_int i) | _ \<Rightarrow> None),
     pyd_str = (\<lambda>v. case v of JStr s \<Rightarrow> Some s | _ \<Rightarrow> None),
     pyd_error = (\<lambda>_. ''invalid''), keys_error = (\<lambda>_ _. ''keys mismatch''),
     float_repr = (\<lambda>_. ''1.0''), float_2f_sum = (\<lambda>_. ''1.00'')\<rparr>"

definition fx_regex :: regex_engine where
  "fx_regex = \<lparr>re_search = (\<lambda>p t _. Inr (p = t)), re_fullmatch = (\<lambda>p t _. Inr (p = t))\<rparr>"

definition fx_env :: grading_env where
  "fx_env = \<lparr>ge_regex = fx_regex, ge_judge = fx_judge, ge_settings = default_settings\<rparr>"

text \<open>A provider that always answers with one text, and one that is always rate limited.\<close>

definition fx_provider :: "string \<Rightarrow> provider" where
  "fx_provider txt = (\<lambda>_ _ _ _. Inr \<lparr>cr_text = txt, cr_prompt_tokens = 1000,
     cr_completion_tokens = 500, cr_latency_ms = 12\<rparr>)"

definition fx_limited :: provider where
  "fx_limited = (\<lambda>_ _ _ _. Inl (RetryableProviderError ''HTTP 429''))"

definition fx_refused :: provider where
  "fx_refused = (\<lambda>_ _ _ _. Inl (NonRetryableProviderError ''HTTP 401''))"

definition fx_task :: task where
  "fx_task = \<lparr>tk_id = 10, tk_task_set_id = 1, tk_prompt = ''Q'', tk_capability = ''geo'',
     tk_expected_output = Some ''V'', tk_grader_type = GT_exact_match, tk_grader_config = None,
     tk_created_at = 0\<rparr>"

definition fx_both_task :: task where
  "fx_both_task = fx_task\<lparr>tk_grader_config :=
     Some [(''rubric'', JArr [JObj [(''name'', JStr ''clarity''), (''weight'', JInt 1)]])]\<rparr>"

definition fx_endpoint :: model_endpoint where
  "fx_endpoint = \<lparr>me_id = 20, me_name = ''m'', me_provider = P_openai, me_model_id = ''gpt-4o'',
     me_model_version = ''v1'', me_base_url = None, me_created_at = 0\<rparr>"

definition fx_run :: eval_run where
  "fx_run = \<lparr>er_id = 30, er_task_set_id = 1, er_status = Run_running, er_started_at = Some 0,
     er_completed_at = None, er_total_cost_usd = 0, er_total_tokens = 0, er_error = None,
     er_created_at = 0\<rparr>"

definition fx_item :: "uuid \<Rightarrow> run_item" where
  "fx_item i = \<lparr>ri_id = i, ri_eval_run_id = 30, ri_task_id = 10, ri_model_endpoint_id = 20,
     ri_status = Item_queued, ri_attempt_count = 0, ri_latency_ms = None, ri_prompt_tokens = None,
     ri_completion_tokens = None, ri_cost_usd = None, ri_error = None, ri_artifact_key = None,
     ri_created_at = 0, ri_updated_at = 0\<rparr>"

definition fx_sys :: sys where
  "fx_sys = \<lparr>task_sets = [], tasks = [fx_task], model_endpoints = [fx_endpoint],
     eval_runs = [fx_run], run_items = [fx_item 40, fx_item 41], grades = [], review_items = [],
     api_keys = [], db_now = 7, uuid_next = 100, redis = Map.empty, evals_queue = [40, 41], dlq = [],
     eval_items_total = (\<lambda>_. 0), dead_letters_total = 0, review_items_total = (\<lambda>_. 0),
     provider_calls = 0, sleeps = []\<rparr>"

lemmas fx_defs = fx_verdict_def fx_judge_def fx_regex_def fx_env_def fx_provider_def fx_limited_def
  fx_refused_def fx_task_def fx_both_task_def fx_endpoint_def fx_run_def fx_item_def fx_sys_def
  default_settings_def

end
