(* ===== verification/Grading.thy ===== *)
theory Grading
  imports Fixture
begin

text \<open>
  What the grading pipeline guarantees: the invariants of the grade and review tables, the exact
  effect of a pass with both graders, the default review rule, idempotence, and the failed grade a
  judge leaves that cannot be parsed.
\<close>

subsection \<open>Invariants of the two tables\<close>

definition grades_unique :: "'a db_scheme \<Rightarrow> bool" where
  "grades_unique d \<longleftrightarrow> distinct (map (\<lambda>g. (gr_run_item_id g, gr_grader g)) (grades d))"

definition reviews_unique :: "'a db_scheme \<Rightarrow> bool" where
  "reviews_unique d \<longleftrightarrow> distinct (map rv_run_item_id (review_items d))"

text \<open>A grade has a score in [0, 1] and passed exactly from 0.5 on, or it failed and has neither.\<close>

definition grade_ok :: "grade \<Rightarrow> bool" where
  "grade_ok g \<longleftrightarrow>
     (case gr_score g of
        None \<Rightarrow> gr_passed g = None \<and> gr_grader g = GK_llm_judge
      | Some x \<Rightarrow> 0 \<le> x \<and> x \<le> 1 \<and> gr_passed g = Some (pass_threshold \<le> x))"

definition grading_inv :: "'a db_scheme \<Rightarrow> bool" where
  "grading_inv d \<longleftrightarrow> grades_unique d \<and> reviews_unique d \<and> list_all grade_ok (grades d)"

lemma run_judge_score:
  assumes "run_judge env p t out s = (Inr (Some j), s1)"
  shows "case jo_score j of None \<Rightarrow> jo_passed j = None
         | Some x \<Rightarrow> 0 \<le> x \<and> x \<le> 1 \<and> jo_passed j = Some (pass_threshold \<le> x)"
proof -
  from assms obtain rubric where
    r: "rubric_from_config (ge_judge env) (tk_grader_config t) = Inr (Some rubric)"
    by (auto simp: run_judge_def split: sum.splits option.splits)
  let ?jg = "judge_grade (ge_judge env) p (tk_prompt t) (tk_expected_output t) out rubric
               (judge_model_id (ge_settings env)) s"
  show ?thesis
  proof (cases "fst ?jg")
    case (Inl e)
    with assms r show ?thesis
      by (auto simp: run_judge_def Let_def split: prod.splits exn.splits)
  next
    case (Inr v)
    then have "verdict_ok v" unfolding judge_grade_def by (blast dest: judge_loop_ok)
    then have "0 \<le> quantize 3 (jv_overall v) \<and> quantize 3 (jv_overall v) \<le> 1"
      by (intro quantize_unit) (simp_all add: verdict_ok_def)
    with assms r Inr show ?thesis
      by (auto simp: run_judge_def Let_def split: prod.splits)
  qed
qed

lemma grade_rows_ok:
  assumes "run_deterministic re t out = Inr det" and "run_judge env p t out s = (Inr judge, s1)"
  shows "list_all grade_ok (grade_rows i now rid det judge)"
proof -
  have "grade_ok (new_grade i now rid GK_deterministic (Some (dg_score g)) (Some (dg_passed g)) r m)"
    if "det = Some g" for g r m
    using det.score_unit [of "(re, t, out)" g] det.passed_threshold [of "(re, t, out)" g] assms(1) that
    by (simp add: grade_ok_def new_grade_def pass_threshold_def)
  moreover have "grade_ok (new_grade i' now rid GK_llm_judge (jo_score j) (jo_passed j) r m)"
    if "judge = Some j" for i' j r m
    using run_judge_score [of env p t out s j s1] assms(2) that
    by (auto simp: grade_ok_def new_grade_def split: option.splits)
  ultimately show ?thesis by (simp add: grade_rows_def split: option.split)
qed

lemma grade_rows_run_item: "g \<in> set (grade_rows i now rid det judge) \<Longrightarrow> gr_run_item_id g = rid"
  by (auto simp: grade_rows_def new_grade_def split: option.splits)

lemma grade_rows_distinct:
  "distinct (map (\<lambda>g. (gr_run_item_id g, gr_grader g)) (grade_rows i now rid det judge))"
  by (simp add: grade_rows_def new_grade_def split: option.split)

lemma existing_grades_Nil: "existing_grades rid d = [] \<longleftrightarrow> rid \<notin> gr_run_item_id ` set (grades d)"
proof -
  have "existing_grades rid d = [] \<longleftrightarrow> filter (\<lambda>g. gr_run_item_id g = rid) (grades d) = []"
    unfolding existing_grades_def by (metis length_0_conv length_sort)
  then show ?thesis by (auto simp: filter_empty_conv)
qed

lemma add_review_unique: "reviews_unique s \<Longrightarrow> reviews_unique (add_review rid w s)"
  by (auto simp: reviews_unique_def add_review_eq exists_row_iff new_review_item_def
      split: option.split)

lemma grade_run_item_inv:
  assumes "grading_inv s"
  shows "grading_inv (snd (grade_run_item env p rid t out s))"
proof (cases rule: grade_run_item_cases [of rid s env p t out])
  case existing
  with assms show ?thesis by simp
next
  case raised
  with assms show ?thesis by (simp add: grading_inv_def grades_unique_def reviews_unique_def)
next
  case (graded det judge k rows s1)
  have old: "g \<in> set (grades s) \<Longrightarrow> gr_run_item_id g \<noteq> rid" for g
    using graded(2) by (auto simp: existing_grades_Nil)
  have "grades_unique (snd (grade_run_item env p rid t out s))"
    using assms grade_rows_distinct [of "uuid_next s" "db_now s" rid det judge]
    by (auto simp: graded(6,7) grading_inv_def grades_unique_def dest: old grade_rows_run_item)
  moreover have "reviews_unique (snd (grade_run_item env p rid t out s))"
    using add_review_unique [of s1 rid] assms
    by (simp add: graded(4,7) grading_inv_def reviews_unique_def)
  ultimately show ?thesis
    using assms grade_rows_ok [OF graded(3,5)] by (simp add: graded(6,7) grading_inv_def)
qed

text \<open>
  Grading keeps the tables in order: at most one grade per run item and grader, at most one
  review item per run item, and every grade either scored in [0, 1] with \<open>passed\<close> meaning "at least
  0.5" or failed with neither score nor verdict.
\<close>

theorem grading_keeps_inv:
  assumes "grading_inv s"
  shows "grading_inv (snd (grade_run_item env p rid t out s))"
  using assms by (rule grade_run_item_inv)

theorem grading_keeps_inv_witness:
  "grading_inv (snd (grade_run_item fx_env (fx_provider ''V'') 40 fx_both_task ''V'' fx_sys))"
  by (rule grading_keeps_inv)
     (simp add: grading_inv_def grades_unique_def reviews_unique_def fx_sys_def)

subsection \<open>The review rule\<close>

text \<open>
  The default settings, for a deterministic score of 0 or 1 and a judge score in [0, 1]: a
  review item is wanted exactly when the judge's score is not clearly on the deterministic side,
  that is at most 0.6 against a pass and at least 0.4 against a fail; the reason is
  \<open>judge_disagreement\<close> when the two are more than 0.5 apart.
\<close>

theorem default_review_rule:
  assumes "d = 0 \<or> d = 1" and "0 \<le> j" and "j \<le> 1"
  shows "(review_reason_for default_settings d j \<noteq> None) =
           (if d = 1 then j \<le> 3 / 5 else 2 / 5 \<le> j) \<and>
         (review_reason_for default_settings d j = Some RR_judge_disagreement) =
           (if d = 1 then j < 1 / 2 else 1 / 2 < j)"
  using assms by (auto simp: review_reason_for_def default_settings_def)

theorem default_review_rule_witness:
  "(review_reason_for default_settings 1 (11 / 20) \<noteq> None) =
     (if (1::rat) = 1 then (11 / 20 :: rat) \<le> 3 / 5 else 2 / 5 \<le> (11 / 20 :: rat)) \<and>
   (review_reason_for default_settings 1 (11 / 20) = Some RR_judge_disagreement) =
     (if (1::rat) = 1 then (11 / 20 :: rat) < 1 / 2 else 1 / 2 < (11 / 20 :: rat))"
  by (rule default_review_rule) simp_all

subsection \<open>A pass with both graders, and a second pass\<close>

text \<open>
  C27. A first pass over an item whose task has both graders and whose judge answered: exactly the
  two grades are added, and one open review item exactly when the rule asks for it and the item
  has none yet.
\<close>

theorem grade_both_graders:
  assumes "existing_grades rid s = []"
    and "run_deterministic (ge_regex env) t out = Inr (Some g)"
    and "fst (run_judge env p t out s) = Inr (Some j)" and "jo_score j = Some js"
  shows "let s' = snd (grade_run_item env p rid t out s);
             wanted = review_reason_for (ge_settings env) (dg_score g) js;
             had = exists_row (\<lambda>v. rv_run_item_id v = rid) (review_items s)
         in map (\<lambda>r. (gr_run_item_id r, gr_grader r, gr_score r, gr_passed r))
              (drop (length (grades s)) (grades s')) =
              [(rid, GK_deterministic, Some (dg_score g), Some (dg_passed g)),
               (rid, GK_llm_judge, Some js, jo_passed j)] \<and>
            take (length (grades s)) (grades s') = grades s \<and>
            take (length (review_items s)) (review_items s') = review_items s \<and>
            map (\<lambda>v. (rv_run_item_id v, rv_reason v, rv_status v))
              (drop (length (review_items s)) (review_items s')) =
              (case wanted of None \<Rightarrow> [] | Some r \<Rightarrow> if had then [] else [(rid, r, RS_open)])"
proof (cases rule: grade_run_item_cases [of rid s env p t out])
  case existing
  with assms(1) show ?thesis by simp
next
  case (raised e k)
  with assms show ?thesis
    by (cases "run_judge env p t out s") (simp add: grade_run_item_eq Let_def)
next
  case (graded det judge k rows s1')
  then have [simp]: "det = Some g" "judge = Some j" using assms by simp_all
  show ?thesis
    using assms(4)
    by (simp add: graded(4,6,7) grade_rows_def new_grade_def Let_def add_review_eq review_wanted_def
        judge_score_of_def new_review_item_def split: option.split)
qed

definition fx_outcome :: judge_outcome where
  "fx_outcome = \<lparr>jo_score = Some (9 / 20), jo_passed = Some False,
     jo_rubric_scores = Some [(''clarity'', 9 / 20)], jo_rationale = ''hm''\<rparr>"

theorem grade_both_graders_witness:
  "let s' = snd (grade_run_item fx_env (fx_provider ''V'') 40 fx_both_task ''V'' fx_sys);
       wanted = review_reason_for (ge_settings fx_env)
                  (dg_score (grade_exact_match ''V'' ''V'' None)) (9 / 20);
       had = exists_row (\<lambda>v. rv_run_item_id v = 40) (review_items fx_sys)
   in map (\<lambda>r. (gr_run_item_id r, gr_grader r, gr_score r, gr_passed r))
        (drop (length (grades fx_sys)) (grades s')) =
        [(40, GK_deterministic, Some (dg_score (grade_exact_match ''V'' ''V'' None)),
          Some (dg_passed (grade_exact_match ''V'' ''V'' None))),
         (40, GK_llm_judge, Some (9 / 20), jo_passed fx_outcome)] \<and>
      take (length (grades fx_sys)) (grades s') = grades fx_sys \<and>
      take (length (review_items fx_sys)) (review_items s') = review_items fx_sys \<and>
      map (\<lambda>v. (rv_run_item_id v, rv_reason v, rv_status v))
        (drop (length (review_items fx_sys)) (review_items s')) =
        (case wanted of None \<Rightarrow> [] | Some r \<Rightarrow> if had then [] else [(40, r, RS_open)])"
proof (rule grade_both_graders)
  show "existing_grades 40 fx_sys = []" by code_simp
  show "run_deterministic (ge_regex fx_env) fx_both_task ''V'' =
      Inr (Some (grade_exact_match ''V'' ''V'' None))" by code_simp
  show "fst (run_judge fx_env (fx_provider ''V'') fx_both_task ''V'' fx_sys) =
      Inr (Some fx_outcome)" by code_simp
  show "jo_score fx_outcome = Some (9 / 20)" by (simp add: fx_outcome_def)
qed

text \<open>
  C28. Grading is idempotent: after a pass that recorded grades, another pass, with whatever
  provider, task text or output, returns those grades and changes nothing.
\<close>

theorem grading_idempotent:
  assumes "fst (grade_run_item env p rid t out s) = Inr rows" and "rows \<noteq> []"
  shows "grade_run_item env' p' rid t' out' (snd (grade_run_item env p rid t out s)) =
           (Inr rows, snd (grade_run_item env p rid t out s))"
proof (cases rule: grade_run_item_cases [of rid s env p t out])
  case existing
  with assms show ?thesis by (simp add: grade_run_item_eq)
next
  case raised
  with assms(1) show ?thesis by simp
next
  case (graded det judge k rows' s1)
  let ?s' = "snd (grade_run_item env p rid t out s)"
  have rows: "rows = rows'" using assms(1) graded(7) by simp
  have "filter (\<lambda>g. gr_run_item_id g = rid) rows' = rows'"
    by (rule filter_True) (auto simp: graded(6) dest: grade_rows_run_item)
  then have own: "filter (\<lambda>g. gr_run_item_id g = rid) (grades ?s') = rows'"
    using graded(2) by (auto simp: graded(7) existing_grades_Nil filter_empty_conv)
  have "sorted (map gr_created_at rows')"
    by (simp add: graded(6) grade_rows_def new_grade_def split: option.split)
  then have "existing_grades rid ?s' = rows"
    by (simp add: existing_grades_def own rows sort_key_id_if_sorted)
  with assms(2) show ?thesis by (simp add: grade_run_item_eq)
qed

definition fx_rows :: "grade list" where
  "fx_rows = grade_rows 100 7 40 (Some (grade_exact_match ''V'' ''V'' None)) (Some fx_outcome)"

theorem grading_idempotent_witness:
  "grade_run_item fx_env fx_limited 40 fx_task ''other''
     (snd (grade_run_item fx_env (fx_provider ''V'') 40 fx_both_task ''V'' fx_sys)) =
     (Inr fx_rows, snd (grade_run_item fx_env (fx_provider ''V'') 40 fx_both_task ''V'' fx_sys))"
  by (rule grading_idempotent) code_simp+

subsection \<open>A judge that cannot be parsed\<close>

text \<open>
  C29. A judge whose two answers cannot be parsed costs exactly two calls and records a failed
  grade, with neither a score nor a verdict, never a zero; it opens no review item.
\<close>

theorem unparseable_judge_fails_grade:
  assumes new: "existing_grades rid s = []"
    and det: "run_deterministic (ge_regex env) t out = Inr det"
    and rubric: "rubric_from_config (ge_judge env) (tk_grader_config t) = Inr (Some rubric)"
    and calls: "\<And>q. \<exists>c. p None q (judge_model_id (ge_settings env)) (provider_calls s) = Inr c \<and>
        (\<exists>e. read_verdict (ge_judge env) rubric (cr_text c) = Inl e \<and> parse_failure e)"
      "\<And>q. \<exists>c. p None q (judge_model_id (ge_settings env)) (Suc (provider_calls s)) = Inr c \<and>
        (\<exists>e. read_verdict (ge_judge env) rubric (cr_text c) = Inl e \<and> parse_failure e)"
  shows "let s' = snd (grade_run_item env p rid t out s) in
         (\<exists>g. gr_grader g = GK_llm_judge \<and> gr_score g = None \<and> gr_passed g = None \<and>
              last (grades s') = g \<and> gr_run_item_id g = rid) \<and>
         length (grades s') = length (grades s) + (if det = None then 1 else 2) \<and>
         provider_calls s' = provider_calls s + 2 \<and> review_items s' = review_items s"
proof -
  let ?m = "judge_model_id (ge_settings env)"
  let ?q = "build_judge_prompt (ge_judge env) (tk_prompt t) (tk_expected_output t) out rubric"
  obtain c1 e1 where 1: "p None ?q ?m (provider_calls s) = Inr c1"
      "read_verdict (ge_judge env) rubric (cr_text c1) = Inl e1" "parse_failure e1"
    using calls(1) by blast
  obtain c2 e2 where 2: "p None (retry_prompt ?q e1) ?m (Suc (provider_calls s)) = Inr c2"
      "read_verdict (ge_judge env) rubric (cr_text c2) = Inl e2" "parse_failure e2"
    using calls(2) by blast
  have "judge_grade (ge_judge env) p (tk_prompt t) (tk_expected_output t) out rubric ?m s =
      (Inl (JudgeParseError (''judge verdict unparseable after 2 attempts: '' @ exn_text e2)),
       s\<lparr>provider_calls := provider_calls s + 2\<rparr>)"
    by (simp add: judge_grade_def numeral_2_eq_2 call_provider_def 1 2)
  then have "run_judge env p t out s =
      (Inr (Some \<lparr>jo_score = None, jo_passed = None, jo_rubric_scores = None,
         jo_rationale = ''judge parse failure: '' @
           (''judge verdict unparseable after 2 attempts: '' @ exn_text e2)\<rparr>),
       s\<lparr>provider_calls := provider_calls s + 2\<rparr>)"
    by (simp add: run_judge_def rubric)
  then show ?thesis using new det
    by (simp add: grade_run_item_eq grade_rows_def new_grade_def add_review_eq review_wanted_def
        judge_score_of_def Let_def split: option.split)
qed

theorem unparseable_judge_fails_grade_witness:
  "let s' = snd (grade_run_item fx_env (fx_provider ''not json'') 40 fx_both_task ''V'' fx_sys) in
   (\<exists>g. gr_grader g = GK_llm_judge \<and> gr_score g = None \<and> gr_passed g = None \<and>
        last (grades s') = g \<and> gr_run_item_id g = 40) \<and>
   length (grades s') = length (grades fx_sys) +
     (if Some (grade_exact_match ''V'' ''V'' None) = None then 1 else 2) \<and>
   provider_calls s' = provider_calls fx_sys + 2 \<and> review_items s' = review_items fx_sys"
proof -
  let ?rubric = "[\<lparr>rc_name = ''clarity'', rc_description = [], rc_weight = 1\<rparr>]"
  have "\<exists>e. read_verdict (ge_judge fx_env) ?rubric ''not json'' = Inl e \<and> parse_failure e"
    by (intro exI [of _ "JudgeParseError ''no JSON object found in judge response''"]) code_simp
  then have answers: "\<exists>c. fx_provider ''not json'' None q (judge_model_id (ge_settings fx_env)) n = Inr c \<and>
      (\<exists>e. read_verdict (ge_judge fx_env) ?rubric (cr_text c) = Inl e \<and> parse_failure e)" for q n
    by (simp add: fx_provider_def)
  show ?thesis
    by (rule unparseable_judge_fails_grade [where rubric = ?rubric]; (rule answers | code_simp))
qed

end
