(* ===== verification/Worker.thy ===== *)
theory Worker
  imports Ledger Grading
begin

text \<open>
  \<open>app/workers/execute.py\<close>: the execution of one run item, from the joined read of the item to its
  final transaction, as one worker runs it while no other process touches the database between its
  transactions (the interleaved execution is in \<open>World\<close>).

  \<open>execute_with\<close> takes the grading pipeline as its argument; \<open>execute_run_item\<close> is its instance with
  \<open>grade_run_item\<close>. The result is the returned report or the exception that left the function,
  with the state. Log calls and latency histograms are not modelled; the counters are.
\<close>

record retry_config =
  max_attempts :: int
  base_delay_seconds :: rat
  max_delay_seconds :: rat

definition default_retry :: retry_config where
  "default_retry = \<lparr>max_attempts = 5, base_delay_seconds = 1 / 10, max_delay_seconds = 10\<rparr>"

text \<open>
  \<open>RetryConfig.from_settings\<close>: attempts as configured, milliseconds to seconds.
\<close>

definition retry_from_settings :: "int \<Rightarrow> int \<Rightarrow> int \<Rightarrow> retry_config" where
  "retry_from_settings attempts base_ms max_ms =
     \<lparr>max_attempts = attempts, base_delay_seconds = of_int base_ms / 1000,
      max_delay_seconds = of_int max_ms / 1000\<rparr>"

text \<open>
  \<open>backoff_delay\<close>, with the draw \<open>u\<close> of \<open>random.random()\<close> that \<open>random.uniform(0, x)\<close> scales to
  \<open>0 + (x - 0) * u\<close>; float rounding is left out.
\<close>

definition backoff_delay :: "int \<Rightarrow> retry_config \<Rightarrow> rat \<Rightarrow> rat" where
  "backoff_delay attempt config u =
     (let exponential = min (base_delay_seconds config * 2 ^ nat (attempt - 1))
                            (max_delay_seconds config)
      in exponential + (exponential / 2) * u)"

text \<open>What a worker is configured with: provider, retries, spend limit and its text, jitter draws.\<close>

record worker_env =
  we_provider :: provider
  we_retry :: retry_config
  we_spend_limit :: rat
  we_spend_text :: string
  we_jitter :: "int \<Rightarrow> rat"

record report =
  rep_status :: string
  rep_reason :: "string option"

definition report_of :: "string \<Rightarrow> string \<Rightarrow> report" where
  "report_of st reason = \<lparr>rep_status = st, rep_reason = Some reason\<rparr>"

type_synonym grader = "uuid \<Rightarrow> task \<Rightarrow> string \<Rightarrow> sys \<Rightarrow> (exn + grade list) \<times> sys"

type_synonym outcome = "(exn + report) \<times> sys"

subsection \<open>Counters, queues, artifacts\<close>

definition inc_eval_items :: "run_item_status \<Rightarrow> string \<Rightarrow> sys \<Rightarrow> sys" where
  "inc_eval_items st model s =
     (let k = (run_item_status_value st, model)
      in s\<lparr>eval_items_total := (eval_items_total s)(k := eval_items_total s k + 1)\<rparr>)"

definition inc_dead_letters :: "sys \<Rightarrow> sys" where
  "inc_dead_letters s = s\<lparr>dead_letters_total := dead_letters_total s + 1\<rparr>"

definition enqueue_run_item :: "uuid \<Rightarrow> sys \<Rightarrow> sys" where
  "enqueue_run_item rid s = s\<lparr>evals_queue := evals_queue s @ [rid]\<rparr>"

definition publish_dead_letter :: "uuid \<Rightarrow> sys \<Rightarrow> sys" where
  "publish_dead_letter rid s = s\<lparr>dlq := dlq s @ [rid]\<rparr>"

definition build_artifact_key :: "uuid \<Rightarrow> string" where
  "build_artifact_key rid = ''artifact:'' @ uuid_str rid"

definition set_artifact :: "uuid \<Rightarrow> json \<Rightarrow> sys \<Rightarrow> string \<times> sys" where
  "set_artifact rid artifact s =
     (let key = build_artifact_key rid in (key, s\<lparr>redis := (redis s)(key \<mapsto> artifact)\<rparr>))"

definition artifact_of :: "task \<Rightarrow> model_endpoint \<Rightarrow> completion_result \<Rightarrow> json" where
  "artifact_of t ep r = JObj
     [(''request'', JObj [(''prompt'', JStr (tk_prompt t)), (''model_id'', JStr (me_model_id ep)),
        (''base_url'', case me_base_url ep of None \<Rightarrow> JNull | Some u \<Rightarrow> JStr u)]),
      (''raw_response'', JObj [(''text'', JStr (cr_text r)),
        (''prompt_tokens'', JInt (cr_prompt_tokens r)),
        (''completion_tokens'', JInt (cr_completion_tokens r)),
        (''latency_ms'', JInt (cr_latency_ms r))]),
      (''judge_raw'', JNull)]"

subsection \<open>Reading the item\<close>

text \<open>
  The row of the four-way join: the item with its task, endpoint and the status of its run. What
  the execution keeps using is this snapshot.
\<close>

record snapshot =
  sn_rid :: uuid
  sn_run_id :: uuid
  sn_task :: task
  sn_endpoint :: model_endpoint
  sn_item :: run_item
  sn_run_status :: eval_run_status

definition load_item :: "uuid \<Rightarrow> 'a db_scheme \<Rightarrow> snapshot option" where
  "load_item rid d =
     (case fetch ri_id rid (run_items d) of
        None \<Rightarrow> None
      | Some r \<Rightarrow>
          (case (fetch tk_id (ri_task_id r) (tasks d),
                 fetch me_id (ri_model_endpoint_id r) (model_endpoints d),
                 fetch er_id (ri_eval_run_id r) (eval_runs d)) of
             (Some t, Some ep, Some e) \<Rightarrow>
               Some \<lparr>sn_rid = rid, sn_run_id = ri_eval_run_id r, sn_task = t, sn_endpoint = ep,
                     sn_item = r, sn_run_status = er_status e\<rparr>
           | _ \<Rightarrow> None))"

definition prev_cost :: "snapshot \<Rightarrow> rat" where
  "prev_cost sn = item_cost (sn_item sn)"

definition prev_tokens :: "snapshot \<Rightarrow> int" where
  "prev_tokens sn = item_tokens (sn_item sn)"

definition effective_provider :: "provider \<Rightarrow> model_endpoint \<Rightarrow> provider" where
  "effective_provider p ep =
     (case me_base_url ep of
        None \<Rightarrow> p
      | Some url \<Rightarrow> if url = [] then p else with_base_url p url)"

subsection \<open>The attempts\<close>

datatype attempts =
    Completed completion_result
  | Exhausted string
  | Refused string
  | Raised exn

text \<open>
  The loop over the remaining attempt numbers. The last error's text is \<open>'None'\<close> before the first
  failure, as the formatted None is.
\<close>

fun attempt_loop :: "worker_env \<Rightarrow> snapshot \<Rightarrow> int list \<Rightarrow> string \<Rightarrow> sys \<Rightarrow> attempts \<times> sys" where
  "attempt_loop w sn [] last_error s = (Exhausted last_error, s)"
| "attempt_loop w sn (attempt # rest) last_error s =
     (let s1 = mark_running (sn_rid sn) s;
          (r, s2) = call_provider (effective_provider (we_provider w) (sn_endpoint sn))
                      (tk_prompt (sn_task sn)) (me_model_id (sn_endpoint sn)) s1
      in case r of
           Inr result \<Rightarrow> (Completed result, s2)
         | Inl (RetryableProviderError m) \<Rightarrow>
             (let s3 = (if attempt < max_attempts (we_retry w)
                        then s2\<lparr>sleeps := sleeps s2 @ [backoff_delay attempt (we_retry w) (we_jitter w attempt)]\<rparr>
                        else s2)
              in attempt_loop w sn rest m s3)
         | Inl (NonRetryableProviderError m) \<Rightarrow> (Refused m, s2)
         | Inl e \<Rightarrow> (Raised e, s2))"

definition run_attempts :: "worker_env \<Rightarrow> snapshot \<Rightarrow> sys \<Rightarrow> attempts \<times> sys" where
  "run_attempts w sn s = attempt_loop w sn [1..max_attempts (we_retry w)] ''None'' s"

subsection \<open>After the attempts\<close>

definition after_refused :: "snapshot \<Rightarrow> string \<Rightarrow> sys \<Rightarrow> outcome" where
  "after_refused sn m s =
     (Inr (report_of ''failed'' ''non-retryable''),
      maybe_complete_run (sn_run_id sn)
        (inc_eval_items Item_failed (me_name (sn_endpoint sn)) (mark_failed (sn_rid sn) m s)))"

definition after_exhausted :: "worker_env \<Rightarrow> snapshot \<Rightarrow> string \<Rightarrow> sys \<Rightarrow> outcome" where
  "after_exhausted w sn last_error s =
     (let text = ''exhausted '' @ show_int (max_attempts (we_retry w)) @ '' attempts: '' @ last_error
      in (Inr (report_of ''dead_lettered'' ''retries-exhausted''),
          maybe_complete_run (sn_run_id sn)
            (inc_eval_items Item_dead_lettered (me_name (sn_endpoint sn))
              (inc_dead_letters (publish_dead_letter (sn_rid sn)
                (mark_dead_lettered (sn_rid sn) text s))))))"

text \<open>The finalizing transaction for a completion, with the deltas against the snapshot.\<close>

definition finalize_completion ::
  "snapshot \<Rightarrow> completion_result \<Rightarrow> string \<Rightarrow> 'a db_scheme \<Rightarrow> exn + (bool \<times> 'a db_scheme)" where
  "finalize_completion sn r akey d =
     (let cost = compute_cost (me_model_id (sn_endpoint sn)) (cr_prompt_tokens r) (cr_completion_tokens r)
      in finalize_item (sn_rid sn) (sn_run_id sn) (cr_latency_ms r) (cr_prompt_tokens r)
           (cr_completion_tokens r) cost akey (cost - prev_cost sn)
           (cr_prompt_tokens r + cr_completion_tokens r - prev_tokens sn) d)"

text \<open>Grading after the item is finalized; any exception fails the item.\<close>

definition grade_and_complete :: "grader \<Rightarrow> snapshot \<Rightarrow> completion_result \<Rightarrow> sys \<Rightarrow> outcome" where
  "grade_and_complete g sn r s =
     (case g (sn_rid sn) (sn_task sn) (cr_text r) s of
        (Inl exc, s1) \<Rightarrow>
          (Inr (report_of ''failed'' ''grading-failed''),
           maybe_complete_run (sn_run_id sn)
             (inc_eval_items Item_failed (me_name (sn_endpoint sn))
               (mark_failed (sn_rid sn) (''grading pipeline failed: '' @ exn_text exc) s1)))
      | (Inr _, s1) \<Rightarrow>
          (Inr \<lparr>rep_status = ''succeeded'', rep_reason = None\<rparr>,
           inc_eval_items Item_succeeded (me_name (sn_endpoint sn))
             (maybe_complete_run (sn_run_id sn) s1)))"

definition run_status_of :: "uuid \<Rightarrow> 'a db_scheme \<Rightarrow> eval_run_status option" where
  "run_status_of k d = map_option er_status (fetch er_id k (eval_runs d))"

definition after_completion ::
  "grader \<Rightarrow> worker_env \<Rightarrow> snapshot \<Rightarrow> completion_result \<Rightarrow> sys \<Rightarrow> outcome" where
  "after_completion g w sn r s =
     (if run_status_of (sn_run_id sn) s = Some Run_cancelled
      then (Inr (report_of ''failed'' ''cancelled''),
            inc_eval_items Item_failed (me_name (sn_endpoint sn)) (mark_cancelled (sn_rid sn) s))
      else
        (let (akey, s1) = set_artifact (sn_rid sn) (artifact_of (sn_task sn) (sn_endpoint sn) r) s in
         case finalize_completion sn r akey s1 of
           Inl e \<Rightarrow> (Inl e, s1)
         | Inr (False, s2) \<Rightarrow> (Inr (report_of ''skipped'' ''already-finalized''), s2)
         | Inr (True, s2) \<Rightarrow>
             (let (aborted, s3) = abort_over_budget (sn_run_id sn) (we_spend_limit w) (we_spend_text w) s2
              in if aborted
                 then (Inr (report_of ''succeeded'' ''run-aborted''),
                       inc_eval_items Item_succeeded (me_name (sn_endpoint sn)) s3)
                 else grade_and_complete g sn r s3)))"

subsection \<open>The whole execution\<close>

definition execute_loaded :: "grader \<Rightarrow> worker_env \<Rightarrow> snapshot \<Rightarrow> sys \<Rightarrow> outcome" where
  "execute_loaded g w sn s =
     (case run_attempts w sn s of
        (Raised e, s1) \<Rightarrow> (Inl e, s1)
      | (Refused m, s1) \<Rightarrow> after_refused sn m s1
      | (Exhausted m, s1) \<Rightarrow> after_exhausted w sn m s1
      | (Completed r, s1) \<Rightarrow> after_completion g w sn r s1)"

definition execute_with :: "grader \<Rightarrow> worker_env \<Rightarrow> uuid \<Rightarrow> sys \<Rightarrow> outcome" where
  "execute_with g w rid s =
     (case load_item rid s of
        None \<Rightarrow> (Inl (ValueError (''run item '' @ uuid_str rid @ '' not found'')), s)
      | Some sn \<Rightarrow>
          if sn_run_status sn = Run_cancelled
          then (Inr (report_of ''failed'' ''cancelled''),
                inc_eval_items Item_failed (me_name (sn_endpoint sn)) (mark_cancelled rid s))
          else if sn_run_status sn = Run_failed
          then (Inr (report_of ''failed'' ''run-aborted''),
                inc_eval_items Item_failed (me_name (sn_endpoint sn))
                  (mark_failed rid ''eval run aborted'' s))
          else if ri_status (sn_item sn) = Item_succeeded
          then (Inr (report_of ''succeeded'' ''already-succeeded''), s)
          else if ri_status (sn_item sn) \<notin> {Item_queued, Item_dead_lettered}
          then (Inr (report_of (run_item_status_value (ri_status (sn_item sn))) ''not-executable''), s)
          else execute_loaded g w sn s)"

definition execute_run_item :: "grading_env \<Rightarrow> worker_env \<Rightarrow> uuid \<Rightarrow> sys \<Rightarrow> outcome" where
  "execute_run_item env w = execute_with (grade_run_item env (we_provider w)) w"

end
