(* ===== verification/Worker_Facts.thy ===== *)
theory Worker_Facts
  imports Worker
begin

text \<open>
  The state the attempts of an execution leave (\<open>tried\<close>), the loop in closed form for a given
  sequence of answers, the backoff bounds, and the ledger: whatever the provider and the grader do,
  an execution that is not interfered with keeps the run totals equal to the sums over the items.
\<close>

subsection \<open>What the attempts do to the state\<close>

definition bump :: "uuid \<Rightarrow> nat \<Rightarrow> 'a db_scheme \<Rightarrow> 'a db_scheme" where
  "bump rid k d = (if k = 0 then d else run_items_update (sql_update (\<lambda>r. ri_id r = rid)
     (\<lambda>r. r\<lparr>ri_status := Item_running, ri_attempt_count := ri_attempt_count r + int k,
            ri_updated_at := db_now d\<rparr>)) d)"

definition tried :: "uuid \<Rightarrow> nat \<Rightarrow> rat list \<Rightarrow> sys \<Rightarrow> sys" where
  "tried rid k ds s =
     (bump rid k s)\<lparr>provider_calls := provider_calls s + k, sleeps := sleeps s @ ds\<rparr>"

lemma bump_simps [simp]:
  "eval_runs (bump rid k d) = eval_runs d" "tasks (bump rid k d) = tasks d"
  "model_endpoints (bump rid k d) = model_endpoints d" "db_now (bump rid k d) = db_now d"
  "grades (bump rid k d) = grades d" "review_items (bump rid k d) = review_items d"
  by (simp_all add: bump_def)

lemma bump_sys [simp]:
  "provider_calls (bump rid k s) = provider_calls s" "sleeps (bump rid k s) = sleeps s"
  "dlq (bump rid k s) = dlq s" "evals_queue (bump rid k s) = evals_queue s"
  "redis (bump rid k s) = redis s" "dead_letters_total (bump rid k s) = dead_letters_total s"
  "eval_items_total (bump rid k s) = eval_items_total s"
  by (simp_all add: bump_def)

lemma fetch_bump:
  "fetch ri_id i (run_items (bump rid k d)) =
     map_option (\<lambda>r. if i = rid \<and> k \<noteq> 0 then r\<lparr>ri_status := Item_running,
        ri_attempt_count := ri_attempt_count r + int k, ri_updated_at := db_now d\<rparr> else r)
       (fetch ri_id i (run_items d))"
  by (cases "fetch ri_id i (run_items d)")
     (auto simp: bump_def fetch_sql_update dest: fetch_SomeD)

lemma tried_simps [simp]:
  "run_items (tried rid k ds s) = run_items (bump rid k s)" "eval_runs (tried rid k ds s) = eval_runs s"
  "tasks (tried rid k ds s) = tasks s" "model_endpoints (tried rid k ds s) = model_endpoints s"
  "grades (tried rid k ds s) = grades s" "review_items (tried rid k ds s) = review_items s"
  "dlq (tried rid k ds s) = dlq s" "evals_queue (tried rid k ds s) = evals_queue s"
  "redis (tried rid k ds s) = redis s" "provider_calls (tried rid k ds s) = provider_calls s + k"
  "sleeps (tried rid k ds s) = sleeps s @ ds" "db_now (tried rid k ds s) = db_now s"
  "dead_letters_total (tried rid k ds s) = dead_letters_total s"
  "eval_items_total (tried rid k ds s) = eval_items_total s"
  by (simp_all add: tried_def bump_def)

lemma keys_bump [simp]: "map ri_id (run_items (bump rid k d)) = map ri_id (run_items d)"
  by (simp add: bump_def map_sql_update)

lemma bump_mark_running: "bump rid k (mark_running rid d) = bump rid (Suc k) d"
  by (auto simp: bump_def mark_running_def sql_update_def intro!: arg_cong2 [where f = run_items_update])

lemma tried_mark_running:
  "tried rid k ds ((mark_running rid s)\<lparr>provider_calls := provider_calls s + 1,
     sleeps := sleeps s @ ds'\<rparr>) = tried rid (Suc k) (ds' @ ds) s"
  using bump_mark_running [of rid k s]
  by (simp add: tried_def bump_def mark_running_def split: if_splits)

lemma tried_zero [simp]: "tried rid 0 [] s = s"
  by (simp add: tried_def bump_def)

subsection \<open>The loop in closed form\<close>

text \<open>The answer to call number \<open>i\<close>, and the delays slept after the failed attempts \<open>as\<close>.\<close>

definition answer :: "worker_env \<Rightarrow> snapshot \<Rightarrow> nat \<Rightarrow> exn + completion_result" where
  "answer w sn i = effective_provider (we_provider w) (sn_endpoint sn) None
     (tk_prompt (sn_task sn)) (me_model_id (sn_endpoint sn)) i"

definition delays :: "worker_env \<Rightarrow> int list \<Rightarrow> rat list" where
  "delays w as = map (\<lambda>a. backoff_delay a (we_retry w) (we_jitter w a))
     (filter (\<lambda>a. a < max_attempts (we_retry w)) as)"

definition last_message :: "string \<Rightarrow> (nat \<Rightarrow> string) \<Rightarrow> nat \<Rightarrow> string" where
  "last_message first_text m j = (if j = 0 then first_text else m (j - 1))"

lemma attempt_loop_step:
  "attempt_loop w sn (a # as) le s =
     (let s1 = (mark_running (sn_rid sn) s)\<lparr>provider_calls := provider_calls s + 1\<rparr>
      in case answer w sn (provider_calls s) of
           Inr r \<Rightarrow> (Completed r, s1)
         | Inl (RetryableProviderError m) \<Rightarrow>
             attempt_loop w sn as m (s1\<lparr>sleeps := sleeps s1 @ delays w [a]\<rparr>)
         | Inl (NonRetryableProviderError m) \<Rightarrow> (Refused m, s1)
         | Inl e \<Rightarrow> (Raised e, s1))"
  by (simp add: call_provider_def answer_def delays_def mark_running_def Let_def
      split: sum.split exn.split)

lemma mark_tried:
  "(mark_running rid s)\<lparr>provider_calls := Suc (provider_calls s)\<rparr> = tried rid (Suc 0) [] s"
  using tried_mark_running [of rid 0 "[]" s "[]"] by (simp add: mark_running_def)

lemma tried_tried: "tried rid k ds (tried rid (Suc 0) ds' s) = tried rid (Suc k) (ds' @ ds) s"
  using tried_mark_running [of rid k ds s ds'] mark_tried [where rid = rid and s = s]
  by (simp add: tried_def bump_def mark_running_def split: if_splits)

lemma attempt_loop_retry:
  assumes "j \<le> length as"
    and "\<And>i. i < j \<Longrightarrow> answer w sn (provider_calls s + i) = Inl (RetryableProviderError (m i))"
  shows "attempt_loop w sn as le s =
     attempt_loop w sn (drop j as) (last_message le m j) (tried (sn_rid sn) j (delays w (take j as)) s)"
  using assms
proof (induction j arbitrary: as le s m)
  case 0
  then show ?case by (simp add: last_message_def delays_def)
next
  case (Suc j)
  then obtain a as' where as: "as = a # as'" "j \<le> length as'" by (cases as) auto
  let ?s1 = "tried (sn_rid sn) (Suc 0) (delays w [a]) s"
  have "attempt_loop w sn as le s = attempt_loop w sn as' (m 0) ?s1"
    using Suc.prems(2) [of 0] mark_tried [where rid = "sn_rid sn" and s = s]
    by (simp add: as attempt_loop_step Let_def tried_def del: attempt_loop.simps)
  also have "\<dots> = attempt_loop w sn (drop j as') (last_message (m 0) (\<lambda>i. m (Suc i)) j)
      (tried (sn_rid sn) j (delays w (take j as')) ?s1)"
    by (rule Suc.IH) (use as Suc.prems(2) [of "Suc _"] in simp_all)
  also have "last_message (m 0) (\<lambda>i. m (Suc i)) j = last_message le m (Suc j)"
    by (simp add: last_message_def)
  also have "tried (sn_rid sn) j (delays w (take j as')) ?s1 =
      tried (sn_rid sn) (Suc j) (delays w (take (Suc j) as)) s"
    by (simp only: tried_tried as) (simp add: delays_def)
  finally show ?case by (simp add: as)
qed

text \<open>Every end of the attempts leaves a state of the form \<open>tried\<close>.\<close>

lemma attempt_loop_tried: "\<exists>k ds. snd (attempt_loop w sn as le s) = tried (sn_rid sn) k ds s"
proof (induction as arbitrary: le s)
  case Nil
  show ?case by (intro exI [of _ 0] exI [of _ "[]"]) simp
next
  case (Cons a as)
  let ?s1 = "tried (sn_rid sn) (Suc 0) [] s"
  have stop: "\<exists>k ds. ?s1 = tried (sn_rid sn) k ds s" by blast
  have go: "\<exists>k ds. snd (attempt_loop w sn as m (?s1\<lparr>sleeps := sleeps ?s1 @ ds'\<rparr>)) =
      tried (sn_rid sn) k ds s" for m ds'
  proof -
    have "?s1\<lparr>sleeps := sleeps ?s1 @ ds'\<rparr> = tried (sn_rid sn) (Suc 0) ds' s" by (simp add: tried_def)
    with Cons.IH [of m "tried (sn_rid sn) (Suc 0) ds' s"] show ?thesis by (auto simp: tried_tried)
  qed
  show ?case
    using stop go
    by (simp add: attempt_loop_step mark_tried Let_def split: sum.split exn.split
        del: attempt_loop.simps)
qed

lemma run_attempts_tried:
  obtains k ds where "snd (run_attempts w sn s) = tried (sn_rid sn) k ds s"
  unfolding run_attempts_def using attempt_loop_tried by blast

subsection \<open>Backoff\<close>

text \<open>
  The delay before retrying after attempt \<open>n\<close>: at least the capped exponential, less than one
  and a half times it, hence between 0 and one and a half times \<open>max_delay_seconds\<close>; without the
  jitter it does not shrink from one attempt to the next.
\<close>

theorem backoff_bounds:
  assumes "0 \<le> u" and "u < 1" and "0 < base_delay_seconds c" and "0 < max_delay_seconds c"
    and "1 \<le> n"
  shows "let e = min (base_delay_seconds c * 2 ^ nat (n - 1)) (max_delay_seconds c) in
         0 < backoff_delay n c u \<and> e \<le> backoff_delay n c u \<and> backoff_delay n c u < 3 / 2 * e \<and>
         backoff_delay n c u < 3 / 2 * max_delay_seconds c \<and>
         backoff_delay n c 0 \<le> backoff_delay (n + 1) c 0"
proof -
  define e where "e = min (base_delay_seconds c * 2 ^ nat (n - 1)) (max_delay_seconds c)"
  have pos: "0 < e" using assms by (simp add: e_def)
  have d: "backoff_delay n c u = e + e / 2 * u" by (simp add: backoff_delay_def e_def Let_def)
  have "0 \<le> e / 2 * u" and "e / 2 * u < e / 2 * 1"
    using pos assms(1,2) by (simp, intro mult_strict_left_mono) simp_all
  then have lo: "e \<le> backoff_delay n c u" and hi: "backoff_delay n c u < 3 / 2 * e"
    by (simp_all add: d)
  moreover have "3 / 2 * e \<le> 3 / 2 * max_delay_seconds c" by (simp add: e_def)
  moreover have "backoff_delay n c 0 \<le> backoff_delay (n + 1) c 0"
  proof -
    have "(2::rat) ^ nat (n - 1) \<le> 2 ^ nat n" by (rule power_increasing) simp_all
    then have "base_delay_seconds c * 2 ^ nat (n - 1) \<le> base_delay_seconds c * 2 ^ nat n"
      using assms(3) by simp
    then show ?thesis by (simp add: backoff_delay_def Let_def min_le_iff_disj)
  qed
  ultimately show ?thesis using pos by (simp add: e_def [symmetric] Let_def)
qed

theorem backoff_bounds_witness:
  "let e = min (base_delay_seconds default_retry * 2 ^ nat (3 - 1)) (max_delay_seconds default_retry) in
   0 < backoff_delay 3 default_retry (1 / 4) \<and> e \<le> backoff_delay 3 default_retry (1 / 4) \<and>
   backoff_delay 3 default_retry (1 / 4) < 3 / 2 * e \<and>
   backoff_delay 3 default_retry (1 / 4) < 3 / 2 * max_delay_seconds default_retry \<and>
   backoff_delay 3 default_retry 0 \<le> backoff_delay (3 + 1) default_retry 0"
  by (rule backoff_bounds) (simp_all add: default_retry_def)

subsection \<open>The ledger across an execution\<close>

lemma book_inv_sys [ledger_simps]:
  "book_inv (inc_eval_items st m s) = book_inv s" "book_inv (inc_dead_letters s) = book_inv s"
  "book_inv (publish_dead_letter rid s) = book_inv s" "book_inv (enqueue_run_item rid s) = book_inv s"
  "book_inv (snd (set_artifact rid a s)) = book_inv s"
  by (rule book_inv_frame; simp add: inc_eval_items_def inc_dead_letters_def publish_dead_letter_def
      enqueue_run_item_def set_artifact_def Let_def)+

lemma book_inv_tried [ledger_simps]: "book_inv (tried rid k ds s) = book_inv s"
proof -
  have "book_inv (tried rid k ds s) = book_inv (bump rid k s)"
    by (rule book_inv_frame) simp_all
  also have "\<dots> = book_inv s"
    by (simp add: book_inv_def bump_def ledger_ok_def ledger_simps map_sql_update)
  finally show ?thesis .
qed

text \<open>The snapshot agrees with the item's money as long as only the marks touched the item.\<close>

lemma load_item_Some:
  assumes "load_item rid d = Some sn"
  obtains r t ep e where "fetch ri_id rid (run_items d) = Some r" "sn_item sn = r" "sn_rid sn = rid"
    "sn_run_id sn = ri_eval_run_id r" "fetch tk_id (ri_task_id r) (tasks d) = Some t" "sn_task sn = t"
    "fetch me_id (ri_model_endpoint_id r) (model_endpoints d) = Some ep" "sn_endpoint sn = ep"
    "fetch er_id (ri_eval_run_id r) (eval_runs d) = Some e" "sn_run_status sn = er_status e"
  using assms by (auto simp: load_item_def split: option.splits)

definition same_money :: "run_item \<Rightarrow> run_item \<Rightarrow> bool" where
  "same_money r r' \<longleftrightarrow> ri_eval_run_id r' = ri_eval_run_id r \<and> item_cost r' = item_cost r \<and>
     item_tokens r' = item_tokens r"

lemma tried_same_money:
  assumes "fetch ri_id rid (run_items s) = Some r"
  obtains r' where "fetch ri_id rid (run_items (tried rid k ds s)) = Some r'" "same_money r r'"
  using assms by (auto simp: fetch_bump same_money_def item_cost_def item_tokens_def)

lemma finalize_completion_book:
  assumes "finalize_completion sn r akey d = Inr (b, d')" and "book_inv d"
    and "fetch ri_id (sn_rid sn) (run_items d) = Some r0" and "same_money (sn_item sn) r0"
    and "sn_run_id sn = ri_eval_run_id (sn_item sn)"
  shows "book_inv d'"
  by (rule finalize_book_inv [OF assms(1) [unfolded finalize_completion_def Let_def] assms(2,3)])
     (use assms(4,5) in \<open>simp_all add: same_money_def prev_cost_def prev_tokens_def\<close>)

lemma book_inv_results:
  "abort_over_budget k l t d = (b, d') \<Longrightarrow> book_inv d' = book_inv d"
  "set_artifact rid a s = (key, s') \<Longrightarrow> book_inv s' = book_inv s"
  using book_inv_marks(6) [of k l t d] book_inv_sys(5) [of rid a s] by simp_all

context grading_step
begin

lemma grade_book: "book_inv (snd (gstep rid t out s)) = book_inv s"
  by (rule book_inv_frame) (rule keeps_run_items, rule keeps_eval_runs)

lemma grade_and_complete_book: "book_inv s \<Longrightarrow> book_inv (snd (grade_and_complete gstep w sn s))"
  using grade_book [of "sn_rid w" "sn_task w" "cr_text sn" s]
  by (auto simp: grade_and_complete_def ledger_simps split: prod.split sum.split)

lemma after_completion_book:
  assumes inv: "book_inv s" and item: "fetch ri_id (sn_rid sn) (run_items s) = Some r0"
    and money: "same_money (sn_item sn) r0" and run: "sn_run_id sn = ri_eval_run_id (sn_item sn)"
  shows "book_inv (snd (after_completion gstep w sn r s))"
proof -
  obtain akey s1 where a: "set_artifact (sn_rid sn) (artifact_of (sn_task sn) (sn_endpoint sn) r) s =
      (akey, s1)" by fastforce
  have s1: "book_inv s1" using inv by (simp add: book_inv_results(2) [OF a])
  have item1: "fetch ri_id (sn_rid sn) (run_items s1) = Some r0"
    using item a by (auto simp: set_artifact_def Let_def)
  show ?thesis
  proof (cases "finalize_completion sn r akey s1")
    case (Inl e)
    with inv s1 show ?thesis by (simp add: after_completion_def a ledger_simps)
  next
    case (Inr bd)
    obtain b s2 where bd: "bd = (b, s2)" by fastforce
    have s2: "book_inv s2" using finalize_completion_book [OF Inr [unfolded bd] s1 item1 money run] .
    obtain ab s3 where ab: "abort_over_budget (sn_run_id sn) (we_spend_limit w) (we_spend_text w) s2 =
        (ab, s3)" by fastforce
    have "book_inv s3" using s2 by (simp add: book_inv_results(1) [OF ab])
    then show ?thesis
      using inv s2
      by (auto simp: after_completion_def a Inr bd ab ledger_simps split: bool.split
          intro: grade_and_complete_book)
  qed
qed

lemma execute_loaded_book:
  assumes inv: "book_inv s" and load: "load_item rid s = Some sn"
  shows "book_inv (snd (execute_loaded gstep w sn s))"
proof -
  obtain att s1 where att: "run_attempts w sn s = (att, s1)" by fastforce
  obtain k ds where s1: "s1 = tried (sn_rid sn) k ds s"
    using run_attempts_tried [of w sn s] att by (metis snd_conv)
  from load obtain r where r: "fetch ri_id rid (run_items s) = Some r" "sn_item sn = r" "sn_rid sn = rid"
      "sn_run_id sn = ri_eval_run_id r" by (rule load_item_Some)
  obtain r' where r': "fetch ri_id rid (run_items s1) = Some r'" "same_money r r'"
    using tried_same_money [OF r(1)] unfolding s1 r(3) by blast
  have inv1: "book_inv s1" using inv by (simp add: s1 ledger_simps)
  show ?thesis
    using after_completion_book [OF inv1, of sn r'] inv1 r r'
    by (cases att)
       (simp_all add: execute_loaded_def att after_refused_def after_exhausted_def Let_def ledger_simps)
qed

lemma execute_book: "book_inv s \<Longrightarrow> book_inv (snd (execute_with gstep w rid s))"
  by (simp add: execute_with_def execute_loaded_book ledger_simps split: option.split)

end

interpretation executions: op_system "\<lambda>rid s. snd (execute_run_item env w rid s)" book_inv
  by unfold_locales (simp add: execute_run_item_def pipeline.execute_book)

text \<open>
  Whatever the provider answers, whatever the grader raises and however often items are
  delivered again, executions that run one after the other keep \<open>total_cost_usd\<close> and
  \<open>total_tokens\<close> of every run equal to the sums over its items: no redelivery counts twice.
\<close>

theorem executions_keep_ledger:
  assumes "distinct (map ri_id (run_items s))" and "ledger_ok s"
  shows "ledger_ok (fold (\<lambda>rid s. snd (execute_run_item env w rid s)) rids s)"
  using executions.inv_run [of s env w rids] assms by (simp add: book_inv_def)

definition fx_worker :: "provider \<Rightarrow> worker_env" where
  "fx_worker p = \<lparr>we_provider = p, we_retry = default_retry, we_spend_limit = 10,
     we_spend_text = ''10'', we_jitter = (\<lambda>_. 1 / 4)\<rparr>"

theorem executions_keep_ledger_witness:
  "ledger_ok (fold (\<lambda>rid s. snd (execute_run_item fx_env (fx_worker (fx_provider ''V'')) rid s))
     [40, 41, 40] fx_sys)"
  by (rule executions_keep_ledger) code_simp+

end
