(* ===== verification/Worker_Outcomes.thy ===== *)
theory Worker_Outcomes
  imports Worker_Facts
begin

text \<open>
  What one execution does on each of its branches: the guards before the attempts, a refusal, the
  exhausted retries, and a completion after some failed attempts, each with the row of the item,
  the calls made, the queues and the run totals it leaves.
\<close>

subsection \<open>The guards\<close>

lemma inc_eval_items_simps [simp]:
  "run_items (inc_eval_items st m s) = run_items s" "eval_runs (inc_eval_items st m s) = eval_runs s"
  "tasks (inc_eval_items st m s) = tasks s" "grades (inc_eval_items st m s) = grades s"
  "model_endpoints (inc_eval_items st m s) = model_endpoints s"
  "review_items (inc_eval_items st m s) = review_items s" "redis (inc_eval_items st m s) = redis s"
  "dlq (inc_eval_items st m s) = dlq s" "evals_queue (inc_eval_items st m s) = evals_queue s"
  "provider_calls (inc_eval_items st m s) = provider_calls s" "sleeps (inc_eval_items st m s) = sleeps s"
  "dead_letters_total (inc_eval_items st m s) = dead_letters_total s"
  "db_now (inc_eval_items st m s) = db_now s"
  by (simp_all add: inc_eval_items_def Let_def)

text \<open>What the marks and the completion check leave alone beyond the database tables.\<close>

lemma mark_sys [simp]:
  fixes s :: sys
  shows "provider_calls (mark_failed rid err s) = provider_calls s" "redis (mark_failed rid err s) = redis s"
    "grades (mark_failed rid err s) = grades s" "dlq (mark_failed rid err s) = dlq s"
    "evals_queue (mark_failed rid err s) = evals_queue s" "sleeps (mark_failed rid err s) = sleeps s"
    "db_now (mark_failed rid err s) = db_now s"
    "provider_calls (mark_cancelled rid s) = provider_calls s" "redis (mark_cancelled rid s) = redis s"
    "grades (mark_cancelled rid s) = grades s" "dlq (mark_cancelled rid s) = dlq s"
    "evals_queue (mark_cancelled rid s) = evals_queue s"
    "provider_calls (mark_dead_lettered rid err s) = provider_calls s"
    "redis (mark_dead_lettered rid err s) = redis s" "grades (mark_dead_lettered rid err s) = grades s"
    "dlq (mark_dead_lettered rid err s) = dlq s" "sleeps (mark_dead_lettered rid err s) = sleeps s"
    "dead_letters_total (mark_dead_lettered rid err s) = dead_letters_total s"
    "provider_calls (maybe_complete_run k s) = provider_calls s"
    "redis (maybe_complete_run k s) = redis s" "dlq (maybe_complete_run k s) = dlq s"
    "evals_queue (maybe_complete_run k s) = evals_queue s" "sleeps (maybe_complete_run k s) = sleeps s"
    "dead_letters_total (maybe_complete_run k s) = dead_letters_total s"
    "db_now (maybe_complete_run k s) = db_now s"
  by (simp_all add: mark_defs complete_run_defs Let_def)

lemma load_item_row:
  assumes "load_item rid s = Some sn"
  shows "fetch ri_id rid (run_items s) = Some (sn_item sn)" "ri_id (sn_item sn) = rid"
    "sn_rid sn = rid" "sn_run_id sn = ri_eval_run_id (sn_item sn)"
    "fetch er_id (sn_run_id sn) (eval_runs s) \<noteq> None"
  using assms by (auto elim!: load_item_Some dest: fetch_SomeD)

lemma totals_sys [simp]:
  "totals (inc_eval_items st m s) = totals s" "totals (tried rid k ds s) = totals s"
  "totals (s\<lparr>dlq := q\<rparr>) = totals s" "totals (s\<lparr>dead_letters_total := n\<rparr>) = totals s"
  "totals (s\<lparr>redis := h\<rparr>) = totals s" "totals (s\<lparr>evals_queue := q\<rparr>) = totals s"
  by (simp_all add: totals_def)

text \<open>
  A delivery for a cancelled or failed run, or for an item that is neither queued nor
  dead-lettered, does no work: no provider call, no artifact, no grade, no message, no change of
  any run. The item's row changes only when the run is cancelled (then an item that has not
  succeeded fails) or failed (then it fails, whatever its status).
\<close>

theorem guarded_delivery_does_no_work:
  assumes "load_item rid s = Some sn"
    and "sn_run_status sn \<in> {Run_cancelled, Run_failed} \<or>
         ri_status (sn_item sn) \<notin> {Item_queued, Item_dead_lettered}"
  shows "let s' = snd (execute_run_item env w rid s) in
         provider_calls s' = provider_calls s \<and> redis s' = redis s \<and> grades s' = grades s \<and>
         evals_queue s' = evals_queue s \<and> dlq s' = dlq s \<and> eval_runs s' = eval_runs s \<and>
         fetch ri_id rid (run_items s') = Some
           (if sn_run_status sn = Run_cancelled \<and> ri_status (sn_item sn) \<noteq> Item_succeeded
            then (sn_item sn)\<lparr>ri_status := Item_failed, ri_error := Some ''eval run cancelled'',
                   ri_updated_at := db_now s\<rparr>
            else if sn_run_status sn = Run_failed
            then (sn_item sn)\<lparr>ri_status := Item_failed, ri_error := Some ''eval run aborted'',
                   ri_updated_at := db_now s\<rparr>
            else sn_item sn)"
proof -
  note row = load_item_row [OF assms(1)]
  show ?thesis
    using assms row by (auto simp: execute_run_item_def execute_with_def Let_def tx_simps fetch_mark)
qed

definition fx_cancelled :: sys where
  "fx_cancelled = fx_sys\<lparr>eval_runs := [fx_run\<lparr>er_status := Run_cancelled\<rparr>]\<rparr>"

definition fx_snapshot :: "eval_run_status \<Rightarrow> run_item \<Rightarrow> snapshot" where
  "fx_snapshot st r = \<lparr>sn_rid = ri_id r, sn_run_id = 30, sn_task = fx_task,
     sn_endpoint = fx_endpoint, sn_item = r, sn_run_status = st\<rparr>"

theorem guarded_delivery_does_no_work_witness:
  "let s' = snd (execute_run_item fx_env (fx_worker fx_limited) 40 fx_cancelled) in
   provider_calls s' = provider_calls fx_cancelled \<and> redis s' = redis fx_cancelled \<and>
   grades s' = grades fx_cancelled \<and> evals_queue s' = evals_queue fx_cancelled \<and>
   dlq s' = dlq fx_cancelled \<and> eval_runs s' = eval_runs fx_cancelled \<and>
   fetch ri_id 40 (run_items s') = Some
     (if sn_run_status (fx_snapshot Run_cancelled (fx_item 40)) = Run_cancelled \<and>
         ri_status (sn_item (fx_snapshot Run_cancelled (fx_item 40))) \<noteq> Item_succeeded
      then (sn_item (fx_snapshot Run_cancelled (fx_item 40)))\<lparr>ri_status := Item_failed,
             ri_error := Some ''eval run cancelled'', ri_updated_at := db_now fx_cancelled\<rparr>
      else if sn_run_status (fx_snapshot Run_cancelled (fx_item 40)) = Run_failed
      then (sn_item (fx_snapshot Run_cancelled (fx_item 40)))\<lparr>ri_status := Item_failed,
             ri_error := Some ''eval run aborted'', ri_updated_at := db_now fx_cancelled\<rparr>
      else sn_item (fx_snapshot Run_cancelled (fx_item 40)))"
  by (rule guarded_delivery_does_no_work) code_simp+

text \<open>
  C36. An item found in status running is left as it is: as long as its run runs, any number of
  redeliveries of its message returns without an attempt and changes nothing at all, so an item
  whose worker died between the first mark and the finalizing transaction stays running.
\<close>

theorem running_item_never_recovers:
  assumes "load_item rid s = Some sn" and "sn_run_status sn = Run_running"
    and "ri_status (sn_item sn) = Item_running"
  shows "fst (execute_run_item env w rid s) = Inr (report_of ''running'' ''not-executable'') \<and>
         ((\<lambda>s. snd (execute_run_item env w rid s)) ^^ n) s = s"
proof -
  have "execute_run_item env w rid s = (Inr (report_of ''running'' ''not-executable''), s)"
    using assms by (simp add: execute_run_item_def execute_with_def)
  then show ?thesis by (induction n) simp_all
qed

definition fx_crashed :: sys where
  "fx_crashed = fx_sys\<lparr>run_items := [fx_item 41, (fx_item 40)\<lparr>ri_status := Item_running\<rparr>]\<rparr>"

theorem running_item_never_recovers_witness:
  "fst (execute_run_item fx_env (fx_worker (fx_provider ''V'')) 40 fx_crashed) =
     Inr (report_of ''running'' ''not-executable'') \<and>
   ((\<lambda>s. snd (execute_run_item fx_env (fx_worker (fx_provider ''V'')) 40 s)) ^^ 100) fx_crashed =
     fx_crashed"
  by (rule running_item_never_recovers
      [where sn = "fx_snapshot Run_running ((fx_item 40)\<lparr>ri_status := Item_running\<rparr>)"]) code_simp+

text \<open>
  C37. When the run has been aborted, a second delivery of an item that had succeeded turns the
  item into a failed one, while its cost stays in the totals of the run.
\<close>

theorem aborted_run_fails_succeeded_item:
  assumes "load_item rid s = Some sn" and "sn_run_status sn = Run_failed"
    and "ri_status (sn_item sn) = Item_succeeded"
  shows "let s' = snd (execute_run_item env w rid s) in
         map_option (\<lambda>r. (ri_status r, ri_error r, ri_cost_usd r)) (fetch ri_id rid (run_items s')) =
           Some (Item_failed, Some ''eval run aborted'', ri_cost_usd (sn_item sn)) \<and>
         totals s' = totals s"
proof -
  note row = load_item_row [OF assms(1)]
  show ?thesis
    using assms row
    by (simp add: execute_run_item_def execute_with_def Let_def fetch_mark totals_def tx_simps)
qed

definition fx_aborted :: sys where
  "fx_aborted = fx_sys\<lparr>eval_runs := [fx_run\<lparr>er_status := Run_failed, er_total_cost_usd := 1\<rparr>],
     run_items := [(fx_item 40)\<lparr>ri_status := Item_succeeded, ri_cost_usd := Some 1\<rparr>]\<rparr>"

theorem aborted_run_fails_succeeded_item_witness:
  "let s' = snd (execute_run_item fx_env (fx_worker (fx_provider ''V'')) 40 fx_aborted) in
   map_option (\<lambda>r. (ri_status r, ri_error r, ri_cost_usd r)) (fetch ri_id 40 (run_items s')) =
     Some (Item_failed, Some ''eval run aborted'', ri_cost_usd (sn_item (fx_snapshot Run_failed
       ((fx_item 40)\<lparr>ri_status := Item_succeeded, ri_cost_usd := Some 1\<rparr>)))) \<and>
   totals s' = totals fx_aborted"
  by (rule aborted_run_fails_succeeded_item) code_simp+

subsection \<open>The attempts, answer by answer\<close>

lemma bump_bump: "bump rid k (bump rid j d) = bump rid (j + k) d"
  by (auto simp: bump_def sql_update_def intro!: arg_cong2 [where f = run_items_update])

lemma tried_compose: "tried rid k ds (tried rid j ds' s) = tried rid (j + k) (ds' @ ds) s"
proof -
  have "tried rid k ds (tried rid j ds' s) =
      (bump rid k (bump rid j s))\<lparr>provider_calls := provider_calls s + j + k,
         sleeps := (sleeps s @ ds') @ ds\<rparr>"
    by (simp add: tried_def bump_def)
  then show ?thesis by (simp only: bump_bump tried_def append_assoc add.assoc)
qed

lemma take_upto: "j \<le> nat n \<Longrightarrow> take j [1..n] = [1..int j]"
  by (rule nth_equalityI) auto

lemma drop_upto: "j < nat n \<Longrightarrow> \<exists>xs. drop j [1..n] = (1 + int j) # xs"
  by (auto simp: Cons_nth_drop_Suc [symmetric])

lemma run_attempts_exhausted:
  assumes "\<And>i. i < nat (max_attempts (we_retry w)) \<Longrightarrow>
      answer w sn (provider_calls s + i) = Inl (RetryableProviderError (m i))"
  shows "run_attempts w sn s =
     (Exhausted (last_message ''None'' m (nat (max_attempts (we_retry w)))),
      tried (sn_rid sn) (nat (max_attempts (we_retry w))) (delays w [1..max_attempts (we_retry w)]) s)"
  unfolding run_attempts_def using assms
  by (subst attempt_loop_retry [where j = "nat (max_attempts (we_retry w))" and m = m]) auto

lemma run_attempts_answered:
  assumes "j < nat (max_attempts (we_retry w))"
    and "\<And>i. i < j \<Longrightarrow> answer w sn (provider_calls s + i) = Inl (RetryableProviderError (m i))"
  shows "answer w sn (provider_calls s + j) = Inr r \<Longrightarrow>
       run_attempts w sn s = (Completed r, tried (sn_rid sn) (Suc j) (delays w [1..int j]) s)"
    and "answer w sn (provider_calls s + j) = Inl (NonRetryableProviderError t) \<Longrightarrow>
       run_attempts w sn s = (Refused t, tried (sn_rid sn) (Suc j) (delays w [1..int j]) s)"
proof -
  obtain xs where xs: "drop j [1..max_attempts (we_retry w)] = (1 + int j) # xs"
    using drop_upto [OF assms(1)] by blast
  have eq: "run_attempts w sn s = attempt_loop w sn ((1 + int j) # xs) (last_message ''None'' m j)
      (tried (sn_rid sn) j (delays w [1..int j]) s)"
    unfolding run_attempts_def
    by (subst attempt_loop_retry [where j = j and m = m]) (use assms in \<open>auto simp: xs take_upto\<close>)
  have st: "(mark_running (sn_rid sn) s')\<lparr>provider_calls := Suc (provider_calls s')\<rparr> =
      tried (sn_rid sn) (Suc j) (delays w [1..int j]) s"
    if "s' = tried (sn_rid sn) j (delays w [1..int j]) s" for s'
    using mark_tried [where rid = "sn_rid sn" and s = s'] tried_compose [of "sn_rid sn" 1 "[]" j "delays w [1..int j]" s]
    by (simp add: that)
  show "run_attempts w sn s = (Completed r, tried (sn_rid sn) (Suc j) (delays w [1..int j]) s)"
    if "answer w sn (provider_calls s + j) = Inr r"
    using that st [OF refl] by (simp add: eq attempt_loop_step Let_def del: attempt_loop.simps)
  show "run_attempts w sn s = (Refused t, tried (sn_rid sn) (Suc j) (delays w [1..int j]) s)"
    if "answer w sn (provider_calls s + j) = Inl (NonRetryableProviderError t)"
    using that st [OF refl] by (simp add: eq attempt_loop_step Let_def del: attempt_loop.simps)
qed

text \<open>A snapshot the guards let through.\<close>

definition executable :: "snapshot \<Rightarrow> bool" where
  "executable sn \<longleftrightarrow> sn_run_status sn \<notin> {Run_cancelled, Run_failed} \<and>
     ri_status (sn_item sn) \<in> {Item_queued, Item_dead_lettered}"

lemma execute_executable:
  "load_item rid s = Some sn \<Longrightarrow> executable sn \<Longrightarrow> execute_with g w rid s = execute_loaded g w sn s"
  by (auto simp: execute_with_def executable_def)

text \<open>
  C20. Retries are exhausted: when the first \<open>max_attempts\<close> answers are retryable errors, the item
  is attempted exactly that often with the backoff delays between, and is then dead-lettered with
  the last error: one message on the dead-letter queue, the counter up by one, and no cost.
\<close>

theorem exhausted_item_is_dead_lettered:
  assumes load: "load_item rid s = Some sn" and ex: "executable sn"
    and pos: "0 < max_attempts (we_retry w)"
    and fail: "\<And>i. i < nat (max_attempts (we_retry w)) \<Longrightarrow>
      answer w sn (provider_calls s + i) = Inl (RetryableProviderError (m i))"
  shows "let N = max_attempts (we_retry w); (r, s') = execute_run_item env w rid s in
         r = Inr (report_of ''dead_lettered'' ''retries-exhausted'') \<and>
         fetch ri_id rid (run_items s') = Some ((sn_item sn)\<lparr>ri_status := Item_dead_lettered,
           ri_attempt_count := ri_attempt_count (sn_item sn) + N,
           ri_error := Some (''exhausted '' @ show_int N @ '' attempts: '' @ m (nat N - 1)),
           ri_updated_at := db_now s\<rparr>) \<and>
         provider_calls s' = provider_calls s + nat N \<and>
         sleeps s' = sleeps s @ map (\<lambda>a. backoff_delay a (we_retry w) (we_jitter w a)) [1..N - 1] \<and>
         dlq s' = dlq s @ [rid] \<and> dead_letters_total s' = dead_letters_total s + 1 \<and>
         redis s' = redis s \<and> totals s' = totals s"
proof -
  define N where "N = max_attempts (we_retry w)"
  note row = load_item_row [OF load]
  have filt: "filter (\<lambda>a. a < N) [1..N] = [1..N - 1]"
    using pos by (simp add: N_def [symmetric] upto_rec2)
  have att: "run_attempts w sn s = (Exhausted (m (nat N - 1)),
      tried rid (nat N) (map (\<lambda>a. backoff_delay a (we_retry w) (we_jitter w a)) [1..N - 1]) s)"
    using run_attempts_exhausted [of w sn s m, OF fail] pos
    by (simp add: N_def [symmetric] row last_message_def delays_def filt)
  let ?s1 = "tried rid (nat N) (map (\<lambda>a. backoff_delay a (we_retry w) (we_jitter w a)) [1..N - 1]) s"
  have "fetch ri_id rid (run_items ?s1) = Some ((sn_item sn)\<lparr>ri_status := Item_running,
      ri_attempt_count := ri_attempt_count (sn_item sn) + N, ri_updated_at := db_now s\<rparr>)"
    using pos row by (simp add: fetch_bump N_def)
  then show ?thesis
    using pos row
    by (simp add: execute_run_item_def execute_executable [OF load ex] execute_loaded_def att
        after_exhausted_def N_def [symmetric] Let_def tx_simps ledger_simps fetch_mark
        inc_dead_letters_def publish_dead_letter_def)
qed

theorem exhausted_item_is_dead_lettered_witness:
  "let N = max_attempts (we_retry (fx_worker fx_limited));
       (r, s') = execute_run_item fx_env (fx_worker fx_limited) 40 fx_sys in
   r = Inr (report_of ''dead_lettered'' ''retries-exhausted'') \<and>
   fetch ri_id 40 (run_items s') = Some ((sn_item (fx_snapshot Run_running (fx_item 40)))
     \<lparr>ri_status := Item_dead_lettered,
      ri_attempt_count := ri_attempt_count (sn_item (fx_snapshot Run_running (fx_item 40))) + N,
      ri_error := Some (''exhausted '' @ show_int N @ '' attempts: '' @ ''HTTP 429''),
      ri_updated_at := db_now fx_sys\<rparr>) \<and>
   provider_calls s' = provider_calls fx_sys + nat N \<and>
   sleeps s' = sleeps fx_sys @ map (\<lambda>a. backoff_delay a (we_retry (fx_worker fx_limited))
     (we_jitter (fx_worker fx_limited) a)) [1..N - 1] \<and>
   dlq s' = dlq fx_sys @ [40] \<and> dead_letters_total s' = dead_letters_total fx_sys + 1 \<and>
   redis s' = redis fx_sys \<and> totals s' = totals fx_sys"
proof (rule exhausted_item_is_dead_lettered [where m = "\<lambda>_. ''HTTP 429''"])
  show "load_item 40 fx_sys = Some (fx_snapshot Run_running (fx_item 40))" by code_simp
  show "executable (fx_snapshot Run_running (fx_item 40))" by code_simp
  show "0 < max_attempts (we_retry (fx_worker fx_limited))" by code_simp
  show "answer (fx_worker fx_limited) (fx_snapshot Run_running (fx_item 40)) (provider_calls fx_sys + i) =
      Inl (RetryableProviderError ''HTTP 429'')" for i
    by (simp add: answer_def effective_provider_def fx_snapshot_def fx_worker_def fx_defs)
qed

text \<open>
  A refusal (an error the provider adapter calls non-retryable) after \<open>j\<close> retryable failures
  ends the attempts at once: the item fails with the provider's message after exactly \<open>j + 1\<close>
  calls, nothing reaches the dead-letter queue and no cost is recorded.
\<close>

theorem refused_item_fails:
  assumes load: "load_item rid s = Some sn" and ex: "executable sn"
    and j: "j < nat (max_attempts (we_retry w))"
    and fail: "\<And>i. i < j \<Longrightarrow> answer w sn (provider_calls s + i) = Inl (RetryableProviderError (m i))"
    and ref: "answer w sn (provider_calls s + j) = Inl (NonRetryableProviderError t)"
  shows "let (r, s') = execute_run_item env w rid s in
         r = Inr (report_of ''failed'' ''non-retryable'') \<and>
         fetch ri_id rid (run_items s') = Some ((sn_item sn)\<lparr>ri_status := Item_failed,
           ri_attempt_count := ri_attempt_count (sn_item sn) + int (Suc j), ri_error := Some t,
           ri_updated_at := db_now s\<rparr>) \<and>
         provider_calls s' = provider_calls s + Suc j \<and> length (sleeps s') = length (sleeps s) + j \<and>
         dlq s' = dlq s \<and> redis s' = redis s \<and> totals s' = totals s"
proof -
  note row = load_item_row [OF load]
  have len: "length (delays w [1..int j]) = j"
  proof -
    have "filter (\<lambda>a. a < max_attempts (we_retry w)) [1..int j] = [1..int j]"
      using j by (intro filter_True) auto
    then show ?thesis by (simp add: delays_def)
  qed
  show ?thesis
    using row len
    by (simp add: execute_run_item_def execute_executable [OF load ex] execute_loaded_def
        run_attempts_answered(2) [OF j fail ref] after_refused_def tx_simps ledger_simps fetch_mark
        fetch_bump)
qed

theorem refused_item_fails_witness:
  "let (r, s') = execute_run_item fx_env (fx_worker fx_refused) 40 fx_sys in
   r = Inr (report_of ''failed'' ''non-retryable'') \<and>
   fetch ri_id 40 (run_items s') = Some ((sn_item (fx_snapshot Run_running (fx_item 40)))
     \<lparr>ri_status := Item_failed,
      ri_attempt_count := ri_attempt_count (sn_item (fx_snapshot Run_running (fx_item 40))) + int (Suc 0),
      ri_error := Some ''HTTP 401'', ri_updated_at := db_now fx_sys\<rparr>) \<and>
   provider_calls s' = provider_calls fx_sys + Suc 0 \<and>
   length (sleeps s') = length (sleeps fx_sys) + 0 \<and>
   dlq s' = dlq fx_sys \<and> redis s' = redis fx_sys \<and> totals s' = totals fx_sys"
  by (rule refused_item_fails) code_simp+

end
