(* ===== verification/Worker_Success.thy ===== *)
theory Worker_Success
  imports Worker_Outcomes
begin

text \<open>
  The completed execution: the finalizing transaction commits when the values fit their columns,
  and from there to the end (spend guard, grading, completion check) neither the money of the item
  nor the totals of the run change again. The spend guard and the completion check themselves are
  specified at the end.
\<close>

subsection \<open>The finalizing transaction of an item that is running\<close>

text \<open>The driver and the columns accept the numbers of a completion.\<close>

definition columns_fit :: "snapshot \<Rightarrow> completion_result \<Rightarrow> 'a db_scheme \<Rightarrow> bool" where
  "columns_fit sn r d \<longleftrightarrow>
     (let cost = compute_cost (me_model_id (sn_endpoint sn)) (cr_prompt_tokens r) (cr_completion_tokens r);
          dt = cr_prompt_tokens r + cr_completion_tokens r - prev_tokens sn
      in int4 (cr_latency_ms r) \<and> int4 (cr_prompt_tokens r) \<and> int4 (cr_completion_tokens r) \<and>
         numeric_fits 12 6 cost \<and> int4 dt \<and>
         list_all (\<lambda>e. er_id e = sn_run_id sn \<longrightarrow>
           numeric_fits 12 6 (er_total_cost_usd e + (cost - prev_cost sn)) \<and>
           int4 (er_total_tokens e + dt)) (eval_runs d))"

text \<open>The row of a finalized item and the totals with one run's share moved.\<close>

definition finalized :: "snapshot \<Rightarrow> completion_result \<Rightarrow> timestamp \<Rightarrow> run_item \<Rightarrow> run_item" where
  "finalized sn r now ri = ri\<lparr>ri_status := Item_succeeded, ri_latency_ms := Some (cr_latency_ms r),
     ri_prompt_tokens := Some (cr_prompt_tokens r),
     ri_completion_tokens := Some (cr_completion_tokens r),
     ri_cost_usd := Some (compute_cost (me_model_id (sn_endpoint sn)) (cr_prompt_tokens r)
       (cr_completion_tokens r)),
     ri_error := None, ri_artifact_key := Some (build_artifact_key (sn_rid sn)), ri_updated_at := now\<rparr>"

definition charged :: "snapshot \<Rightarrow> completion_result \<Rightarrow> (uuid \<times> rat \<times> int) list \<Rightarrow>
    (uuid \<times> rat \<times> int) list" where
  "charged sn r = map (\<lambda>(k, c, t). if k = sn_run_id sn
     then (k, c + (compute_cost (me_model_id (sn_endpoint sn)) (cr_prompt_tokens r)
                     (cr_completion_tokens r) - prev_cost sn),
           t + (cr_prompt_tokens r + cr_completion_tokens r - prev_tokens sn))
     else (k, c, t))"

lemma finalize_completion_written:
  assumes "columns_fit sn r s" and "distinct (map ri_id (run_items s))"
    and "fetch ri_id (sn_rid sn) (run_items s) = Some r0" and "ri_status r0 = Item_running"
  obtains s' where
    "finalize_completion sn r (build_artifact_key (sn_rid sn)) s = Inr (True, (s'::sys))"
    "fetch ri_id (sn_rid sn) (run_items s') = Some (finalized sn r (db_now s) r0)"
    "totals s' = charged sn r (totals s)" "redis s' = redis s" "provider_calls s' = provider_calls s"
    "sleeps s' = sleeps s" "dlq s' = dlq s" "db_now s' = db_now s"
    "map er_id (eval_runs s') = map er_id (eval_runs s)"
    "map er_status (eval_runs s') = map er_status (eval_runs s)"
proof -
  have rc: "rowcount (\<lambda>r. ri_id r = sn_rid sn \<and> ri_status r = Item_running) (run_items s) = 1"
    using assms by (simp add: rowcount_key)
  have ne: "\<not> exists_row (\<lambda>e. er_id e = sn_run_id sn \<and> \<not> (numeric_fits 12 6 (er_total_cost_usd e +
        (compute_cost (me_model_id (sn_endpoint sn)) (cr_prompt_tokens r) (cr_completion_tokens r) -
          prev_cost sn)) \<and>
        int4 (er_total_tokens e + (cr_prompt_tokens r + cr_completion_tokens r - prev_tokens sn))))
      (eval_runs s)"
    using assms(1) by (auto simp: exists_row_iff columns_fit_def Let_def list_all_iff)
  have id: "ri_id r0 = sn_rid sn" using assms(3) by (auto dest: fetch_SomeD)
  show thesis
  proof (rule that)
    show "finalize_completion sn r (build_artifact_key (sn_rid sn)) s = Inr (True,
        eval_runs_update (sql_update (\<lambda>e. er_id e = sn_run_id sn)
          (\<lambda>e. e\<lparr>er_total_cost_usd := er_total_cost_usd e +
                   (compute_cost (me_model_id (sn_endpoint sn)) (cr_prompt_tokens r)
                      (cr_completion_tokens r) - prev_cost sn),
                 er_total_tokens := er_total_tokens e +
                   (cr_prompt_tokens r + cr_completion_tokens r - prev_tokens sn)\<rparr>))
        (run_items_update (sql_update (\<lambda>r. ri_id r = sn_rid sn \<and> ri_status r = Item_running)
          (finalized sn r (db_now s))) s))" (is "_ = Inr (True, ?s')")
      using assms(1) rc ne
      by (simp add: finalize_completion_def finalize_item_def Let_def columns_fit_def
          finalized_def [abs_def])
    show "fetch ri_id (sn_rid sn) (run_items ?s') = Some (finalized sn r (db_now s) r0)"
      using assms(3,4) id by (simp add: fetch_sql_update finalized_def)
    show "totals ?s' = charged sn r (totals s)"
      by (simp add: totals_def charged_def sql_update_def o_def)
    show "map er_id (eval_runs ?s') = map er_id (eval_runs s)" by (simp add: map_sql_update)
    show "map er_status (eval_runs ?s') = map er_status (eval_runs s)" by (simp add: map_sql_update)
  qed simp_all
qed

subsection \<open>From the finalizing transaction to the report\<close>

text \<open>The item's row and the rest of the state after the last steps, for each report.\<close>

definition settled :: "run_item \<Rightarrow> exn + report \<Rightarrow> run_item option \<Rightarrow> bool" where
  "settled r rep row \<longleftrightarrow>
     rep \<in> {Inr \<lparr>rep_status = ''succeeded'', rep_reason = None\<rparr>,
             Inr (report_of ''succeeded'' ''run-aborted'')} \<and> row = Some r \<or>
     rep = Inr (report_of ''failed'' ''grading-failed'') \<and>
       (\<exists>err. row = Some (r\<lparr>ri_status := Item_failed, ri_error := Some err\<rparr>))"

lemma abort_fetch_succeeded:
  assumes "fetch ri_id rid (run_items d) = Some r" and "ri_status r = Item_succeeded"
    and "abort_over_budget k l t d = (b, d')"
  shows "fetch ri_id rid (run_items d') = Some r"
proof -
  have "fetch ri_id rid (run_items (snd (abort_over_budget k l t d))) = Some r"
    using assms(1,2) by (simp add: abort_over_budget_def Let_def fetch_sql_update)
  then show ?thesis by (simp add: assms(3))
qed

lemma abort_sys:
  assumes "abort_over_budget k l t (s::sys) = (b, s')"
  shows "redis s' = redis s" "dlq s' = dlq s" "sleeps s' = sleeps s" "totals s' = totals s"
    "db_now s' = db_now s" "provider_calls s' = provider_calls s"
proof -
  have "redis (snd (abort_over_budget k l t s)) = redis s" "dlq (snd (abort_over_budget k l t s)) = dlq s"
    "sleeps (snd (abort_over_budget k l t s)) = sleeps s" "db_now (snd (abort_over_budget k l t s)) = db_now s"
    "provider_calls (snd (abort_over_budget k l t s)) = provider_calls s"
    by (simp_all add: abort_over_budget_def Let_def)
  then show "redis s' = redis s" "dlq s' = dlq s" "sleeps s' = sleeps s" "totals s' = totals s"
    "db_now s' = db_now s" "provider_calls s' = provider_calls s"
    using abort_books(3) [of k l t s] by (simp_all add: assms)
qed

context grading_step
begin

lemma grade_and_complete_settled:
  assumes row: "fetch ri_id (sn_rid sn) (run_items s) = Some r1" and now: "ri_updated_at r1 = db_now s"
    and out: "grade_and_complete gstep sn c s = (rep, s')"
  shows "settled r1 rep (fetch ri_id (sn_rid sn) (run_items s'))"
    "totals s' = totals s" "redis s' = redis s" "dlq s' = dlq s" "sleeps s' = sleeps s"
proof -
  obtain g s1 where g: "gstep (sn_rid sn) (sn_task sn) (cr_text c) s = (g, s1)" by fastforce
  have same: "run_items s1 = run_items s" "eval_runs s1 = eval_runs s" "redis s1 = redis s" "dlq s1 = dlq s"
    "sleeps s1 = sleeps s" "db_now s1 = db_now s"
    using keeps_run_items [of "sn_rid sn" "sn_task sn" "cr_text c" s]
      keeps_eval_runs [of "sn_rid sn" "sn_task sn" "cr_text c" s]
      keeps_redis [of "sn_rid sn" "sn_task sn" "cr_text c" s]
      keeps_dlq [of "sn_rid sn" "sn_task sn" "cr_text c" s]
      keeps_sleeps [of "sn_rid sn" "sn_task sn" "cr_text c" s]
      keeps_clock [of "sn_rid sn" "sn_task sn" "cr_text c" s]
    by (simp_all add: g)
  have tot: "totals s1 = totals s" by (simp add: totals_def same)
  have id: "ri_id r1 = sn_rid sn" using row by (auto dest: fetch_SomeD)
  have upd: "r1\<lparr>ri_status := Item_failed, ri_error := Some e, ri_updated_at := db_now s\<rparr> =
      r1\<lparr>ri_status := Item_failed, ri_error := Some e\<rparr>" for e
    using now by simp
  show "settled r1 rep (fetch ri_id (sn_rid sn) (run_items s'))"
    "totals s' = totals s" "redis s' = redis s" "dlq s' = dlq s" "sleeps s' = sleeps s"
    using out row id upd
    by (auto simp: grade_and_complete_def g same tot settled_def tx_simps ledger_simps fetch_mark
        split: sum.splits)
qed

lemma after_completion_settled:
  assumes fit: "columns_fit sn c s" and dist: "distinct (map ri_id (run_items s))"
    and row: "fetch ri_id (sn_rid sn) (run_items s) = Some r0" and run: "ri_status r0 = Item_running"
    and live: "run_status_of (sn_run_id sn) s \<noteq> Some Run_cancelled"
    and out: "after_completion gstep w sn c s = (rep, s')"
  shows "settled (finalized sn c (db_now s) r0) rep (fetch ri_id (sn_rid sn) (run_items s'))"
    "totals s' = charged sn c (totals s)" "dlq s' = dlq s" "sleeps s' = sleeps s"
    "redis s' = (redis s)(build_artifact_key (sn_rid sn) \<mapsto> artifact_of (sn_task sn) (sn_endpoint sn) c)"
proof -
  define s1 where "s1 = s\<lparr>redis := (redis s)(build_artifact_key (sn_rid sn) \<mapsto>
    artifact_of (sn_task sn) (sn_endpoint sn) c)\<rparr>"
  have art: "set_artifact (sn_rid sn) (artifact_of (sn_task sn) (sn_endpoint sn) c) s =
      (build_artifact_key (sn_rid sn), s1)"
    by (simp add: set_artifact_def s1_def Let_def)
  obtain s2 where
    fin: "finalize_completion sn c (build_artifact_key (sn_rid sn)) s1 = Inr (True, s2)"
      "fetch ri_id (sn_rid sn) (run_items s2) = Some (finalized sn c (db_now s1) r0)"
      "totals s2 = charged sn c (totals s1)" "redis s2 = redis s1" "sleeps s2 = sleeps s1"
      "dlq s2 = dlq s1" "db_now s2 = db_now s1"
    by (rule finalize_completion_written [of sn c s1 r0])
       (use fit dist row run in \<open>simp_all add: s1_def columns_fit_def\<close>)
  obtain b s3 where ab: "abort_over_budget (sn_run_id sn) (we_spend_limit w) (we_spend_text w) s2 =
      (b, s3)" by fastforce
  have row3: "fetch ri_id (sn_rid sn) (run_items s3) = Some (finalized sn c (db_now s1) r0)"
    by (rule abort_fetch_succeeded [OF fin(2) _ ab]) (simp add: finalized_def)
  have now3: "ri_updated_at (finalized sn c (db_now s1) r0) = db_now s3"
    by (simp add: finalized_def abort_sys(5) [OF ab] fin(7))
  note eqs = abort_sys [OF ab] fin(3-7)
  have s: "totals s1 = totals s" "sleeps s1 = sleeps s" "dlq s1 = dlq s" "db_now s1 = db_now s"
    "redis s1 = (redis s)(build_artifact_key (sn_rid sn) \<mapsto> artifact_of (sn_task sn) (sn_endpoint sn) c)"
    by (simp_all add: s1_def)
  have res: "settled (finalized sn c (db_now s) r0) rep (fetch ri_id (sn_rid sn) (run_items s')) \<and>
    totals s' = totals s3 \<and> dlq s' = dlq s3 \<and> sleeps s' = sleeps s3 \<and> redis s' = redis s3"
  proof (cases b)
    case True
    with out live row3 show ?thesis
      by (auto simp: after_completion_def art fin(1) ab settled_def s)
  next
    case False
    then have "grade_and_complete gstep sn c s3 = (rep, s')"
      using out live by (simp add: after_completion_def art fin(1) ab)
    from grade_and_complete_settled [OF row3 now3 this] show ?thesis by (simp add: s)
  qed
  then show "settled (finalized sn c (db_now s) r0) rep (fetch ri_id (sn_rid sn) (run_items s'))"
    "totals s' = charged sn c (totals s)" "dlq s' = dlq s" "sleeps s' = sleeps s"
    "redis s' = (redis s)(build_artifact_key (sn_rid sn) \<mapsto> artifact_of (sn_task sn) (sn_endpoint sn) c)"
    by (simp_all add: eqs s)
qed

end

text \<open>
  C19. A completion after \<open>j\<close> retryable failures is recorded once and for all: the artifact is
  stored, the item has its cost, tokens, latency and \<open>j + 1\<close> more attempts, and the totals of its
  run (of no other) move by the difference to what the item had recorded; this holds whether the
  spend guard then aborts the run, the grading succeeds, or the grading fails and takes the item
  from succeeded to failed with it.
\<close>

theorem completion_is_recorded:
  assumes load: "load_item rid s = Some sn" and ex: "executable sn" and keys: "keys_ok s"
    and j: "j < nat (max_attempts (we_retry w))"
    and fail: "\<And>i. i < j \<Longrightarrow> answer w sn (provider_calls s + i) = Inl (RetryableProviderError (m i))"
    and ans: "answer w sn (provider_calls s + j) = Inr c" and fit: "columns_fit sn c s"
  shows "let (rep, s') = execute_run_item env w rid s in
         settled (finalized sn c (db_now s)
             ((sn_item sn)\<lparr>ri_attempt_count := ri_attempt_count (sn_item sn) + int (Suc j)\<rparr>))
           rep (fetch ri_id rid (run_items s')) \<and>
         totals s' = charged sn c (totals s) \<and> dlq s' = dlq s \<and>
         length (sleeps s') = length (sleeps s) + j \<and>
         redis s' = (redis s)(build_artifact_key rid \<mapsto> artifact_of (sn_task sn) (sn_endpoint sn) c)"
proof -
  note row = load_item_row [OF load]
  define s1 where "s1 = tried rid (Suc j) (delays w [1..int j]) s"
  obtain rep s' where out: "after_completion (grade_run_item env (we_provider w)) w sn c s1 = (rep, s')"
    by fastforce
  have exe: "execute_run_item env w rid s = (rep, s')"
    using out row
    by (simp add: execute_run_item_def execute_executable [OF load ex] execute_loaded_def
        run_attempts_answered(1) [OF j fail ans] s1_def)
  let ?r0 = "(sn_item sn)\<lparr>ri_status := Item_running,
    ri_attempt_count := ri_attempt_count (sn_item sn) + int (Suc j), ri_updated_at := db_now s\<rparr>"
  have r0: "fetch ri_id (sn_rid sn) (run_items s1) = Some ?r0"
    using row by (simp add: s1_def fetch_bump)
  have dist: "distinct (map ri_id (run_items s1))"
    using keys by (simp add: s1_def keys_ok_def)
  have live: "run_status_of (sn_run_id sn) s1 \<noteq> Some Run_cancelled"
    using load ex by (auto simp: run_status_of_def s1_def executable_def elim!: load_item_Some)
  have fit1: "columns_fit sn c s1" using fit by (simp add: columns_fit_def s1_def)
  have len: "length (delays w [1..int j]) = j"
  proof -
    have "filter (\<lambda>a. a < max_attempts (we_retry w)) [1..int j] = [1..int j]"
      using j by (intro filter_True) auto
    then show ?thesis by (simp add: delays_def)
  qed
  have fin: "finalized sn c now (x\<lparr>ri_status := st, ri_attempt_count := n, ri_updated_at := t\<rparr>) =
      finalized sn c now (x\<lparr>ri_attempt_count := n\<rparr>)" for now x st n t
    by (simp add: finalized_def)
  from pipeline.after_completion_settled [OF fit1 dist r0 _ live out] row
  show ?thesis by (simp add: exe s1_def fin len)
qed

text \<open>A provider that is rate limited twice before it answers.\<close>

definition fx_flaky :: provider where
  "fx_flaky = (\<lambda>b q m i. if i < 2 then fx_limited b q m i else fx_provider ''V'' b q m i)"

definition fx_completion :: completion_result where
  "fx_completion = \<lparr>cr_text = ''V'', cr_prompt_tokens = 1000, cr_completion_tokens = 500,
     cr_latency_ms = 12\<rparr>"

theorem completion_is_recorded_witness:
  "let (rep, s') = execute_run_item fx_env (fx_worker fx_flaky) 40 fx_sys;
       sn = fx_snapshot Run_running (fx_item 40) in
   settled (finalized sn fx_completion (db_now fx_sys)
       ((sn_item sn)\<lparr>ri_attempt_count := ri_attempt_count (sn_item sn) + int (Suc 2)\<rparr>))
     rep (fetch ri_id 40 (run_items s')) \<and>
   totals s' = charged sn fx_completion (totals fx_sys) \<and> dlq s' = dlq fx_sys \<and>
   length (sleeps s') = length (sleeps fx_sys) + 2 \<and>
   redis s' = (redis fx_sys)(build_artifact_key 40 \<mapsto>
     artifact_of (sn_task sn) (sn_endpoint sn) fx_completion)"
  unfolding Let_def [of "fx_snapshot Run_running (fx_item 40)"]
proof (rule completion_is_recorded [where m = "\<lambda>_. ''HTTP 429''"])
  fix i :: nat assume "i < 2"
  then show "answer (fx_worker fx_flaky) (fx_snapshot Run_running (fx_item 40)) (provider_calls fx_sys + i) =
      Inl (RetryableProviderError ''HTTP 429'')"
    by (simp add: answer_def effective_provider_def fx_snapshot_def fx_worker_def fx_flaky_def fx_defs)
qed code_simp+

subsection \<open>The spend guard and the completion check\<close>

text \<open>
  The spend guard acts exactly when the run is running and its total is strictly above the
  limit. Then the run is failed and every queued item of it too, and nothing else changes;
  otherwise nothing changes at all. Money recorded so far is never touched.
\<close>

theorem spend_guard:
  assumes "distinct (map er_id (eval_runs d))"
  shows "let (aborted, d') = abort_over_budget k limit txt d in
         (aborted \<longleftrightarrow> (\<exists>e. fetch er_id k (eval_runs d) = Some e \<and> er_status e = Run_running \<and>
                        limit < er_total_cost_usd e)) \<and>
         (\<not> aborted \<longrightarrow> d' = d) \<and>
         (aborted \<longrightarrow> run_status_of k d' = Some Run_failed \<and>
           (\<forall>i. i \<noteq> k \<longrightarrow> fetch er_id i (eval_runs d') = fetch er_id i (eval_runs d)) \<and>
           (\<forall>i. map_option ri_status (fetch ri_id i (run_items d')) =
              map_option (\<lambda>r. if ri_eval_run_id r = k \<and> ri_status r = Item_queued then Item_failed
                             else ri_status r) (fetch ri_id i (run_items d)))) \<and>
         totals d' = totals d \<and> cost_book d' = cost_book d"
proof -
  let ?p = "\<lambda>e. er_id e = k \<and> (er_status e = Run_running \<and> limit < er_total_cost_usd e)"
  have rc: "rowcount ?p (eval_runs d) = (case fetch er_id k (eval_runs d) of None \<Rightarrow> 0
      | Some e \<Rightarrow> if er_status e = Run_running \<and> limit < er_total_cost_usd e then 1 else 0)"
    by (rule rowcount_key [OF assms])
  have money: "totals (snd (abort_over_budget k limit txt d)) = totals d"
    "cost_book (snd (abort_over_budget k limit txt d)) = cost_book d"
    by (simp_all add: ledger_simps)
  show ?thesis
  proof (cases "rowcount ?p (eval_runs d) = 1")
    case True
    then obtain e where e: "fetch er_id k (eval_runs d) = Some e" "er_status e = Run_running"
        "limit < er_total_cost_usd e"
      by (auto simp: rc split: option.splits if_splits)
    have ek: "er_id e = k" using e(1) by (auto dest: fetch_SomeD)
    let ?d' = "snd (abort_over_budget k limit txt d)"
    define err where "err = ''aborted: projected spend exceeds limit of $'' @ txt"
    have d': "abort_over_budget k limit txt d = (True, run_items_update (sql_update
        (\<lambda>r. ri_eval_run_id r = k \<and> ri_status r = Item_queued)
        (\<lambda>r. r\<lparr>ri_status := Item_failed, ri_error := Some ''aborted: eval run spend limit exceeded'',
               ri_updated_at := db_now d\<rparr>))
        (eval_runs_update (sql_update ?p (\<lambda>e. e\<lparr>er_status := Run_failed,
           er_completed_at := Some (db_now d), er_error := Some err\<rparr>)) d))"
      using True by (simp add: abort_over_budget_def err_def)
    have "run_status_of k ?d' = Some Run_failed"
      using e ek by (simp add: d' run_status_of_def fetch_sql_update)
    moreover have "fetch er_id i (eval_runs ?d') = fetch er_id i (eval_runs d)" if "i \<noteq> k" for i
      using that by (cases "fetch er_id i (eval_runs d)") (auto simp: d' fetch_sql_update dest: fetch_SomeD)
    moreover have "map_option ri_status (fetch ri_id i (run_items ?d')) =
        map_option (\<lambda>r. if ri_eval_run_id r = k \<and> ri_status r = Item_queued then Item_failed
                       else ri_status r) (fetch ri_id i (run_items d))" for i
      by (cases "fetch ri_id i (run_items d)") (simp_all add: d' fetch_sql_update)
    moreover have "fst (abort_over_budget k limit txt d)" by (simp add: d')
    ultimately show ?thesis
      using e money by (simp add: case_prod_unfold Let_def)
  next
    case False
    then have zero: "rowcount ?p (eval_runs d) = 0"
      by (auto simp: rc split: option.splits if_splits)
    then have "abort_over_budget k limit txt d = (False, d)"
      by (simp add: abort_over_budget_def Let_def er.put_noop)
    then show ?thesis using zero by (auto simp: rc)
  qed
qed

theorem spend_guard_witness:
  "let (aborted, d') = abort_over_budget 30 (-1) ''-1'' fx_sys in
   (aborted \<longleftrightarrow> (\<exists>e. fetch er_id 30 (eval_runs fx_sys) = Some e \<and> er_status e = Run_running \<and>
                  -1 < er_total_cost_usd e)) \<and>
   (\<not> aborted \<longrightarrow> d' = fx_sys) \<and>
   (aborted \<longrightarrow> run_status_of 30 d' = Some Run_failed \<and>
     (\<forall>i. i \<noteq> 30 \<longrightarrow> fetch er_id i (eval_runs d') = fetch er_id i (eval_runs fx_sys)) \<and>
     (\<forall>i. map_option ri_status (fetch ri_id i (run_items d')) =
        map_option (\<lambda>r. if ri_eval_run_id r = 30 \<and> ri_status r = Item_queued then Item_failed
                       else ri_status r) (fetch ri_id i (run_items fx_sys)))) \<and>
   totals d' = totals fx_sys \<and> cost_book d' = cost_book fx_sys"
  by (rule spend_guard) code_simp

lemma maybe_complete_run_row:
  "fetch er_id i (eval_runs (maybe_complete_run k d)) =
     map_option (\<lambda>e. if i = k \<and> er_status e = Run_running \<and> list_all (\<lambda>r. \<not> unfinished k r) (run_items d)
        then e\<lparr>er_status := if list_ex (\<lambda>r. ri_eval_run_id r = k \<and>
                                  ri_status r = Item_dead_lettered) (run_items d) then Run_failed else Run_completed,
               er_completed_at := Some (db_now d)\<rparr>
        else e) (fetch er_id i (eval_runs d)) \<and>
   run_items (maybe_complete_run k d) = run_items d"
proof -
  have "er_id e = i" if "fetch er_id i (eval_runs d) = Some e" for e
    using that by (auto dest: fetch_SomeD)
  then show ?thesis
    by (cases "fetch er_id i (eval_runs d)")
       (auto simp: complete_run_defs Let_def fetch_sql_update rowcount_zero_iff exists_row_def
         list_all_iff)
qed

text \<open>
  The completion check changes one run at most: a running one without queued or running items
  becomes failed when an item of it is dead-lettered and completed otherwise, stamped with the time.
\<close>

theorem completion_check:
  "fetch er_id i (eval_runs (maybe_complete_run k d)) =
     map_option (\<lambda>e. if i = k \<and> er_status e = Run_running \<and> list_all (\<lambda>r. \<not> unfinished k r) (run_items d)
        then e\<lparr>er_status := if list_ex (\<lambda>r. ri_eval_run_id r = k \<and>
                                  ri_status r = Item_dead_lettered) (run_items d) then Run_failed else Run_completed,
               er_completed_at := Some (db_now d)\<rparr>
        else e) (fetch er_id i (eval_runs d)) \<and>
   run_items (maybe_complete_run k d) = run_items d"
  by (rule maybe_complete_run_row)

end
