(* ===== verification/Eval_Runs.thy ===== *)
theory Eval_Runs
  imports Worker_Success "HOL-Library.List_Lexorder"
begin

text \<open>
  \<open>app/api/v1/eval_runs.py\<close> and \<open>app/api/v1/dead_letters.py\<close>: creating a run with one item per task
  and endpoint, reading it with its per-model aggregates, cancelling it, listing its dead letters
  and replaying one. A handler returns its response or the HTTP error, with the state; each is one
  database transaction followed by the messages it publishes. Floats of the responses are the
  decimals they are converted from. \<open>datetime.now\<close> reads the same clock as the database.
\<close>

subsection \<open>Creating a run\<close>

text \<open>\<open>list(dict.fromkeys(xs))\<close>: the first occurrence of each element, in order.\<close>

fun dict_fromkeys :: "'k list \<Rightarrow> 'k list" where
  "dict_fromkeys [] = []"
| "dict_fromkeys (x # xs) = x # filter (\<lambda>y. y \<noteq> x) (dict_fromkeys xs)"

definition new_eval_run :: "uuid \<Rightarrow> uuid \<Rightarrow> timestamp \<Rightarrow> eval_run" where
  "new_eval_run i task_set_id now =
     \<lparr>er_id = i, er_task_set_id = task_set_id, er_status = Run_running, er_started_at = Some now,
      er_completed_at = None, er_total_cost_usd = 0, er_total_tokens = 0, er_error = None,
      er_created_at = now\<rparr>"

definition new_run_item :: "uuid \<Rightarrow> timestamp \<Rightarrow> uuid \<Rightarrow> task \<Rightarrow> model_endpoint \<Rightarrow> run_item" where
  "new_run_item run_id now i t ep =
     \<lparr>ri_id = i, ri_eval_run_id = run_id, ri_task_id = tk_id t, ri_model_endpoint_id = me_id ep,
      ri_status = Item_queued, ri_attempt_count = 0, ri_latency_ms = None, ri_prompt_tokens = None,
      ri_completion_tokens = None, ri_cost_usd = None, ri_error = None, ri_artifact_key = None,
      ri_created_at = now, ri_updated_at = now\<rparr>"

definition run_items_for ::
  "uuid \<Rightarrow> timestamp \<Rightarrow> uuid \<Rightarrow> task list \<Rightarrow> model_endpoint list \<Rightarrow> run_item list" where
  "run_items_for run_id now i ts eps =
     map (\<lambda>(j, t, ep). new_run_item run_id now j t ep) (enumerate i (List.product ts eps))"

definition create_eval_run :: "uuid \<Rightarrow> uuid list \<Rightarrow> sys \<Rightarrow> (http_error + uuid \<times> eval_run_status) \<times> sys" where
  "create_eval_run task_set_id model_endpoint_ids s =
     (case fetch ts_id task_set_id (task_sets s) of
        None \<Rightarrow> (Inl (HTTPException 404 ''Task set not found''), s)
      | Some _ \<Rightarrow>
          (let endpoint_ids = dict_fromkeys model_endpoint_ids;
               endpoints = filter (\<lambda>ep. me_id ep \<in> set endpoint_ids) (model_endpoints s);
               missing = filter (\<lambda>i. i \<notin> me_id ` set endpoints) endpoint_ids
           in if missing \<noteq> []
              then (Inl (HTTPException 400
                      (''unknown model endpoint ids: '' @ join '', '' (map uuid_str missing))), s)
              else
                (let ts = filter (\<lambda>t. tk_task_set_id t = task_set_id) (tasks s);
                     run = new_eval_run (uuid_next s) task_set_id (db_now s)
                 in if ts = [] \<or> endpoints = []
                    then (Inr (er_id run, Run_completed),
                          s\<lparr>eval_runs := eval_runs s @ [run\<lparr>er_status := Run_completed,
                                                        er_completed_at := Some (db_now s)\<rparr>],
                            uuid_next := uuid_next s + 1\<rparr>)
                    else
                      (let items = run_items_for (er_id run) (db_now s) (uuid_next s + 1) ts endpoints
                       in (Inr (er_id run, er_status run),
                           fold enqueue_run_item (map ri_id items)
                             (s\<lparr>eval_runs := eval_runs s @ [run], run_items := run_items s @ items,
                                uuid_next := uuid_next s + 1 + length items\<rparr>))))))"

subsection \<open>Reading a run\<close>

record status_counts =
  sc_queued :: nat
  sc_running :: nat
  sc_succeeded :: nat
  sc_failed :: nat
  sc_dead_lettered :: nat

record model_aggregate =
  ma_model_endpoint_id :: uuid
  ma_name :: string
  ma_counts :: status_counts
  ma_mean_latency_ms :: "rat option"
  ma_total_cost_usd :: rat

record eval_run_read =
  rr_id :: uuid
  rr_task_set_id :: uuid
  rr_status :: eval_run_status
  rr_created_at :: timestamp
  rr_started_at :: "timestamp option"
  rr_completed_at :: "timestamp option"
  rr_total_cost_usd :: rat
  rr_total_tokens :: int
  rr_models :: "model_aggregate list"

record dead_letter_read =
  dl_run_item_id :: uuid
  dl_eval_run_id :: uuid
  dl_task_id :: uuid
  dl_model_endpoint_id :: uuid
  dl_attempt_count :: int
  dl_error :: "string option"
  dl_created_at :: timestamp

definition items_of_model :: "'a db_scheme \<Rightarrow> uuid \<Rightarrow> uuid \<Rightarrow> run_item list" where
  "items_of_model d run_id m =
     filter (\<lambda>r. ri_eval_run_id r = run_id \<and> ri_model_endpoint_id r = m) (run_items d)"

definition count_status :: "run_item list \<Rightarrow> run_item_status \<Rightarrow> nat" where
  "count_status rows st = rowcount (\<lambda>r. ri_status r = st) rows"

definition model_aggregate_of :: "'a db_scheme \<Rightarrow> uuid \<Rightarrow> uuid \<Rightarrow> model_aggregate" where
  "model_aggregate_of d run_id m =
     (let rows = items_of_model d run_id m in
      \<lparr>ma_model_endpoint_id = m,
       ma_name = (case fetch me_id m (model_endpoints d) of None \<Rightarrow> ''unknown'' | Some ep \<Rightarrow> me_name ep),
       ma_counts = \<lparr>sc_queued = count_status rows Item_queued, sc_running = count_status rows Item_running,
         sc_succeeded = count_status rows Item_succeeded, sc_failed = count_status rows Item_failed,
         sc_dead_lettered = count_status rows Item_dead_lettered\<rparr>,
       ma_mean_latency_ms = mean (map of_int (List.map_filter ri_latency_ms rows)),
       ma_total_cost_usd = sum_list (List.map_filter ri_cost_usd rows)\<rparr>)"

definition read_eval_run :: "'a db_scheme \<Rightarrow> eval_run \<Rightarrow> eval_run_read" where
  "read_eval_run d run =
     (let model_ids = remdups (map ri_model_endpoint_id
                        (filter (\<lambda>r. ri_eval_run_id r = er_id run) (run_items d)))
      in \<lparr>rr_id = er_id run, rr_task_set_id = er_task_set_id run, rr_status = er_status run,
          rr_created_at = er_created_at run, rr_started_at = er_started_at run,
          rr_completed_at = er_completed_at run, rr_total_cost_usd = er_total_cost_usd run,
          rr_total_tokens = er_total_tokens run,
          rr_models = sort_key ma_name (map (model_aggregate_of d (er_id run)) model_ids)\<rparr>)"

definition get_eval_run :: "uuid \<Rightarrow> 'a db_scheme \<Rightarrow> http_error + eval_run_read" where
  "get_eval_run run_id d =
     (case fetch er_id run_id (eval_runs d) of
        None \<Rightarrow> Inl (HTTPException 404 ''Eval run not found'')
      | Some run \<Rightarrow> Inr (read_eval_run d run))"

definition dead_letter_of :: "run_item \<Rightarrow> dead_letter_read" where
  "dead_letter_of r =
     \<lparr>dl_run_item_id = ri_id r, dl_eval_run_id = ri_eval_run_id r, dl_task_id = ri_task_id r,
      dl_model_endpoint_id = ri_model_endpoint_id r, dl_attempt_count = ri_attempt_count r,
      dl_error = ri_error r, dl_created_at = ri_created_at r\<rparr>"

definition list_dead_letters :: "uuid \<Rightarrow> 'a db_scheme \<Rightarrow> http_error + dead_letter_read list" where
  "list_dead_letters run_id d =
     (case fetch er_id run_id (eval_runs d) of
        None \<Rightarrow> Inl (HTTPException 404 ''Eval run not found'')
      | Some _ \<Rightarrow> Inr (map dead_letter_of (sort_key ri_created_at
          (filter (\<lambda>r. ri_eval_run_id r = run_id \<and> ri_status r = Item_dead_lettered) (run_items d)))))"

subsection \<open>Cancelling a run\<close>

definition cancel_updates :: "uuid \<Rightarrow> 'a db_scheme \<Rightarrow> 'a db_scheme" where
  "cancel_updates run_id d =
     run_items_update (sql_update (\<lambda>r. ri_eval_run_id r = run_id \<and> ri_status r = Item_queued)
       (\<lambda>r. r\<lparr>ri_status := Item_failed, ri_error := Some ''eval run cancelled'',
              ri_updated_at := db_now d\<rparr>))
     (eval_runs_update (sql_update
       (\<lambda>e. er_id e = run_id \<and> er_status e \<in> {Run_pending, Run_running})
       (\<lambda>e. e\<lparr>er_status := Run_cancelled, er_completed_at := Some (db_now d)\<rparr>)) d)"

definition cancel_eval_run :: "uuid \<Rightarrow> 'a db_scheme \<Rightarrow> (http_error + eval_run_read) \<times> 'a db_scheme" where
  "cancel_eval_run run_id d =
     (case fetch er_id run_id (eval_runs d) of
        None \<Rightarrow> (Inl (HTTPException 404 ''Eval run not found''), d)
      | Some run \<Rightarrow>
          if er_status run \<in> {Run_completed, Run_failed}
          then (Inl (HTTPException 409
                  (''eval run already '' @ eval_run_status_value (er_status run))), d)
          else
            (let d' = (if er_status run \<noteq> Run_cancelled then cancel_updates run_id d else d)
             in (get_eval_run run_id d', d')))"

subsection \<open>Replaying a dead letter\<close>

definition replay_updates :: "uuid \<Rightarrow> uuid \<Rightarrow> 'a db_scheme \<Rightarrow> 'a db_scheme" where
  "replay_updates rid run_id d =
     eval_runs_update (sql_update (\<lambda>e. er_id e = run_id \<and> er_status e = Run_failed)
       (\<lambda>e. e\<lparr>er_status := Run_running, er_completed_at := None, er_error := None\<rparr>))
     (run_items_update (sql_update (\<lambda>r. ri_id r = rid \<and> ri_status r = Item_dead_lettered)
       (\<lambda>r. r\<lparr>ri_status := Item_queued, ri_error := None, ri_updated_at := db_now d\<rparr>)) d)"

definition replay_run_item :: "uuid \<Rightarrow> sys \<Rightarrow> (http_error + uuid \<times> run_item_status) \<times> sys" where
  "replay_run_item rid s =
     (case fetch ri_id rid (run_items s) of
        None \<Rightarrow> (Inl (HTTPException 404 ''Run item not found''), s)
      | Some r \<Rightarrow>
          if ri_status r \<noteq> Item_dead_lettered
          then (Inl (HTTPException 409 (''run item is '' @ run_item_status_value (ri_status r) @
                  '', not dead_lettered'')), s)
          else if run_status_of (ri_eval_run_id r) s = Some Run_cancelled
          then (Inl (HTTPException 409 ''eval run is cancelled''), s)
          else (Inr (rid, Item_queued), enqueue_run_item rid (replay_updates rid (ri_eval_run_id r) s)))"

subsection \<open>What creating a run adds\<close>

lemma set_dict_fromkeys [simp]: "set (dict_fromkeys xs) = set xs"
  by (induction xs) auto

lemma distinct_dict_fromkeys: "distinct (dict_fromkeys xs)"
  by (induction xs) auto

lemma enqueue_all:
  "fold enqueue_run_item rids s = s\<lparr>evals_queue := evals_queue s @ rids\<rparr>"
  by (induction rids arbitrary: s) (simp_all add: enqueue_run_item_def)

lemma run_items_for_ids: "map ri_id (run_items_for k now i ts eps) = [i..<i + length ts * length eps]"
  by (simp add: run_items_for_def new_run_item_def case_prod_unfold o_def map_fst_enumerate
      length_product)

lemma map_enumerate_snd: "map (\<lambda>x. g (snd x)) (enumerate i xs) = map g xs"
  by (induction xs arbitrary: i) simp_all

lemma run_items_for_pairs:
  "map (\<lambda>r. (ri_task_id r, ri_model_endpoint_id r)) (run_items_for k now i ts eps) =
     List.product (map tk_id ts) (map me_id eps)"
proof -
  have "map (\<lambda>r. (ri_task_id r, ri_model_endpoint_id r)) (run_items_for k now i ts eps) =
      map (\<lambda>x. (tk_id (fst x), me_id (snd x))) (List.product ts eps)"
    by (simp add: run_items_for_def new_run_item_def case_prod_unfold o_def
        map_enumerate_snd [of "\<lambda>x. (tk_id (fst x), me_id (snd x))"])
  also have "\<dots> = List.product (map tk_id ts) (map me_id eps)"
    by (induction ts) (simp_all add: o_def)
  finally show ?thesis .
qed

lemma run_items_for_fresh:
  "list_all (\<lambda>r. ri_eval_run_id r = k \<and> ri_status r = Item_queued \<and> ri_attempt_count r = 0 \<and>
     ri_cost_usd r = None \<and> ri_prompt_tokens r = None \<and> ri_completion_tokens r = None)
     (run_items_for k now i ts eps)"
  by (auto simp: run_items_for_def new_run_item_def list_all_iff)

definition endpoints_of :: "'a db_scheme \<Rightarrow> uuid list \<Rightarrow> model_endpoint list" where
  "endpoints_of d ids = filter (\<lambda>ep. me_id ep \<in> set ids) (model_endpoints d)"

definition tasks_of :: "'a db_scheme \<Rightarrow> uuid \<Rightarrow> task list" where
  "tasks_of d ts = filter (\<lambda>t. tk_task_set_id t = ts) (tasks d)"

definition missing_endpoints :: "'a db_scheme \<Rightarrow> uuid list \<Rightarrow> uuid list" where
  "missing_endpoints d ids =
     filter (\<lambda>i. fetch me_id i (model_endpoints d) = None) (dict_fromkeys ids)"

lemma endpoints_of_Nil [simp]: "endpoints_of d [] = []"
  by (simp add: endpoints_of_def)

lemma create_eval_run_eq:
  "create_eval_run k ids s =
     (case fetch ts_id k (task_sets s) of
        None \<Rightarrow> (Inl (HTTPException 404 ''Task set not found''), s)
      | Some _ \<Rightarrow>
          if missing_endpoints s ids \<noteq> []
          then (Inl (HTTPException 400 (''unknown model endpoint ids: '' @
                  join '', '' (map uuid_str (missing_endpoints s ids)))), s)
          else if tasks_of s k = [] \<or> ids = []
          then (Inr (uuid_next s, Run_completed),
                s\<lparr>eval_runs := eval_runs s @ [(new_eval_run (uuid_next s) k (db_now s))
                    \<lparr>er_status := Run_completed, er_completed_at := Some (db_now s)\<rparr>],
                  uuid_next := uuid_next s + 1\<rparr>)
          else
            (let items = run_items_for (uuid_next s) (db_now s) (uuid_next s + 1) (tasks_of s k)
                           (endpoints_of s ids)
             in (Inr (uuid_next s, Run_running),
                 s\<lparr>eval_runs := eval_runs s @ [new_eval_run (uuid_next s) k (db_now s)],
                   run_items := run_items s @ items, uuid_next := uuid_next s + 1 + length items,
                   evals_queue := evals_queue s @ map ri_id items\<rparr>)))"
proof -
  have eps: "filter (\<lambda>ep. me_id ep \<in> set (dict_fromkeys ids)) (model_endpoints s) = endpoints_of s ids"
    by (simp add: endpoints_of_def)
  have miss: "filter (\<lambda>i. i \<notin> me_id ` set (endpoints_of s ids)) (dict_fromkeys ids) =
      missing_endpoints s ids"
    unfolding missing_endpoints_def
    by (rule filter_cong) (auto simp: fetch_None_iff endpoints_of_def)
  have none: "endpoints_of s ids = [] \<longleftrightarrow> ids = []" if "missing_endpoints s ids = []"
    using that by (cases ids) (auto simp: endpoints_of_def missing_endpoints_def filter_empty_conv
        fetch_None_iff split: if_splits)
  show ?thesis
    unfolding create_eval_run_def Let_def eps miss tasks_of_def [symmetric]
    by (auto simp: none enqueue_all new_eval_run_def split: option.split)
qed

text \<open>
  C24. Creating a run for a known task set with tasks and known endpoints fans out: one running run
  is added with no cost, and exactly one queued item per task of the set and requested endpoint,
  each with an id of its own and a message on the queue in the same order; nothing existing changes.
\<close>

theorem create_fans_out:
  assumes "keys_ok s" and "fetch ts_id k (task_sets s) \<noteq> None" and "missing_endpoints s ids = []"
    and "tasks_of s k \<noteq> []" and "ids \<noteq> []"
  shows "let (r, s') = create_eval_run k ids s; items = drop (length (run_items s)) (run_items s') in
         r = Inr (uuid_next s, Run_running) \<and>
         eval_runs s' = eval_runs s @ [new_eval_run (uuid_next s) k (db_now s)] \<and>
         take (length (run_items s)) (run_items s') = run_items s \<and>
         map (\<lambda>r. (ri_task_id r, ri_model_endpoint_id r)) items =
           List.product (map tk_id (tasks_of s k)) (map me_id (endpoints_of s ids)) \<and>
         distinct (map (\<lambda>r. (ri_task_id r, ri_model_endpoint_id r)) items) \<and>
         list_all (\<lambda>r. ri_eval_run_id r = uuid_next s \<and> ri_status r = Item_queued \<and>
           ri_attempt_count r = 0 \<and> ri_cost_usd r = None \<and> ri_prompt_tokens r = None \<and>
           ri_completion_tokens r = None) items \<and>
         distinct (map ri_id items) \<and> list_all (\<lambda>r. uuid_next s < ri_id r) items \<and>
         evals_queue s' = evals_queue s @ map ri_id items"
proof -
  let ?items = "run_items_for (uuid_next s) (db_now s) (uuid_next s + 1) (tasks_of s k)
    (endpoints_of s ids)"
  have ids: "map ri_id ?items = [uuid_next s + 1 ..<
      uuid_next s + 1 + length (tasks_of s k) * length (endpoints_of s ids)]"
    by (rule run_items_for_ids)
  have "distinct (map ri_id ?items)" by (simp only: ids distinct_upt)
  moreover have "list_all (\<lambda>r. uuid_next s < ri_id r) ?items"
  proof -
    have "ri_id r \<in> set [uuid_next s + 1 ..< uuid_next s + 1 +
        length (tasks_of s k) * length (endpoints_of s ids)]" if "r \<in> set ?items" for r
      unfolding ids [symmetric] using that by simp
    then show ?thesis by (force simp: list_all_iff)
  qed
  moreover have "distinct (map tk_id (tasks_of s k))" "distinct (map me_id (endpoints_of s ids))"
    using assms(1) by (simp_all add: keys_ok_def tasks_of_def endpoints_of_def distinct_map_filter)
  ultimately show ?thesis
    using assms(2-5) run_items_for_fresh [of "uuid_next s" "db_now s" "uuid_next s + 1"
        "tasks_of s k" "endpoints_of s ids"]
    by (auto simp: create_eval_run_eq Let_def run_items_for_pairs distinct_product)
qed

definition fx_catalog :: sys where
  "fx_catalog = fx_sys\<lparr>task_sets := [\<lparr>ts_id = 1, ts_name = ''t'', ts_description = None,
     ts_created_at = 0\<rparr>], tasks := [fx_task, fx_task\<lparr>tk_id := 11\<rparr>],
     model_endpoints := [fx_endpoint, fx_endpoint\<lparr>me_id := 21\<rparr>]\<rparr>"

theorem create_fans_out_witness:
  "let (r, s') = create_eval_run 1 [21, 20, 21] fx_catalog;
       items = drop (length (run_items fx_catalog)) (run_items s') in
   r = Inr (uuid_next fx_catalog, Run_running) \<and>
   eval_runs s' = eval_runs fx_catalog @ [new_eval_run (uuid_next fx_catalog) 1 (db_now fx_catalog)] \<and>
   take (length (run_items fx_catalog)) (run_items s') = run_items fx_catalog \<and>
   map (\<lambda>r. (ri_task_id r, ri_model_endpoint_id r)) items =
     List.product (map tk_id (tasks_of fx_catalog 1)) (map me_id (endpoints_of fx_catalog [21, 20, 21])) \<and>
   distinct (map (\<lambda>r. (ri_task_id r, ri_model_endpoint_id r)) items) \<and>
   list_all (\<lambda>r. ri_eval_run_id r = uuid_next fx_catalog \<and> ri_status r = Item_queued \<and>
     ri_attempt_count r = 0 \<and> ri_cost_usd r = None \<and> ri_prompt_tokens r = None \<and>
     ri_completion_tokens r = None) items \<and>
   distinct (map ri_id items) \<and> list_all (\<lambda>r. uuid_next fx_catalog < ri_id r) items \<and>
   evals_queue s' = evals_queue fx_catalog @ map ri_id items"
  by (rule create_fans_out) code_simp+

text \<open>
  A request that cannot be served changes nothing and names its reason: 404 exactly for an
  unknown task set, otherwise 400 exactly when an endpoint id is unknown, with the unknown ids once
  each in the order of the request.
\<close>

theorem create_rejects_cleanly:
  "let (r, s') = create_eval_run k ids s; unknown = missing_endpoints s ids in
   (isl r \<longrightarrow> s' = s) \<and>
   (r = Inl (HTTPException 404 ''Task set not found'') \<longleftrightarrow> k \<notin> ts_id ` set (task_sets s)) \<and>
   (k \<in> ts_id ` set (task_sets s) \<longrightarrow>
      (isl r \<longleftrightarrow> \<not> set ids \<subseteq> me_id ` set (model_endpoints s)) \<and>
      (isl r \<longrightarrow> r = Inl (HTTPException 400 (''unknown model endpoint ids: '' @
         join '', '' (map uuid_str unknown))))) \<and>
   distinct unknown \<and> set unknown = set ids - me_id ` set (model_endpoints s)"
proof -
  have unknown: "set (missing_endpoints s ids) = set ids - me_id ` set (model_endpoints s)"
    by (auto simp: missing_endpoints_def fetch_None_iff)
  have dist: "distinct (missing_endpoints s ids)"
    by (simp add: missing_endpoints_def distinct_dict_fromkeys)
  have none: "missing_endpoints s ids = [] \<longleftrightarrow> set ids \<subseteq> me_id ` set (model_endpoints s)"
    using unknown by (metis Diff_eq_empty_iff set_empty)
  show ?thesis
    unfolding create_eval_run_eq using unknown dist none
    by (auto simp: Let_def fetch_None_iff [symmetric] split: option.split)
qed

theorem create_rejects_cleanly_witness:
  "let (r, s') = create_eval_run 1 [99, 20, 99] fx_catalog; unknown = missing_endpoints fx_catalog [99, 20, 99] in
   (isl r \<longrightarrow> s' = fx_catalog) \<and>
   (r = Inl (HTTPException 404 ''Task set not found'') \<longleftrightarrow> 1 \<notin> ts_id ` set (task_sets fx_catalog)) \<and>
   (1 \<in> ts_id ` set (task_sets fx_catalog) \<longrightarrow>
      (isl r \<longleftrightarrow> \<not> set [99, 20, 99] \<subseteq> me_id ` set (model_endpoints fx_catalog)) \<and>
      (isl r \<longrightarrow> r = Inl (HTTPException 400 (''unknown model endpoint ids: '' @
         join '', '' (map uuid_str unknown))))) \<and>
   distinct unknown \<and> set unknown = set [99, 20, 99] - me_id ` set (model_endpoints fx_catalog)"
  by (rule create_rejects_cleanly)

end
