(* ===== verification/Run_Control.thy ===== *)
theory Run_Control
  imports Eval_Runs "HOL-Library.Multiset"
begin

text \<open>
  What the run endpoints do to a run that exists: cancelling, replaying a dead letter, and the
  aggregates of a reading, which add up to the run.
\<close>

subsection \<open>Cancel\<close>

text \<open>
  C25. Cancelling a pending or running run: the run is cancelled and stamped, each of its queued
  items fails, items in any other status and all other runs stay as they are, no money moves, and
  cancelling again answers the same and changes nothing.
\<close>

theorem cancel_stops_run:
  assumes "fetch er_id k (eval_runs d) = Some run" and "er_status run \<in> {Run_pending, Run_running}"
  shows "let (r, d') = cancel_eval_run k d;
             run' = run\<lparr>er_status := Run_cancelled, er_completed_at := Some (db_now d)\<rparr> in
         r = Inr (read_eval_run d' run') \<and> fetch er_id k (eval_runs d') = Some run' \<and>
         (\<forall>i. i \<noteq> k \<longrightarrow> fetch er_id i (eval_runs d') = fetch er_id i (eval_runs d)) \<and>
         (\<forall>i. fetch ri_id i (run_items d') =
            map_option (\<lambda>x. if ri_eval_run_id x = k \<and> ri_status x = Item_queued
              then x\<lparr>ri_status := Item_failed, ri_error := Some ''eval run cancelled'',
                     ri_updated_at := db_now d\<rparr> else x) (fetch ri_id i (run_items d))) \<and>
         totals d' = totals d \<and> cost_book d' = cost_book d \<and> token_book d' = token_book d \<and>
         cancel_eval_run k d' = (r, d')"
proof -
  let ?run' = "run\<lparr>er_status := Run_cancelled, er_completed_at := Some (db_now d)\<rparr>"
  let ?d' = "cancel_updates k d"
  have id: "er_id run = k" using assms(1) by (auto dest: fetch_SomeD)
  have run': "fetch er_id k (eval_runs ?d') = Some ?run'"
    using assms id by (auto simp: cancel_updates_def fetch_sql_update)
  have d': "cancel_eval_run k d = (Inr (read_eval_run ?d' ?run'), ?d')"
    using assms run' by (auto simp: cancel_eval_run_def get_eval_run_def Let_def)
  have again: "cancel_eval_run k ?d' = (Inr (read_eval_run ?d' ?run'), ?d')"
    using run' by (simp add: cancel_eval_run_def get_eval_run_def Let_def)
  have others: "fetch er_id i (eval_runs ?d') = fetch er_id i (eval_runs d)" if "i \<noteq> k" for i
    using that
    by (cases "fetch er_id i (eval_runs d)") (auto simp: cancel_updates_def fetch_sql_update dest: fetch_SomeD)
  have items: "fetch ri_id i (run_items ?d') =
      map_option (\<lambda>x. if ri_eval_run_id x = k \<and> ri_status x = Item_queued
        then x\<lparr>ri_status := Item_failed, ri_error := Some ''eval run cancelled'',
               ri_updated_at := db_now d\<rparr> else x) (fetch ri_id i (run_items d))" for i
    by (simp add: cancel_updates_def fetch_sql_update)
  have money: "totals ?d' = totals d" "cost_book ?d' = cost_book d" "token_book ?d' = token_book d"
    by (simp_all add: cancel_updates_def ledger_simps) (simp add: totals_def map_sql_update)
  show ?thesis
    unfolding d' Let_def prod.case by (intro conjI allI impI refl run' others items money again)
qed

theorem cancel_stops_run_witness:
  "let (r, d') = cancel_eval_run 30 fx_sys;
       run' = fx_run\<lparr>er_status := Run_cancelled, er_completed_at := Some (db_now fx_sys)\<rparr> in
   r = Inr (read_eval_run d' run') \<and> fetch er_id 30 (eval_runs d') = Some run' \<and>
   (\<forall>i. i \<noteq> 30 \<longrightarrow> fetch er_id i (eval_runs d') = fetch er_id i (eval_runs fx_sys)) \<and>
   (\<forall>i. fetch ri_id i (run_items d') =
      map_option (\<lambda>x. if ri_eval_run_id x = 30 \<and> ri_status x = Item_queued
        then x\<lparr>ri_status := Item_failed, ri_error := Some ''eval run cancelled'',
               ri_updated_at := db_now fx_sys\<rparr> else x) (fetch ri_id i (run_items fx_sys))) \<and>
   totals d' = totals fx_sys \<and> cost_book d' = cost_book fx_sys \<and> token_book d' = token_book fx_sys \<and>
   cancel_eval_run 30 d' = (r, d')"
  by (rule cancel_stops_run) code_simp+

subsection \<open>Replay\<close>

text \<open>
  C26. Replaying a dead-lettered item of a run that is not cancelled queues the item again with its
  attempts and costs kept, sends one message, reopens the run if it had failed, and moves no money;
  a second replay of the item is refused and changes nothing.
\<close>

theorem replay_requeues:
  assumes "fetch ri_id rid (run_items s) = Some r" and "ri_status r = Item_dead_lettered"
    and "run_status_of (ri_eval_run_id r) s \<noteq> Some Run_cancelled"
  shows "let (res, s') = replay_run_item rid s in
         res = Inr (rid, Item_queued) \<and>
         fetch ri_id rid (run_items s') = Some (r\<lparr>ri_status := Item_queued, ri_error := None,
           ri_updated_at := db_now s\<rparr>) \<and>
         (\<forall>i. i \<noteq> rid \<longrightarrow> fetch ri_id i (run_items s') = fetch ri_id i (run_items s)) \<and>
         (\<forall>i. fetch er_id i (eval_runs s') =
            map_option (\<lambda>e. if i = ri_eval_run_id r \<and> er_status e = Run_failed
              then e\<lparr>er_status := Run_running, er_completed_at := None, er_error := None\<rparr> else e)
              (fetch er_id i (eval_runs s))) \<and>
         evals_queue s' = evals_queue s @ [rid] \<and>
         totals s' = totals s \<and> cost_book s' = cost_book s \<and> token_book s' = token_book s \<and>
         replay_run_item rid s' =
           (Inl (HTTPException 409 ''run item is queued, not dead_lettered''), s')"
proof -
  let ?s1 = "replay_updates rid (ri_eval_run_id r) s"
  let ?s' = "enqueue_run_item rid ?s1"
  have id: "ri_id r = rid" using assms(1) by (auto dest: fetch_SomeD)
  have s': "replay_run_item rid s = (Inr (rid, Item_queued), ?s')"
    using assms by (simp add: replay_run_item_def)
  have item: "fetch ri_id rid (run_items ?s') =
      Some (r\<lparr>ri_status := Item_queued, ri_error := None, ri_updated_at := db_now s\<rparr>)"
    using assms id by (simp add: replay_updates_def enqueue_run_item_def fetch_sql_update)
  have other: "fetch ri_id i (run_items ?s') = fetch ri_id i (run_items s)" if "i \<noteq> rid" for i
    using that by (cases "fetch ri_id i (run_items s)")
      (auto simp: replay_updates_def enqueue_run_item_def fetch_sql_update dest: fetch_SomeD)
  have runs: "fetch er_id i (eval_runs ?s') =
      map_option (\<lambda>e. if i = ri_eval_run_id r \<and> er_status e = Run_failed
        then e\<lparr>er_status := Run_running, er_completed_at := None, er_error := None\<rparr> else e)
        (fetch er_id i (eval_runs s))" for i
    by (cases "fetch er_id i (eval_runs s)")
       (auto simp: replay_updates_def enqueue_run_item_def fetch_sql_update dest: fetch_SomeD)
  have queue: "evals_queue ?s' = evals_queue s @ [rid]"
    by (simp add: enqueue_run_item_def replay_updates_def)
  have books: "cost_book ?s1 = cost_book s" "token_book ?s1 = token_book s" "totals ?s1 = totals s"
    by (simp_all add: replay_updates_def ledger_simps) (simp add: totals_def map_sql_update)
  have money: "totals ?s' = totals s" "cost_book ?s' = cost_book s" "token_book ?s' = token_book s"
    using books by (simp_all add: enqueue_run_item_def fun_eq_iff cost_book_def token_book_def)
  have again: "replay_run_item rid ?s' =
      (Inl (HTTPException 409 ''run item is queued, not dead_lettered''), ?s')"
    using item by (simp add: replay_run_item_def)
  show ?thesis
    unfolding s' Let_def prod.case
    by (intro conjI allI impI refl item other runs queue money again)
qed

definition fx_dead :: sys where
  "fx_dead = snd (execute_run_item fx_env (fx_worker fx_limited) 40
     (fx_sys\<lparr>run_items := [fx_item 40]\<rparr>))"

definition fx_dead_item :: run_item where
  "fx_dead_item = (fx_item 40)\<lparr>ri_status := Item_dead_lettered, ri_attempt_count := 5,
     ri_error := Some ''exhausted 5 attempts: HTTP 429'', ri_updated_at := 7\<rparr>"

theorem replay_requeues_witness:
  "let (res, s') = replay_run_item 40 fx_dead in
   res = Inr (40, Item_queued) \<and>
   fetch ri_id 40 (run_items s') = Some (fx_dead_item\<lparr>ri_status := Item_queued, ri_error := None,
     ri_updated_at := db_now fx_dead\<rparr>) \<and>
   (\<forall>i. i \<noteq> 40 \<longrightarrow> fetch ri_id i (run_items s') = fetch ri_id i (run_items fx_dead)) \<and>
   (\<forall>i. fetch er_id i (eval_runs s') =
      map_option (\<lambda>e. if i = ri_eval_run_id fx_dead_item \<and> er_status e = Run_failed
        then e\<lparr>er_status := Run_running, er_completed_at := None, er_error := None\<rparr> else e)
        (fetch er_id i (eval_runs fx_dead))) \<and>
   evals_queue s' = evals_queue fx_dead @ [40] \<and>
   totals s' = totals fx_dead \<and> cost_book s' = cost_book fx_dead \<and> token_book s' = token_book fx_dead \<and>
   replay_run_item 40 s' = (Inl (HTTPException 409 ''run item is queued, not dead_lettered''), s')"
  by (rule replay_requeues) code_simp+

subsection \<open>The aggregates of a reading\<close>

definition counts_total :: "status_counts \<Rightarrow> nat" where
  "counts_total c = sc_queued c + sc_running c + sc_succeeded c + sc_failed c + sc_dead_lettered c"

lemma counts_total_rows:
  "counts_total \<lparr>sc_queued = count_status rows Item_queued, sc_running = count_status rows Item_running,
     sc_succeeded = count_status rows Item_succeeded, sc_failed = count_status rows Item_failed,
     sc_dead_lettered = count_status rows Item_dead_lettered\<rparr> = length rows"
proof (induction rows)
  case Nil
  show ?case by (simp add: counts_total_def count_status_def)
next
  case (Cons r rows)
  then show ?case by (cases "ri_status r") (simp_all add: counts_total_def count_status_def)
qed

text \<open>Partitioning rows by a key: the parts' sums add up to the sum of all rows.\<close>

lemma sum_list_partition:
  fixes w :: "'r \<Rightarrow> 'n::comm_monoid_add"
  assumes "distinct ks" and "key ` set rows \<subseteq> set ks"
  shows "(\<Sum>k \<leftarrow> ks. \<Sum>r \<leftarrow> filter (\<lambda>r. key r = k) rows. w r) = (\<Sum>r \<leftarrow> rows. w r)"
  using assms(2)
proof (induction rows)
  case Nil
  show ?case by simp
next
  case (Cons r rows)
  have "(\<Sum>k \<leftarrow> ks. if key r = k then w r else 0) = w r"
    using assms(1) Cons.prems
    by (simp add: sum_list_distinct_conv_sum_set)
  moreover have "(\<Sum>k \<leftarrow> ks. \<Sum>r \<leftarrow> filter (\<lambda>r. key r = k) (r # rows). w r) =
      (\<Sum>k \<leftarrow> ks. (if key r = k then w r else 0) + (\<Sum>r \<leftarrow> filter (\<lambda>r. key r = k) rows. w r))"
    by (intro arg_cong [where f = sum_list] map_cong) auto
  ultimately show ?case using Cons by (simp add: sum_list_addf)
qed

lemma map_filter_cost: "sum_list (List.map_filter ri_cost_usd rows) = (\<Sum>r \<leftarrow> rows. item_cost r)"
  by (induction rows) (simp_all add: item_cost_def map_filter_simps or_zero_def split: option.split)

lemma sum_list_sort_key: "sum_list (map f (sort_key g xs)) = (sum_list (map f xs) :: 'n::comm_monoid_add)"
  by (metis mset_map mset_sort sum_mset_sum_list)

text \<open>The status counts of a reading cover the items of the run.\<close>

lemma reading_counts:
  "(\<Sum>m \<leftarrow> rr_models (read_eval_run d run). counts_total (ma_counts m)) =
     rowcount (\<lambda>r. ri_eval_run_id r = er_id run) (run_items d)"
proof -
  define rows where "rows = filter (\<lambda>r. ri_eval_run_id r = er_id run) (run_items d)"
  define ids where "ids = remdups (map ri_model_endpoint_id rows)"
  have models: "rr_models (read_eval_run d run) = sort_key ma_name (map (model_aggregate_of d (er_id run)) ids)"
    by (simp add: read_eval_run_def ids_def rows_def)
  have part: "items_of_model d (er_id run) m = filter (\<lambda>r. ri_model_endpoint_id r = m) rows" for m
    by (simp add: items_of_model_def rows_def conj_commute)
  have "(\<Sum>m \<leftarrow> rr_models (read_eval_run d run). counts_total (ma_counts m)) =
      (\<Sum>m \<leftarrow> ids. \<Sum>r \<leftarrow> filter (\<lambda>r. ri_model_endpoint_id r = m) rows. 1)"
    by (simp add: models sum_list_sort_key o_def model_aggregate_of_def Let_def counts_total_rows
        part sum_list_triv)
  also have "\<dots> = (\<Sum>r \<leftarrow> rows. 1)" by (rule sum_list_partition) (auto simp: ids_def)
  finally show ?thesis by (simp add: sum_list_triv rowcount_def rows_def)
qed

text \<open>
  A reading adds up: its models are pairwise different and sorted by name, their status counts
  sum to the number of items of the run, and their costs to what the items recorded, hence (while
  the ledger is in order) to the run's own total.
\<close>

theorem reading_adds_up:
  assumes "ledger_ok d" and "get_eval_run k d = Inr v"
  shows "distinct (map ma_model_endpoint_id (rr_models v)) \<and> sorted (map ma_name (rr_models v)) \<and>
         (\<Sum>m \<leftarrow> rr_models v. counts_total (ma_counts m)) =
           rowcount (\<lambda>r. ri_eval_run_id r = k) (run_items d) \<and>
         (\<Sum>m \<leftarrow> rr_models v. ma_total_cost_usd m) = cost_book d k \<and>
         rr_total_cost_usd v = (\<Sum>m \<leftarrow> rr_models v. ma_total_cost_usd m)"
proof -
  obtain run where run: "fetch er_id k (eval_runs d) = Some run" "v = read_eval_run d run"
    using assms(2) by (auto simp: get_eval_run_def split: option.splits)
  then have k: "er_id run = k" "run \<in> set (eval_runs d)" by (auto dest: fetch_SomeD)
  define rows where "rows = filter (\<lambda>r. ri_eval_run_id r = k) (run_items d)"
  define ids where "ids = remdups (map ri_model_endpoint_id rows)"
  have models: "rr_models v = sort_key ma_name (map (model_aggregate_of d k) ids)"
    by (simp add: run k read_eval_run_def ids_def rows_def)
  have part: "items_of_model d k m = filter (\<lambda>r. ri_model_endpoint_id r = m) rows" for m
    by (simp add: items_of_model_def rows_def conj_commute)
  have id: "ma_model_endpoint_id (model_aggregate_of d k m) = m" for m
    by (simp add: model_aggregate_of_def Let_def)
  have "distinct (map ma_model_endpoint_id (rr_models v))"
    unfolding models using id
    by (auto simp: distinct_map ids_def inj_on_def) metis+
  moreover have "(\<Sum>m \<leftarrow> rr_models v. counts_total (ma_counts m)) = length rows"
    using reading_counts [of d run] by (simp add: run k rowcount_def rows_def)
  moreover have cost: "(\<Sum>m \<leftarrow> rr_models v. ma_total_cost_usd m) = cost_book d k"
  proof -
    have "(\<Sum>m \<leftarrow> rr_models v. ma_total_cost_usd m) =
        (\<Sum>m \<leftarrow> ids. \<Sum>r \<leftarrow> filter (\<lambda>r. ri_model_endpoint_id r = m) rows. item_cost r)"
      by (simp add: models sum_list_sort_key o_def model_aggregate_of_def Let_def map_filter_cost part)
    also have "\<dots> = (\<Sum>r \<leftarrow> rows. item_cost r)" by (rule sum_list_partition) (auto simp: ids_def)
    finally show ?thesis by (simp add: cost_book_def group_sum_def rows_def)
  qed
  moreover have "rr_total_cost_usd v = cost_book d k"
    using assms(1) k by (auto simp: run(2) read_eval_run_def ledger_ok_iff Let_def)
  moreover have "sorted (map ma_name (rr_models v))" by (simp add: models)
  ultimately show ?thesis by (simp add: rowcount_def rows_def)
qed

definition fx_reading :: eval_run_read where
  "fx_reading = read_eval_run fx_dead
     (fx_run\<lparr>er_status := Run_failed, er_completed_at := Some 7\<rparr>)"

theorem reading_adds_up_witness:
  "distinct (map ma_model_endpoint_id (rr_models fx_reading)) \<and>
   sorted (map ma_name (rr_models fx_reading)) \<and>
   (\<Sum>m \<leftarrow> rr_models fx_reading. counts_total (ma_counts m)) =
     rowcount (\<lambda>r. ri_eval_run_id r = 30) (run_items fx_dead) \<and>
   (\<Sum>m \<leftarrow> rr_models fx_reading. ma_total_cost_usd m) = cost_book fx_dead 30 \<and>
   rr_total_cost_usd fx_reading = (\<Sum>m \<leftarrow> rr_models fx_reading. ma_total_cost_usd m)"
  by (rule reading_adds_up) code_simp+

end
