(* ===== verification/Review_Queue.thy ===== *)
theory Review_Queue
  imports Run_Control
begin

text \<open>
  \<open>app/api/v1/review_queue.py\<close>: the queue of review items with their grades and model output, its
  statistics, and the two conditional updates claim and resolve. Each handler that writes is one
  transaction, so concurrent requests are some sequence of these steps; \<open>review_step\<close> is one.

  The framework refuses a limit outside 1 to 500 and a label outside [0, 1] before the handlers. A
  label is the exact value of the double sent; \<open>round(x, 3)\<close> rounds it to the nearest thousandth
  (an exact tie to even) and \<open>str\<close> prints that decimal. Differences of timestamps are in seconds.
\<close>

subsection \<open>Reading\<close>

record grade_read =
  gv_grader :: grader_kind
  gv_score :: "rat option"
  gv_passed :: "bool option"
  gv_rubric_scores :: "(string \<times> rat) list option"
  gv_rationale :: "string option"

record review_queue_item =
  rq_review_item_id :: uuid
  rq_run_item_id :: uuid
  rq_reason :: review_reason
  rq_status :: review_status
  rq_capability :: string
  rq_prompt :: string
  rq_expected_output :: "string option"
  rq_model_output :: json
  rq_grades :: "grade_read list"
  rq_created_at :: timestamp

record review_item_read =
  vr_id :: uuid
  vr_run_item_id :: uuid
  vr_reason :: review_reason
  vr_status :: review_status
  vr_reviewer_label :: "rat option"
  vr_reviewer_notes :: "string option"
  vr_claimed_at :: "timestamp option"
  vr_resolved_at :: "timestamp option"
  vr_created_at :: timestamp

record review_stats =
  rst_open :: nat
  rst_claimed :: nat
  rst_resolved :: nat
  rst_mean_time_to_resolve_ms :: "rat option"

definition get_artifact :: "uuid \<Rightarrow> sys \<Rightarrow> json option" where
  "get_artifact rid s = redis s (build_artifact_key rid)"

definition delete_artifact :: "uuid \<Rightarrow> sys \<Rightarrow> sys" where
  "delete_artifact rid s = s\<lparr>redis := (redis s)(build_artifact_key rid := None)\<rparr>"

text \<open>
  \<open>(artifact.get("raw_response") or {}).get("text")\<close> when the artifact is truthy, None otherwise;
  \<open>get\<close> on a value that is not a dict raises.
\<close>

definition json_get :: "json \<Rightarrow> string \<Rightarrow> exn + json" where
  "json_get j key =
     (case j of JObj d \<Rightarrow> Inr (dict_get d key JNull) | _ \<Rightarrow> Inl (AttributeError ''no attribute get''))"

definition model_output_of :: "json option \<Rightarrow> exn + json" where
  "model_output_of artifact =
     (case artifact of
        None \<Rightarrow> Inr JNull
      | Some a \<Rightarrow>
          if \<not> truthy a then Inr JNull
          else (case json_get a ''raw_response'' of
                  Inl e \<Rightarrow> Inl e
                | Inr raw \<Rightarrow> if truthy raw then json_get raw ''text'' else Inr JNull))"

definition grade_read_of :: "grade \<Rightarrow> grade_read" where
  "grade_read_of g =
     \<lparr>gv_grader = gr_grader g, gv_score = gr_score g, gv_passed = gr_passed g,
      gv_rubric_scores = gr_rubric_scores g, gv_rationale = gr_rationale g\<rparr>"

definition review_item_read_of :: "review_item \<Rightarrow> review_item_read" where
  "review_item_read_of v =
     \<lparr>vr_id = rv_id v, vr_run_item_id = rv_run_item_id v, vr_reason = rv_reason v,
      vr_status = rv_status v, vr_reviewer_label = rv_reviewer_label v,
      vr_reviewer_notes = rv_reviewer_notes v, vr_claimed_at = rv_claimed_at v,
      vr_resolved_at = rv_resolved_at v, vr_created_at = rv_created_at v\<rparr>"

text \<open>The join with run item and task; an inner join drops a row without partner.\<close>

definition joined_review :: "'a db_scheme \<Rightarrow> review_item \<Rightarrow> (review_item \<times> run_item \<times> task) option" where
  "joined_review d v =
     (case fetch ri_id (rv_run_item_id v) (run_items d) of
        None \<Rightarrow> None
      | Some r \<Rightarrow> map_option (\<lambda>t. (v, r, t)) (fetch tk_id (ri_task_id r) (tasks d)))"

definition review_rows :: "review_status \<Rightarrow> string option \<Rightarrow> nat \<Rightarrow> 'a db_scheme \<Rightarrow>
    (review_item \<times> run_item \<times> task) list" where
  "review_rows st capability limit d =
     take limit
       (sort_key (\<lambda>(v, _, _). rv_created_at v) (sort_key (\<lambda>(v, _, _). rv_id v)
         (filter (\<lambda>(v, _, t). rv_status v = st \<and>
             (case capability of None \<Rightarrow> True | Some c \<Rightarrow> c = [] \<or> tk_capability t = c))
           (List.map_filter (joined_review d) (review_items d)))))"

definition queue_item_of :: "sys \<Rightarrow> review_item \<times> run_item \<times> task \<Rightarrow> exn + review_queue_item" where
  "queue_item_of s = (\<lambda>(v, r, t).
     case model_output_of (get_artifact (ri_id r) s) of
       Inl e \<Rightarrow> Inl e
     | Inr out \<Rightarrow> Inr
         \<lparr>rq_review_item_id = rv_id v, rq_run_item_id = ri_id r, rq_reason = rv_reason v,
          rq_status = rv_status v, rq_capability = tk_capability t, rq_prompt = tk_prompt t,
          rq_expected_output = tk_expected_output t, rq_model_output = out,
          rq_grades = map grade_read_of (existing_grades (ri_id r) s), rq_created_at = rv_created_at v\<rparr>)"

fun collect :: "('e + 'x) list \<Rightarrow> 'e + 'x list" where
  "collect [] = Inr []"
| "collect (Inl e # rs) = Inl e"
| "collect (Inr x # rs) = (case collect rs of Inl e \<Rightarrow> Inl e | Inr xs \<Rightarrow> Inr (x # xs))"

definition list_review_queue ::
  "review_status \<Rightarrow> string option \<Rightarrow> nat \<Rightarrow> sys \<Rightarrow> exn + review_queue_item list" where
  "list_review_queue st capability limit s =
     collect (map (queue_item_of s) (review_rows st capability limit s))"

definition review_queue_stats :: "'a db_scheme \<Rightarrow> review_stats" where
  "review_queue_stats d =
     (let count = (\<lambda>st. rowcount (\<lambda>v. rv_status v = st) (review_items d));
          seconds = List.map_filter (\<lambda>v. case (rv_resolved_at v, rv_claimed_at v) of
              (Some t, Some c) \<Rightarrow> Some (of_int (int t - int c) :: rat) | _ \<Rightarrow> None) (review_items d)
      in \<lparr>rst_open = count RS_open, rst_claimed = count RS_claimed, rst_resolved = count RS_resolved,
          rst_mean_time_to_resolve_ms = map_option (\<lambda>m. m * 1000) (mean seconds)\<rparr>)"

subsection \<open>Claim and resolve\<close>

record resolve_request =
  rq_label :: rat
  rq_notes :: "string option"

definition resolve_request_ok :: "resolve_request \<Rightarrow> bool" where
  "resolve_request_ok q \<longleftrightarrow> 0 \<le> rq_label q \<and> rq_label q \<le> 1"

text \<open>
  The common shape: a guarded update, then the row when it matched one, 404 without a row, and 409
  otherwise. (A failing \<open>assert\<close> would answer 500; no state reaches it.)
\<close>

definition guarded_review_update :: "uuid \<Rightarrow> review_status \<Rightarrow> (review_item \<Rightarrow> review_item) \<Rightarrow>
    string \<Rightarrow> 'a db_scheme \<Rightarrow> (http_error + review_item_read) \<times> 'a db_scheme" where
  "guarded_review_update i st f refusal d =
     (let p = (\<lambda>v. rv_id v = i \<and> rv_status v = st); d' = review_items_update (sql_update p f) d in
      if rowcount p (review_items d) = 1
      then (case fetch rv_id i (review_items d') of
              Some v \<Rightarrow> (Inr (review_item_read_of v), d')
            | None \<Rightarrow> (Inl (HTTPException 500 ''AssertionError''), d'))
      else (case fetch rv_id i (review_items d') of
              None \<Rightarrow> (Inl (HTTPException 404 ''Review item not found''), d')
            | Some v \<Rightarrow> (Inl (HTTPException 409
                (''review item is '' @ review_status_value (rv_status v) @ refusal)), d')))"

definition claim_review_item ::
  "uuid \<Rightarrow> 'a db_scheme \<Rightarrow> (http_error + review_item_read) \<times> 'a db_scheme" where
  "claim_review_item i d =
     guarded_review_update i RS_open
       (\<lambda>v. v\<lparr>rv_status := RS_claimed, rv_claimed_at := Some (db_now d)\<rparr>) '', cannot claim'' d"

definition resolve_review_item ::
  "uuid \<Rightarrow> resolve_request \<Rightarrow> 'a db_scheme \<Rightarrow> (http_error + review_item_read) \<times> 'a db_scheme" where
  "resolve_review_item i q d =
     guarded_review_update i RS_claimed
       (\<lambda>v. v\<lparr>rv_status := RS_resolved, rv_reviewer_label := Some (quantize 3 (rq_label q)),
              rv_reviewer_notes := rq_notes q, rv_resolved_at := Some (db_now d)\<rparr>)
       ''; resolve requires claimed'' d"

end
