(* ===== verification/Review_Facts.thy ===== *)
theory Review_Facts
  imports Review_Queue
begin

text \<open>
  The review lifecycle: the row invariant, the steps as an \<open>ordered_system\<close> (a review item only
  moves open, claimed, resolved, and a resolved one is frozen), exactly one successful claim per
  open item under any sequence of requests, the label a resolution stores, and the readings.
\<close>

subsection \<open>The guarded update, case by case\<close>

lemma guarded_review_update_eq:
  assumes "distinct (map rv_id (review_items d))" and id: "\<And>v. rv_id (f v) = rv_id v"
  shows "guarded_review_update i st f refusal d =
     (case fetch rv_id i (review_items d) of
        None \<Rightarrow> (Inl (HTTPException 404 ''Review item not found''), d)
      | Some v \<Rightarrow>
          if rv_status v = st
          then (Inr (review_item_read_of (f v)),
                review_items_update (sql_update (\<lambda>v. rv_id v = i \<and> rv_status v = st) f) d)
          else (Inl (HTTPException 409
                 (''review item is '' @ review_status_value (rv_status v) @ refusal)), d))"
proof -
  let ?p = "\<lambda>v. rv_id v = i \<and> rv_status v = st"
  have rc: "rowcount ?p (review_items d) =
      (case fetch rv_id i (review_items d) of None \<Rightarrow> 0 | Some v \<Rightarrow> if rv_status v = st then 1 else 0)"
    by (rule rowcount_key [OF assms(1)])
  have noop: "review_items_update (sql_update ?p f) d = d" if "rowcount ?p (review_items d) = 0"
    by (rule rv.put_noop [OF that])
  show ?thesis
  proof (cases "fetch rv_id i (review_items d)")
    case None
    with rc noop show ?thesis by (simp add: guarded_review_update_def Let_def)
  next
    case (Some v)
    then have "rv_id v = i" by (auto dest: fetch_SomeD)
    with Some rc noop id show ?thesis
      by (simp add: guarded_review_update_def Let_def fetch_sql_update)
  qed
qed

lemma guarded_review_update_state:
  "snd (guarded_review_update i st f refusal d) =
     review_items_update (sql_update (\<lambda>v. rv_id v = i \<and> rv_status v = st) f) d"
  by (simp add: guarded_review_update_def Let_def split: option.split)

text \<open>The requests that write, and time passing; a request with a label out of range is refused.\<close>

datatype review_op = Claim uuid | Resolve uuid resolve_request | Wait nat

definition review_step :: "review_op \<Rightarrow> 'a db_scheme \<Rightarrow> 'a db_scheme" where
  "review_step op d =
     (case op of
        Claim i \<Rightarrow> snd (claim_review_item i d)
      | Resolve i q \<Rightarrow> if resolve_request_ok q then snd (resolve_review_item i q d) else d
      | Wait n \<Rightarrow> d\<lparr>db_now := db_now d + n\<rparr>)"

subsection \<open>The invariant and the order\<close>

definition review_row_ok :: "timestamp \<Rightarrow> review_item \<Rightarrow> bool" where
  "review_row_ok now v \<longleftrightarrow>
     (case rv_status v of
        RS_open \<Rightarrow> rv_reviewer_label v = None \<and> rv_claimed_at v = None \<and> rv_resolved_at v = None
      | RS_claimed \<Rightarrow> rv_reviewer_label v = None \<and> rv_resolved_at v = None \<and>
          (case rv_claimed_at v of None \<Rightarrow> False | Some c \<Rightarrow> c \<le> now)
      | RS_resolved \<Rightarrow>
          (case (rv_reviewer_label v, rv_claimed_at v, rv_resolved_at v) of
             (Some x, Some c, Some t) \<Rightarrow> 0 \<le> x \<and> x \<le> 1 \<and> c \<le> t \<and> t \<le> now
           | _ \<Rightarrow> False))"

definition review_inv :: "'a db_scheme \<Rightarrow> bool" where
  "review_inv d \<longleftrightarrow> distinct (map rv_id (review_items d)) \<and>
     list_all (review_row_ok (db_now d)) (review_items d)"

definition review_advances :: "review_item \<Rightarrow> review_item \<Rightarrow> bool" where
  "review_advances v v' \<longleftrightarrow> rv_id v' = rv_id v \<and> rv_run_item_id v' = rv_run_item_id v \<and>
     rv_reason v' = rv_reason v \<and> rv_created_at v' = rv_created_at v \<and>
     rv_status v \<le> rv_status v' \<and> (rv_status v = RS_resolved \<longrightarrow> v' = v)"

definition review_below :: "'a db_scheme \<Rightarrow> 'a db_scheme \<Rightarrow> bool" where
  "review_below d d' \<longleftrightarrow> db_now d \<le> db_now d' \<and>
     list_all2 review_advances (review_items d) (review_items d')"

lemma review_advances_refl: "review_advances v v"
  by (simp add: review_advances_def)

lemma review_advances_trans: "review_advances u v \<Longrightarrow> review_advances v w \<Longrightarrow> review_advances u w"
  by (auto simp: review_advances_def)

lemma review_row_ok_later: "review_row_ok now v \<Longrightarrow> now \<le> now' \<Longrightarrow> review_row_ok now' v"
  by (auto simp: review_row_ok_def split: review_status.splits option.splits)

lemma review_row_claim:
  "review_row_ok now v \<Longrightarrow> rv_status v = RS_open \<Longrightarrow>
   review_row_ok now (v\<lparr>rv_status := RS_claimed, rv_claimed_at := Some now\<rparr>)"
  by (simp add: review_row_ok_def)

lemma review_row_resolve:
  "review_row_ok now v \<Longrightarrow> rv_status v = RS_claimed \<Longrightarrow> 0 \<le> x \<Longrightarrow> x \<le> 1 \<Longrightarrow>
   review_row_ok now (v\<lparr>rv_status := RS_resolved, rv_reviewer_label := Some x,
     rv_reviewer_notes := m, rv_resolved_at := Some now\<rparr>)"
  by (simp add: review_row_ok_def split: option.splits)

lemma list_all2_sql_update:
  assumes "\<And>r. R r r" and "\<And>r. r \<in> set rows \<Longrightarrow> p r \<Longrightarrow> R r (f r)"
  shows "list_all2 R rows (sql_update p f rows)"
  using assms(2) by (induction rows) (simp_all add: assms(1))

text \<open>Each step is the identity or one of three updates.\<close>

lemma review_step_cases:
  obtains (same) "review_step op d = d"
  | (claim) i where "op = Claim i" "review_step op d = review_items_update
      (sql_update (\<lambda>v. rv_id v = i \<and> rv_status v = RS_open)
        (\<lambda>v. v\<lparr>rv_status := RS_claimed, rv_claimed_at := Some (db_now d)\<rparr>)) d"
  | (resolve) i q where "op = Resolve i q" "resolve_request_ok q" "review_step op d = review_items_update
      (sql_update (\<lambda>v. rv_id v = i \<and> rv_status v = RS_claimed)
        (\<lambda>v. v\<lparr>rv_status := RS_resolved, rv_reviewer_label := Some (quantize 3 (rq_label q)),
               rv_reviewer_notes := rq_notes q, rv_resolved_at := Some (db_now d)\<rparr>)) d"
  | (wait) n where "op = Wait n" "review_step op d = d\<lparr>db_now := db_now d + n\<rparr>"
proof (cases op)
  case (Claim i)
  show thesis
    by (rule claim [OF Claim])
       (simp add: Claim review_step_def claim_review_item_def guarded_review_update_state)
next
  case (Resolve i q)
  show thesis
  proof (cases "resolve_request_ok q")
    case True
    show thesis
      by (rule resolve [OF Resolve True])
         (simp add: Resolve True review_step_def resolve_review_item_def guarded_review_update_state)
  next
    case False
    then show thesis by (intro same) (simp add: Resolve review_step_def)
  qed
next
  case (Wait n)
  then show thesis by (intro wait) (simp_all add: review_step_def)
qed

lemma review_step_rows:
  assumes "list_all (review_row_ok (db_now d)) (review_items d)"
  shows "list_all (review_row_ok (db_now (review_step op d))) (review_items (review_step op d))"
proof -
  have ok: "\<And>v. v \<in> set (review_items d) \<Longrightarrow> review_row_ok (db_now d) v"
    using assms by (simp add: list_all_iff)
  show ?thesis
  proof (cases rule: review_step_cases [of op d])
    case same
    with assms show ?thesis by simp
  next
    case (claim i)
    with ok show ?thesis by (auto simp: list_all_iff set_sql_update intro: review_row_claim)
  next
    case (resolve i q)
    have "0 \<le> quantize 3 (rq_label q)" "quantize 3 (rq_label q) \<le> 1"
      using resolve(2) quantize_unit [of "rq_label q" 3] by (simp_all add: resolve_request_ok_def)
    with ok resolve(3) show ?thesis
      by (auto simp: list_all_iff set_sql_update intro: review_row_resolve)
  next
    case (wait n)
    with ok show ?thesis by (auto simp: list_all_iff intro: review_row_ok_later [OF ok le_add1])
  qed
qed

lemma review_step_keys:
  "map rv_id (review_items (review_step op d)) = map rv_id (review_items d)"
  "map rv_run_item_id (review_items (review_step op d)) = map rv_run_item_id (review_items d)"
  by (cases rule: review_step_cases [of op d]; simp add: map_sql_update)+

lemma review_step_inv: "review_inv d \<Longrightarrow> review_inv (review_step op d)"
  using review_step_rows [of d op] by (simp add: review_inv_def review_step_keys)

lemma review_step_below: "review_below d (review_step op d)"
  by (cases rule: review_step_cases [of op d])
     (auto simp: review_below_def review_advances_def less_eq_review_status_def
       list_all2_same intro!: list_all2_sql_update)

interpretation review: ordered_system review_step review_inv review_below
proof
  show "review_inv s \<Longrightarrow> review_inv (review_step a s)" for a and s :: "'a db_scheme"
    by (rule review_step_inv)
  show "review_inv s \<Longrightarrow> review_below s (review_step a s)" for a and s :: "'a db_scheme"
    by (rule review_step_below)
  show "review_below s s" for s :: "'a db_scheme"
    by (simp add: review_below_def list_all2_same review_advances_refl)
  show "review_below s t \<Longrightarrow> review_below t u \<Longrightarrow> review_below s u" for s t u :: "'a db_scheme"
    by (auto simp: review_below_def intro: list_all2_trans [OF review_advances_trans])
qed

subsection \<open>Exactly one claim wins\<close>

text \<open>How many claims of item \<open>i\<close> are answered with the item while the requests are served.\<close>

fun claim_wins :: "uuid \<Rightarrow> review_op list \<Rightarrow> 'a db_scheme \<Rightarrow> nat" where
  "claim_wins i [] d = 0"
| "claim_wins i (op # ops) d =
     (case op of Claim j \<Rightarrow> if j = i \<and> \<not> isl (fst (claim_review_item i d)) then 1 else 0 | _ \<Rightarrow> 0) +
     claim_wins i ops (review_step op d)"

lemma claim_succeeds_iff:
  assumes "distinct (map rv_id (review_items d))"
  shows "\<not> isl (fst (claim_review_item i d)) \<longleftrightarrow>
     map_option rv_status (fetch rv_id i (review_items d)) = Some RS_open"
  by (simp add: claim_review_item_def guarded_review_update_eq [OF assms] split: option.split)

text \<open>The status of an item after one step: only a claim moves it out of open.\<close>

lemma status_after_step:
  "map_option rv_status (fetch rv_id i (review_items (review_step op d))) =
     (case op of
        Claim j \<Rightarrow> map_option (\<lambda>v. if j = i \<and> rv_status v = RS_open then RS_claimed else rv_status v)
      | Resolve j q \<Rightarrow> map_option (\<lambda>v. if j = i \<and> resolve_request_ok q \<and> rv_status v = RS_claimed
                         then RS_resolved else rv_status v)
      | Wait _ \<Rightarrow> map_option rv_status) (fetch rv_id i (review_items d))"
proof -
  have "rv_id v = i" if "fetch rv_id i (review_items d) = Some v" for v
    using that by (auto dest: fetch_SomeD)
  then show ?thesis
    by (cases "fetch rv_id i (review_items d)"; cases op)
       (auto simp: review_step_def claim_review_item_def resolve_review_item_def
         guarded_review_update_state fetch_sql_update)
qed

text \<open>
  C32. Whatever claims, resolutions and waits arrive in whatever order, exactly one claim of an
  open review item is answered with the item when there is one at all, and none of an item that is
  claimed, resolved or unknown.
\<close>

theorem claim_wins_once:
  assumes "review_inv d"
  shows "claim_wins i ops d =
     (if map_option rv_status (fetch rv_id i (review_items d)) = Some RS_open \<and> Claim i \<in> set ops
      then 1 else 0)"
  using assms
proof (induction ops arbitrary: d)
  case Nil
  show ?case by simp
next
  case (Cons op ops)
  have dist: "distinct (map rv_id (review_items d))" using Cons.prems by (simp add: review_inv_def)
  show ?case
    using Cons.IH [OF review_step_inv [OF Cons.prems], of op] claim_succeeds_iff [OF dist, of i]
    by (cases op; cases "fetch rv_id i (review_items d)") (auto simp: status_after_step)
qed

definition fx_reviews :: db where
  "fx_reviews = \<lparr>task_sets = [], tasks = [], model_endpoints = [], eval_runs = [], run_items = [],
     grades = [], review_items = [new_review_item 70 3 40 RR_low_confidence,
       (new_review_item 71 3 41 RR_judge_disagreement)\<lparr>rv_status := RS_claimed, rv_claimed_at := Some 4\<rparr>],
     api_keys = [], db_now = 7, uuid_next = 100\<rparr>"

theorem claim_wins_once_witness:
  "claim_wins 70 [Resolve 70 \<lparr>rq_label = 1, rq_notes = None\<rparr>, Claim 71, Claim 70, Wait 2, Claim 70] fx_reviews =
     (if map_option rv_status (fetch rv_id 70 (review_items fx_reviews)) = Some RS_open \<and>
         Claim 70 \<in> set [Resolve 70 \<lparr>rq_label = 1, rq_notes = None\<rparr>, Claim 71, Claim 70, Wait 2, Claim 70]
      then 1 else 0)"
  by (rule claim_wins_once) code_simp

subsection \<open>A resolution stands\<close>

text \<open>
  C33. Resolving a claimed item with a label in [0, 1] stores that label to the nearest thousandth,
  within [0, 1], and no later request or amount of time changes the row again.
\<close>

theorem resolution_stands:
  assumes "review_inv d" and "fetch rv_id i (review_items d) = Some v" and "rv_status v = RS_claimed"
    and "resolve_request_ok q"
  shows "let (r, d') = resolve_review_item i q d;
             v' = v\<lparr>rv_status := RS_resolved, rv_reviewer_label := Some (quantize 3 (rq_label q)),
                    rv_reviewer_notes := rq_notes q, rv_resolved_at := Some (db_now d)\<rparr> in
         r = Inr (review_item_read_of v') \<and>
         \<bar>quantize 3 (rq_label q) - rq_label q\<bar> \<le> 1 / 2000 \<and>
         0 \<le> quantize 3 (rq_label q) \<and> quantize 3 (rq_label q) \<le> 1 \<and>
         fetch rv_id i (review_items (fold review_step ops d')) = Some v'"
proof -
  let ?v' = "v\<lparr>rv_status := RS_resolved, rv_reviewer_label := Some (quantize 3 (rq_label q)),
    rv_reviewer_notes := rq_notes q, rv_resolved_at := Some (db_now d)\<rparr>"
  have dist: "distinct (map rv_id (review_items d))" using assms(1) by (simp add: review_inv_def)
  have id: "rv_id v = i" using assms(2) by (auto dest: fetch_SomeD)
  have d': "snd (resolve_review_item i q d) = review_step (Resolve i q) d"
    using assms(4) by (simp add: review_step_def)
  have r: "fst (resolve_review_item i q d) = Inr (review_item_read_of ?v')"
    using assms(2,3) by (simp add: resolve_review_item_def guarded_review_update_eq [OF dist])
  have row: "fetch rv_id i (review_items (review_step (Resolve i q) d)) = Some ?v'"
    using assms(2,3) id
    by (simp add: d' [symmetric] resolve_review_item_def guarded_review_update_state fetch_sql_update)
  have inv: "review_inv (review_step (Resolve i q) d)" by (rule review_step_inv [OF assms(1)])
  have later: "review_below (review_step (Resolve i q) d)
      (fold review_step ops (review_step (Resolve i q) d))"
    by (rule review.below_run [OF inv])
  have final: "fetch rv_id i ys = Some ?v'"
    if "list_all2 review_advances xs ys" "fetch rv_id i xs = Some ?v'" for xs ys
    using that
    by (induction rule: list_all2_induct) (auto simp: review_advances_def split: if_splits)
  have "fetch rv_id i (review_items (fold review_step ops (review_step (Resolve i q) d))) = Some ?v'"
    by (rule final [OF _ row]) (use later in \<open>simp add: review_below_def\<close>)
  moreover have "\<bar>quantize 3 (rq_label q) - rq_label q\<bar> \<le> 1 / 2000"
    using quantize_near [of 3 "rq_label q"] by simp
  ultimately show ?thesis
    using r quantize_unit [of "rq_label q" 3] assms(4)
    by (simp add: case_prod_unfold Let_def d' resolve_request_ok_def)
qed

definition fx_label :: resolve_request where
  "fx_label = \<lparr>rq_label = 12345 / 100000, rq_notes = Some ''ok''\<rparr>"

definition fx_claimed :: review_item where
  "fx_claimed = (new_review_item 71 3 41 RR_judge_disagreement)
     \<lparr>rv_status := RS_claimed, rv_claimed_at := Some 4\<rparr>"

theorem resolution_stands_witness:
  "let (r, d') = resolve_review_item 71 fx_label fx_reviews;
       v' = fx_claimed\<lparr>rv_status := RS_resolved,
              rv_reviewer_label := Some (quantize 3 (rq_label fx_label)),
              rv_reviewer_notes := rq_notes fx_label, rv_resolved_at := Some (db_now fx_reviews)\<rparr> in
   r = Inr (review_item_read_of v') \<and>
   \<bar>quantize 3 (rq_label fx_label) - rq_label fx_label\<bar> \<le> 1 / 2000 \<and>
   0 \<le> quantize 3 (rq_label fx_label) \<and> quantize 3 (rq_label fx_label) \<le> 1 \<and>
   fetch rv_id 71 (review_items (fold review_step
     [Claim 71, Wait 3, Resolve 71 \<lparr>rq_label = 0, rq_notes = None\<rparr>] d')) = Some v'"
  by (rule resolution_stands) code_simp+

subsection \<open>Statistics and pages\<close>

lemma mean_nonneg: "(\<And>x. x \<in> set xs \<Longrightarrow> 0 \<le> x) \<Longrightarrow> mean xs = Some m \<Longrightarrow> 0 \<le> m"
  by (auto simp: mean_def sum_list_nonneg split: if_splits)

lemma map_filter_Nil_iff: "List.map_filter f xs = [] \<longleftrightarrow> (\<forall>x \<in> set xs. f x = None)"
  by (induction xs) (auto simp: map_filter_simps split: option.splits)

lemma set_map_filter_iff: "y \<in> set (List.map_filter f xs) \<longleftrightarrow> (\<exists>x \<in> set xs. f x = Some y)"
  by (induction xs) (auto simp: map_filter_simps split: option.splits)

text \<open>
  The statistics cover every review item exactly once, the resolved ones are exactly those
  with a label, and the mean time to resolve is absent exactly when nothing is resolved and never
  negative.
\<close>

theorem stats_cover_queue:
  assumes "review_inv d"
  shows "let st = review_queue_stats d in
         rst_open st + rst_claimed st + rst_resolved st = length (review_items d) \<and>
         rst_resolved st = rowcount (\<lambda>v. rv_reviewer_label v \<noteq> None) (review_items d) \<and>
         (rst_mean_time_to_resolve_ms st = None \<longleftrightarrow> rst_resolved st = 0) \<and>
         (case rst_mean_time_to_resolve_ms st of None \<Rightarrow> True | Some m \<Rightarrow> 0 \<le> m)"
proof -
  let ?vs = "review_items d"
  let ?sec = "\<lambda>v. case (rv_resolved_at v, rv_claimed_at v) of
    (Some t, Some c) \<Rightarrow> Some (of_int (int t - int c) :: rat) | _ \<Rightarrow> None"
  have row: "v \<in> set ?vs \<Longrightarrow> review_row_ok (db_now d) v" for v
    using assms by (simp add: review_inv_def list_all_iff)
  have all: "rowcount (\<lambda>v. rv_status v = RS_open) vs + rowcount (\<lambda>v. rv_status v = RS_claimed) vs +
      rowcount (\<lambda>v. rv_status v = RS_resolved) vs = length vs" for vs
  proof (induction vs)
    case Nil
    show ?case by simp
  next
    case (Cons v vs)
    then show ?case by (cases "rv_status v") simp_all
  qed
  have label: "rv_status v = RS_resolved \<longleftrightarrow> rv_reviewer_label v \<noteq> None" if "v \<in> set ?vs" for v
    using row [OF that] by (auto simp: review_row_ok_def split: review_status.splits option.splits)
  have time: "?sec v = None \<longleftrightarrow> rv_status v \<noteq> RS_resolved" if "v \<in> set ?vs" for v
    using row [OF that] by (auto simp: review_row_ok_def split: review_status.splits option.splits)
  have late: "0 \<le> x" if "v \<in> set ?vs" "?sec v = Some x" for v x
    using row [OF that(1)] that(2)
    by (auto simp: review_row_ok_def split: review_status.splits option.splits)
  have none: "mean (List.map_filter ?sec ?vs) = None \<longleftrightarrow>
      rowcount (\<lambda>v. rv_status v = RS_resolved) ?vs = 0"
    using time by (simp add: mean_def map_filter_Nil_iff rowcount_zero_iff)
  have res: "rowcount (\<lambda>v. rv_status v = RS_resolved) ?vs =
      rowcount (\<lambda>v. rv_reviewer_label v \<noteq> None) ?vs"
    by (rule rowcount_cong) (rule label)
  have "0 \<le> m" if "mean (List.map_filter ?sec ?vs) = Some m" for m
    by (rule mean_nonneg [OF _ that]) (auto simp: set_map_filter_iff intro: late)
  then show ?thesis
    using all [of ?vs] none res
    by (simp add: review_queue_stats_def Let_def split: option.split)
qed

theorem stats_cover_queue_witness:
  "let st = review_queue_stats fx_reviews in
   rst_open st + rst_claimed st + rst_resolved st = length (review_items fx_reviews) \<and>
   rst_resolved st = rowcount (\<lambda>v. rv_reviewer_label v \<noteq> None) (review_items fx_reviews) \<and>
   (rst_mean_time_to_resolve_ms st = None \<longleftrightarrow> rst_resolved st = 0) \<and>
   (case rst_mean_time_to_resolve_ms st of None \<Rightarrow> True | Some m \<Rightarrow> 0 \<le> m)"
  by (rule stats_cover_queue) code_simp

text \<open>Sorting by one key and then stably by another is sorting by the pair.\<close>

definition lex_le :: "('x \<Rightarrow> nat) \<Rightarrow> ('x \<Rightarrow> nat) \<Rightarrow> 'x \<Rightarrow> 'x \<Rightarrow> bool" where
  "lex_le f g x y \<longleftrightarrow> f x < f y \<or> f x = f y \<and> g x \<le> g y"

lemma sorted_wrt_lex:
  assumes "sorted (map f xs)" and "\<And>k. sorted (map g (filter (\<lambda>x. f x = k) xs))"
  shows "sorted_wrt (lex_le f g) xs"
  using assms
proof (induction xs)
  case Nil
  show ?case by simp
next
  case (Cons x xs)
  have "lex_le f g x y" if "y \<in> set xs" for y
    using Cons.prems(1) Cons.prems(2) [of "f x"] that by (force simp: lex_le_def)
  moreover have "sorted (map g (filter (\<lambda>x. f x = k) xs))" for k
    using Cons.prems(2) [of k] by (simp split: if_splits)
  ultimately show ?case using Cons by simp
qed

lemma sort_key_lex: "sorted_wrt (lex_le f g) (sort_key f (sort_key g xs))"
proof (rule sorted_wrt_lex)
  show "sorted (map g (filter (\<lambda>x. f x = k) (sort_key f (sort_key g xs))))" for k
    by (simp add: sort_key_stable sorted_filter)
qed simp

definition review_matches :: "review_status \<Rightarrow> string option \<Rightarrow> 'a db_scheme \<Rightarrow>
    (review_item \<times> run_item \<times> task) list" where
  "review_matches st capability d =
     filter (\<lambda>(v, _, t). rv_status v = st \<and>
             (case capability of None \<Rightarrow> True | Some c \<Rightarrow> c = [] \<or> tk_capability t = c))
       (List.map_filter (joined_review d) (review_items d))"

text \<open>
  A page of the queue holds the oldest matching items: at most \<open>limit\<close> of them, in order of
  creation and then id, every matching item when fewer than \<open>limit\<close> are shown, and otherwise
  nothing that is left out comes strictly before something shown.
\<close>

theorem review_page_oldest_first:
  "let rows = review_rows st capability limit d;
       key = lex_le (\<lambda>(v, _, _). rv_created_at v) (\<lambda>(v, _, _). rv_id v) in
   length rows \<le> limit \<and> sorted_wrt key rows \<and> mset rows \<subseteq># mset (review_matches st capability d) \<and>
   (length rows < limit \<longrightarrow> mset rows = mset (review_matches st capability d)) \<and>
   (\<forall>x \<in># mset (review_matches st capability d) - mset rows. \<forall>y \<in> set rows. key y x)"
proof -
  define key where "key = lex_le (\<lambda>(v :: review_item, _ :: run_item, _ :: task). rv_created_at v)
    (\<lambda>(v, _, _). rv_id v)"
  define all where "all = sort_key (\<lambda>(v :: review_item, _ :: run_item, _ :: task). rv_created_at v)
    (sort_key (\<lambda>(v, _, _). rv_id v) (review_matches st capability d))"
  have rows: "review_rows st capability limit d = take limit all"
    by (simp add: review_rows_def all_def review_matches_def)
  have ms: "mset all = mset (review_matches st capability d)" by (simp add: all_def)
  have "sorted_wrt key all" unfolding key_def all_def by (rule sort_key_lex)
  then have "sorted_wrt key (take limit all @ drop limit all)" by simp
  then have split: "sorted_wrt key (take limit all)"
      "\<And>x y. x \<in> set (take limit all) \<Longrightarrow> y \<in> set (drop limit all) \<Longrightarrow> key x y"
    unfolding sorted_wrt_append by blast+
  have rest: "mset all - mset (take limit all) = mset (drop limit all)"
    by (metis add_diff_cancel_left' append_take_drop_id mset_append)
  have sub: "mset (take limit all) \<subseteq># mset all"
    by (metis append_take_drop_id mset_append mset_subset_eq_add_left)
  show ?thesis
    unfolding Let_def key_def [symmetric] rows ms [symmetric] rest
    using split sub by (intro conjI impI ballI) simp_all
qed

definition fx_queue :: sys where
  "fx_queue = fx_sys\<lparr>review_items := [new_review_item 71 3 41 RR_judge_disagreement,
     new_review_item 70 3 40 RR_low_confidence]\<rparr>"

theorem review_page_oldest_first_witness:
  "let rows = review_rows RS_open (Some ''geo'') 1 fx_queue;
       key = lex_le (\<lambda>(v, _, _). rv_created_at v) (\<lambda>(v, _, _). rv_id v) in
   length rows \<le> 1 \<and> sorted_wrt key rows \<and>
   mset rows \<subseteq># mset (review_matches RS_open (Some ''geo'') fx_queue) \<and>
   (length rows < 1 \<longrightarrow> mset rows = mset (review_matches RS_open (Some ''geo'') fx_queue)) \<and>
   (\<forall>x \<in># mset (review_matches RS_open (Some ''geo'') fx_queue) - mset rows. \<forall>y \<in> set rows. key y x)"
  by (rule review_page_oldest_first)

end
