(* ===== verification/Leaderboard.thy ===== *)
theory Leaderboard
  imports Review_Facts
begin

text \<open>
  \<open>app/api/v1/leaderboard.py\<close>: the common table expression \<open>effective\<close> and the three queries over
  it, with the conversions of the handlers. Joins are list comprehensions, so an outer join that
  matches twice would give two rows here as well.

  \<open>AVG\<close> and \<open>percentile_cont\<close> are exact: PostgreSQL computes them to 16 significant digits before
  \<open>ROUND\<close>, which could only differ at a tie within \<open>10 ^ -16\<close>. Text columns are ordered by the
  database's collation, given as a sort key \<open>ck\<close>. \<open>float(None)\<close> in a handler is a \<open>TypeError\<close>.
\<close>

subsection \<open>The effective rows\<close>

record effective_row =
  ef_model_endpoint_id :: uuid
  ef_eval_run_id :: uuid
  ef_latency_ms :: "int option"
  ef_cost_usd :: "rat option"
  ef_capability :: string
  ef_score :: "rat option"

definition left_join :: "'x list \<Rightarrow> 'x option list" where
  "left_join xs = (if xs = [] then [None] else map Some xs)"

definition coalesce :: "'x option \<Rightarrow> 'x option \<Rightarrow> 'x option" where
  "coalesce a b = (case a of None \<Rightarrow> b | Some x \<Rightarrow> Some x)"

definition task_filters :: "uuid option \<Rightarrow> string option \<Rightarrow> task \<Rightarrow> bool" where
  "task_filters task_set_id capability t \<longleftrightarrow>
     (case task_set_id of None \<Rightarrow> True | Some k \<Rightarrow> tk_task_set_id t = k) \<and>
     (case capability of None \<Rightarrow> True | Some c \<Rightarrow> c = [] \<or> tk_capability t = c)"

definition resolved_reviews :: "'a db_scheme \<Rightarrow> run_item \<Rightarrow> review_item list" where
  "resolved_reviews d r =
     filter (\<lambda>v. rv_run_item_id v = ri_id r \<and> rv_status v = RS_resolved) (review_items d)"

definition scored_grades :: "'a db_scheme \<Rightarrow> grader_kind \<Rightarrow> run_item \<Rightarrow> grade list" where
  "scored_grades d kind r =
     filter (\<lambda>g. gr_run_item_id g = ri_id r \<and> gr_grader g = kind \<and> gr_score g \<noteq> None) (grades d)"

definition effective :: "(task \<Rightarrow> bool) \<Rightarrow> 'a db_scheme \<Rightarrow> effective_row list" where
  "effective keep d =
     [\<lparr>ef_model_endpoint_id = ri_model_endpoint_id r, ef_eval_run_id = ri_eval_run_id r,
       ef_latency_ms = ri_latency_ms r, ef_cost_usd = ri_cost_usd r, ef_capability = tk_capability t,
       ef_score = coalesce (Option.bind rv rv_reviewer_label)
         (coalesce (Option.bind jg gr_score) (Option.bind dg gr_score))\<rparr>.
      r \<leftarrow> filter (\<lambda>r. ri_status r = Item_succeeded) (run_items d),
      t \<leftarrow> filter (\<lambda>t. tk_id t = ri_task_id r \<and> keep t) (tasks d),
      rv \<leftarrow> left_join (resolved_reviews d r),
      jg \<leftarrow> left_join (scored_grades d GK_llm_judge r),
      dg \<leftarrow> left_join (scored_grades d GK_deterministic r)]"

subsection \<open>Aggregates\<close>

definition group_by :: "('r \<Rightarrow> 'k) \<Rightarrow> 'r list \<Rightarrow> ('k \<times> 'r list) list" where
  "group_by key rows = map (\<lambda>k. (k, filter (\<lambda>r. key r = k) rows)) (remdups (map key rows))"

definition score_of :: "effective_row \<Rightarrow> rat" where
  "score_of e = or_zero (ef_score e)"

definition mean_score_of :: "effective_row list \<Rightarrow> rat" where
  "mean_score_of rows = sql_round 3 (or_zero (mean (map score_of rows)))"

definition pass_rate_of :: "effective_row list \<Rightarrow> rat" where
  "pass_rate_of rows =
     sql_round 3 (or_zero (mean (map (\<lambda>e. if 1 / 2 \<le> score_of e then 1 else 0) rows)))"

definition sql_sum :: "rat option list \<Rightarrow> rat option" where
  "sql_sum xs = (let ys = List.map_filter (\<lambda>x. x) xs in if ys = [] then None else Some (sum_list ys))"

text \<open>
  \<open>percentile_cont\<close>: the value at position \<open>p * (n - 1)\<close> of the ordered values, interpolated
  between its two neighbours.
\<close>

definition percentile_cont :: "rat \<Rightarrow> int list \<Rightarrow> rat option" where
  "percentile_cont p xs =
     (if xs = [] then None
      else let ys = sort xs; pos = p * of_nat (length ys - 1); lo = nat \<lfloor>pos\<rfloor>; hi = nat \<lceil>pos\<rceil>;
               a = of_int (ys ! lo); b = of_int (ys ! hi)
           in Some (a + (pos - of_nat lo) * (b - a)))"

record leaderboard_row =
  lb_model_endpoint_id :: uuid
  lb_name :: string
  lb_mean_score :: rat
  lb_pass_rate :: rat
  lb_n :: nat
  lb_mean_latency_ms :: "rat option"
  lb_p95_latency_ms :: "rat option"
  lb_total_cost_usd :: rat
  lb_cost_per_1k :: rat

definition scored :: "effective_row list \<Rightarrow> effective_row list" where
  "scored rows = filter (\<lambda>e. ef_score e \<noteq> None) rows"

definition with_endpoint :: "'a db_scheme \<Rightarrow> effective_row list \<Rightarrow> (model_endpoint \<times> effective_row) list" where
  "with_endpoint d rows =
     [(ep, e). e \<leftarrow> rows, ep \<leftarrow> filter (\<lambda>ep. me_id ep = ef_model_endpoint_id e) (model_endpoints d)]"

definition float_of :: "rat option \<Rightarrow> exn + rat" where
  "float_of x =
     (case x of None \<Rightarrow> Inl (TypeError ''float() argument must be a string or a real number'')
      | Some v \<Rightarrow> Inr v)"

definition leaderboard_row_of :: "uuid \<times> string \<Rightarrow> effective_row list \<Rightarrow> exn + leaderboard_row" where
  "leaderboard_row_of key rows =
     (let latencies = List.map_filter ef_latency_ms rows; total = sql_sum (map ef_cost_usd rows) in
      case (float_of total, float_of (map_option (\<lambda>c. sql_round 6 (c * 1000 / of_nat (length rows))) total)) of
        (Inr cost, Inr per_1k) \<Rightarrow> Inr
          \<lparr>lb_model_endpoint_id = fst key, lb_name = snd key, lb_mean_score = mean_score_of rows,
           lb_pass_rate = pass_rate_of rows, lb_n = length rows,
           lb_mean_latency_ms = map_option (sql_round 1) (mean (map of_int latencies)),
           lb_p95_latency_ms = map_option (sql_round 1) (percentile_cont (95 / 100) latencies),
           lb_total_cost_usd = cost, lb_cost_per_1k = per_1k\<rparr>
      | (Inl e, _) \<Rightarrow> Inl e
      | (_, Inl e) \<Rightarrow> Inl e)"

definition leaderboard_groups :: "(string \<Rightarrow> string) \<Rightarrow> uuid option \<Rightarrow> string option \<Rightarrow> 'a db_scheme \<Rightarrow>
    ((uuid \<times> string) \<times> effective_row list) list" where
  "leaderboard_groups ck task_set_id capability d =
     sort_key (\<lambda>(_, rows). - mean_score_of rows) (sort_key (\<lambda>((_, name), _). ck name)
       (map (\<lambda>(k, ps). (k, map snd ps))
         (group_by (\<lambda>(ep, _). (me_id ep, me_name ep))
           (with_endpoint d (scored (effective (task_filters task_set_id capability) d))))))"

definition get_leaderboard :: "(string \<Rightarrow> string) \<Rightarrow> uuid option \<Rightarrow> string option \<Rightarrow> 'a db_scheme \<Rightarrow>
    exn + leaderboard_row list" where
  "get_leaderboard ck task_set_id capability d =
     collect (map (\<lambda>(k, rows). leaderboard_row_of k rows)
       (leaderboard_groups ck task_set_id capability d))"

subsection \<open>History and capabilities\<close>

record history_point =
  hp_model_version :: string
  hp_eval_run_id :: uuid
  hp_evaluated_at :: timestamp
  hp_mean_score :: rat
  hp_n :: nat

definition history_groups :: "(string \<Rightarrow> string) \<Rightarrow> string \<Rightarrow> 'a db_scheme \<Rightarrow>
    ((string \<times> uuid \<times> timestamp) \<times> effective_row list) list" where
  "history_groups ck model_name d =
     (let rows = [((me_model_version ep, er_id run, er_created_at run), e).
                    (ep, e) \<leftarrow> with_endpoint d (scored (effective (\<lambda>_. True) d)),
                    run \<leftarrow> filter (\<lambda>run. er_id run = ef_eval_run_id e \<and> me_name ep = model_name) (eval_runs d)]
      in sort_key (\<lambda>((_, _, created), _). created) (sort_key (\<lambda>((version, _), _). ck version)
           (map (\<lambda>(k, ps). (k, map snd ps)) (group_by fst rows))))"

definition get_leaderboard_history ::
  "(string \<Rightarrow> string) \<Rightarrow> string \<Rightarrow> 'a db_scheme \<Rightarrow> history_point list" where
  "get_leaderboard_history ck model_name d =
     map (\<lambda>((version, run_id, created), rows).
            \<lparr>hp_model_version = version, hp_eval_run_id = run_id, hp_evaluated_at = created,
             hp_mean_score = mean_score_of rows, hp_n = length rows\<rparr>)
       (history_groups ck model_name d)"

record capability_row =
  cp_capability :: string
  cp_mean_score :: rat
  cp_pass_rate :: rat
  cp_n :: nat

definition capability_groups :: "(string \<Rightarrow> string) \<Rightarrow> uuid \<Rightarrow> 'a db_scheme \<Rightarrow>
    (string \<times> effective_row list) list" where
  "capability_groups ck model_endpoint_id d =
     sort_key (\<lambda>(c, _). ck c)
       (group_by ef_capability
         (filter (\<lambda>e. ef_model_endpoint_id e = model_endpoint_id)
           (scored (effective (\<lambda>_. True) d))))"

definition get_capability_breakdown ::
  "(string \<Rightarrow> string) \<Rightarrow> uuid \<Rightarrow> 'a db_scheme \<Rightarrow> capability_row list" where
  "get_capability_breakdown ck model_endpoint_id d =
     map (\<lambda>(c, rows). \<lparr>cp_capability = c, cp_mean_score = mean_score_of rows,
                       cp_pass_rate = pass_rate_of rows, cp_n = length rows\<rparr>)
       (capability_groups ck model_endpoint_id d)"

end
