(* ===== verification/Leaderboard_Facts.thy ===== *)
theory Leaderboard_Facts
  imports Leaderboard
begin

text \<open>
  What the leaderboard promises: under the table invariants the joins never fan out, the score of
  an item follows the precedence label, judge, deterministic, the aggregates are in range and count
  every scored item once, and the percentile lies where it should. Then the divergence from
  \<open>authoritative_score\<close>.
\<close>

subsection \<open>No fan-out\<close>

text \<open>The reference: the score of one item by precedence, looked up row by row.\<close>

definition effective_score :: "'a db_scheme \<Rightarrow> run_item \<Rightarrow> rat option" where
  "effective_score d r =
     (case Option.bind (find (\<lambda>v. rv_run_item_id v = ri_id r \<and> rv_status v = RS_resolved)
             (review_items d)) rv_reviewer_label of
        Some label \<Rightarrow> Some label
      | None \<Rightarrow>
          (case Option.bind (find (\<lambda>g. gr_run_item_id g = ri_id r \<and> gr_grader g = GK_llm_judge)
                  (grades d)) gr_score of
             Some x \<Rightarrow> Some x
           | None \<Rightarrow> Option.bind (find (\<lambda>g. gr_run_item_id g = ri_id r \<and>
                       gr_grader g = GK_deterministic) (grades d)) gr_score))"

definition effective_row_of :: "'a db_scheme \<Rightarrow> (task \<Rightarrow> bool) \<Rightarrow> run_item \<Rightarrow> effective_row option" where
  "effective_row_of d keep r =
     (case fetch tk_id (ri_task_id r) (tasks d) of
        None \<Rightarrow> None
      | Some t \<Rightarrow>
          if keep t
          then Some \<lparr>ef_model_endpoint_id = ri_model_endpoint_id r, ef_eval_run_id = ri_eval_run_id r,
                     ef_latency_ms = ri_latency_ms r, ef_cost_usd = ri_cost_usd r,
                     ef_capability = tk_capability t, ef_score = effective_score d r\<rparr>
          else None)"

text \<open>A selection that is unique by a key has at most one row, the one \<open>find\<close> finds.\<close>

lemma filter_unique:
  assumes "distinct (map key rows)" and "\<And>r. P r \<Longrightarrow> key r = k"
  shows "filter P rows = (case find P rows of None \<Rightarrow> [] | Some r \<Rightarrow> [r])"
  using assms(1)
proof (induction rows)
  case Nil
  show ?case by simp
next
  case (Cons r rows)
  have "filter P rows = []" if "P r"
  proof -
    have "\<not> P r'" if "r' \<in> set rows" for r'
    proof
      assume "P r'"
      then have "key r' = key r" using assms(2) \<open>P r\<close> by metis
      with Cons.prems that show False by (metis distinct.simps(2) image_eqI list.set_map list.simps(9))
    qed
    then show ?thesis by (simp add: filter_empty_conv)
  qed
  then show ?case using Cons by auto
qed

lemma find_and_score:
  assumes "distinct (map key rows)" and "\<And>r. P r \<Longrightarrow> key r = k"
  shows "Option.bind (find (\<lambda>r. P r \<and> w r \<noteq> None) rows) w = Option.bind (find P rows) w"
  using assms(1)
proof (induction rows)
  case Nil
  show ?case by simp
next
  case (Cons r rows)
  show ?case
  proof (cases "P r")
    case True
    have "find P rows = None"
    proof -
      have "\<not> P r'" if "r' \<in> set rows" for r'
      proof
        assume "P r'"
        then have "key r' = key r" using assms(2) True by metis
        with Cons.prems that show False by (metis distinct.simps(2) image_eqI list.set_map list.simps(9))
      qed
      then show ?thesis by (simp add: find_None_iff)
    qed
    then show ?thesis using Cons True by (cases "w r") auto
  next
    case False
    then show ?thesis using Cons by simp
  qed
qed

lemma left_join_unique:
  assumes "distinct (map key rows)" and "\<And>r. P r \<Longrightarrow> key r = k"
  shows "left_join (filter P rows) = [find P rows]"
  by (simp add: filter_unique [OF assms] left_join_def split: option.split)

lemma effective_eq:
  assumes "grades_unique d" and "reviews_unique d" and "distinct (map tk_id (tasks d))"
  shows "effective keep d =
     List.map_filter (effective_row_of d keep)
       (filter (\<lambda>r. ri_status r = Item_succeeded) (run_items d))"
proof -
  let ?gkey = "\<lambda>g. (gr_run_item_id g, gr_grader g)"
  have rv: "left_join (resolved_reviews d r) =
      [find (\<lambda>v. rv_run_item_id v = ri_id r \<and> rv_status v = RS_resolved) (review_items d)]" for r
    unfolding resolved_reviews_def
    by (rule left_join_unique [where key = rv_run_item_id]) (use assms(2) in \<open>simp_all add: reviews_unique_def\<close>)
  have gr: "left_join (scored_grades d kind r) = [find (\<lambda>g. (gr_run_item_id g = ri_id r \<and>
      gr_grader g = kind) \<and> gr_score g \<noteq> None) (grades d)]" for kind r
    unfolding scored_grades_def conj_assoc [symmetric]
    by (rule left_join_unique [where key = ?gkey and k = "(ri_id r, kind)"])
       (use assms(1) in \<open>simp_all add: grades_unique_def\<close>)
  have sc: "Option.bind (find (\<lambda>g. (gr_run_item_id g = ri_id r \<and> gr_grader g = kind) \<and>
        gr_score g \<noteq> None) (grades d)) gr_score =
      Option.bind (find (\<lambda>g. gr_run_item_id g = ri_id r \<and> gr_grader g = kind) (grades d)) gr_score" for kind r
    by (rule find_and_score [where key = ?gkey and k = "(ri_id r, kind)"])
       (use assms(1) in \<open>simp_all add: grades_unique_def\<close>)
  have task: "filter (\<lambda>t. tk_id t = ri_task_id r \<and> keep t) (tasks d) =
      (case fetch tk_id (ri_task_id r) (tasks d) of None \<Rightarrow> [] | Some t \<Rightarrow> if keep t then [t] else [])" for r
  proof -
    have "filter (\<lambda>t. tk_id t = ri_task_id r) (tasks d) =
        (case fetch tk_id (ri_task_id r) (tasks d) of None \<Rightarrow> [] | Some t \<Rightarrow> [t])"
      unfolding fetch_def by (rule filter_unique [OF assms(3)]) simp
    then have "filter keep (filter (\<lambda>t. tk_id t = ri_task_id r) (tasks d)) =
        (case fetch tk_id (ri_task_id r) (tasks d) of None \<Rightarrow> [] | Some t \<Rightarrow> if keep t then [t] else [])"
      by (simp split: option.split)
    then show ?thesis by (simp add: conj_commute)
  qed
  have one: "concat (map f (filter p rows)) = List.map_filter g (filter p rows)"
    if "\<And>r. f r = (case g r of None \<Rightarrow> [] | Some x \<Rightarrow> [x])" for f :: "run_item \<Rightarrow> effective_row list"
      and g p rows
    by (induction rows) (simp_all add: that map_filter_simps split: option.split)
  have score: "coalesce (Option.bind (find (\<lambda>v. rv_run_item_id v = ri_id r \<and> rv_status v = RS_resolved)
        (review_items d)) rv_reviewer_label)
      (coalesce (Option.bind (find (\<lambda>g. gr_run_item_id g = ri_id r \<and> gr_grader g = GK_llm_judge)
          (grades d)) gr_score)
        (Option.bind (find (\<lambda>g. gr_run_item_id g = ri_id r \<and> gr_grader g = GK_deterministic)
          (grades d)) gr_score)) = effective_score d r" for r
    unfolding effective_score_def coalesce_def by (simp split: option.split)
  show ?thesis
    unfolding effective_def rv gr task
    by (rule one) (simp add: effective_row_of_def sc score split: option.split
        del: conj_assoc not_None_eq)
qed


text \<open>Two executed items of a task with both graders; the judge disagrees, the first review is resolved.\<close>

definition fx_board :: sys where
  "fx_board =
     (let w = fx_worker (fx_provider ''V''); s = fx_sys\<lparr>tasks := [fx_both_task]\<rparr>;
          s1 = snd (execute_run_item fx_env w 40 s); s2 = snd (execute_run_item fx_env w 41 s1)
      in review_step (Resolve 102 fx_label) (review_step (Claim 102) s2))"


subsection \<open>Grouping\<close>

lemma group_by_lengths: "(\<Sum>(k, ps) \<leftarrow> group_by key rows. length ps) = length rows"
proof -
  have "(\<Sum>(k, ps) \<leftarrow> group_by key rows. length ps) =
      (\<Sum>k \<leftarrow> remdups (map key rows). \<Sum>r \<leftarrow> filter (\<lambda>r. key r = k) rows. 1)"
    by (simp add: group_by_def o_def sum_list_triv)
  also have "\<dots> = (\<Sum>r \<leftarrow> rows. 1)" by (rule sum_list_partition) simp_all
  finally show ?thesis by (simp add: sum_list_triv)
qed

lemma group_by_rows: "(k, ps) \<in> set (group_by key rows) \<Longrightarrow> ps \<noteq> [] \<and> set ps \<subseteq> set rows"
  by (auto simp: group_by_def filter_empty_conv)

lemma group_by_keys: "map fst (group_by key rows) = remdups (map key rows)"
  by (simp add: group_by_def o_def)

subsection \<open>Ranges\<close>

definition scores_ok :: "'a db_scheme \<Rightarrow> bool" where
  "scores_ok d \<longleftrightarrow> grading_inv d \<and> list_all (review_row_ok (db_now d)) (review_items d) \<and>
     distinct (map tk_id (tasks d)) \<and> distinct (map me_id (model_endpoints d)) \<and>
     list_all (\<lambda>r. ri_status r = Item_succeeded \<longrightarrow> ri_cost_usd r \<noteq> None) (run_items d)"

lemma find_set: "find P xs = Some x \<Longrightarrow> P x \<and> x \<in> set xs"
  by (induction xs) (auto split: if_splits)

lemma row_label: "review_row_ok now v \<Longrightarrow> rv_reviewer_label v = Some y \<Longrightarrow> 0 \<le> y \<and> y \<le> 1"
  by (cases "rv_status v") (auto simp: review_row_ok_def split: option.splits)

lemma effective_score_unit:
  assumes "scores_ok d" and "effective_score d r = Some x"
  shows "0 \<le> x \<and> x \<le> 1"
proof -
  have label: "0 \<le> y \<and> y \<le> 1" if "v \<in> set (review_items d)" "rv_reviewer_label v = Some y" for v y
    using assms(1) that row_label [of "db_now d" v y] by (simp add: scores_ok_def list_all_iff)
  have grade: "0 \<le> y \<and> y \<le> 1" if "g \<in> set (grades d)" "gr_score g = Some y" for g y
    using assms(1) that by (auto simp: scores_ok_def grading_inv_def list_all_iff grade_ok_def)
  show ?thesis
    using assms(2) label grade
    by (auto simp: effective_score_def bind_eq_Some_conv split: option.splits dest!: find_set)
qed

lemma effective_member:
  assumes "scores_ok d" and "e \<in> set (scored (effective keep d))"
  shows "0 \<le> score_of e \<and> score_of e \<le> 1 \<and> ef_cost_usd e \<noteq> None \<and>
    (\<exists>r \<in> set (run_items d). ri_model_endpoint_id r = ef_model_endpoint_id e)"
proof -
  have "effective keep d = List.map_filter (effective_row_of d keep)
      (filter (\<lambda>r. ri_status r = Item_succeeded) (run_items d))"
    using assms(1) by (intro effective_eq) (simp_all add: scores_ok_def grading_inv_def)
  with assms(2) obtain r where r: "r \<in> set (run_items d)" "ri_status r = Item_succeeded"
      "effective_row_of d keep r = Some e" "ef_score e \<noteq> None"
    by (auto simp: scored_def set_map_filter_iff)
  then have e: "ef_score e = effective_score d r" "ef_cost_usd e = ri_cost_usd r"
      "ef_model_endpoint_id e = ri_model_endpoint_id r"
    by (auto simp: effective_row_of_def split: option.splits if_splits)
  have "ri_cost_usd r \<noteq> None" using assms(1) r by (auto simp: scores_ok_def list_all_iff)
  moreover obtain x where "effective_score d r = Some x" using r(4) e by auto
  ultimately show ?thesis using effective_score_unit [OF assms(1)] r(1) e by (auto simp: score_of_def)
qed

lemma mean_unit:
  assumes "xs \<noteq> []" and "\<And>x. x \<in> set xs \<Longrightarrow> 0 \<le> x \<and> x \<le> 1"
  shows "0 \<le> or_zero (mean xs) \<and> or_zero (mean xs) \<le> 1"
proof -
  obtain m where m: "mean xs = Some m" using assms(1) by (simp add: mean_def)
  have "0 \<le> m \<and> m \<le> 1" by (rule mean_between [OF m]) (use assms(2) in auto)
  with m show ?thesis by simp
qed

lemma mean_score_unit:
  assumes "rows \<noteq> []" and "\<And>e. e \<in> set rows \<Longrightarrow> 0 \<le> score_of e \<and> score_of e \<le> 1"
  shows "0 \<le> mean_score_of rows \<and> mean_score_of rows \<le> 1"
proof -
  have "0 \<le> or_zero (mean (map score_of rows)) \<and> or_zero (mean (map score_of rows)) \<le> 1"
    by (rule mean_unit) (use assms in auto)
  then show ?thesis unfolding mean_score_of_def by (intro sql_round_unit) simp_all
qed

lemma pass_rate_unit: "rows \<noteq> [] \<Longrightarrow> 0 \<le> pass_rate_of rows \<and> pass_rate_of rows \<le> 1"
  unfolding pass_rate_of_def by (intro sql_round_unit conjunct1 [OF mean_unit] conjunct2 [OF mean_unit]) auto

subsection \<open>The leaderboard\<close>

lemma collect_Inr:
  "(\<And>x. x \<in> set xs \<Longrightarrow> f x = Inr (g x)) \<Longrightarrow> collect (map f xs) = Inr (map g xs)"
  by (induction xs) auto

lemma with_endpoint_unique:
  assumes "distinct (map me_id (model_endpoints d))"
    and "\<And>e. e \<in> set rows \<Longrightarrow> fetch me_id (ef_model_endpoint_id e) (model_endpoints d) \<noteq> None"
  shows "with_endpoint d rows =
     map (\<lambda>e. (the (fetch me_id (ef_model_endpoint_id e) (model_endpoints d)), e)) rows"
proof -
  have one: "filter (\<lambda>ep. me_id ep = k) (model_endpoints d) =
      (case fetch me_id k (model_endpoints d) of None \<Rightarrow> [] | Some ep \<Rightarrow> [ep])" for k
    unfolding fetch_def by (rule filter_unique [OF assms(1)]) simp
  show ?thesis
    using assms(2) unfolding with_endpoint_def one
    by (induction rows) (auto split: option.split)
qed

lemma leaderboard_groups_rows:
  assumes "(k, rows) \<in> set (leaderboard_groups ck ts cap d)"
  shows "rows \<noteq> [] \<and> set rows \<subseteq> set (scored (effective (task_filters ts cap) d)) \<and>
    (\<exists>ep \<in> set (model_endpoints d). k = (me_id ep, me_name ep))"
proof -
  let ?base = "with_endpoint d (scored (effective (task_filters ts cap) d))"
  obtain ps where ps: "(k, ps) \<in> set (group_by (\<lambda>(ep, _). (me_id ep, me_name ep)) ?base)"
      "rows = map snd ps"
    using assms by (auto simp: leaderboard_groups_def)
  moreover have "k \<in> (\<lambda>(ep, _). (me_id ep, me_name ep)) ` set ?base"
    using ps(1) by (auto simp: group_by_def)
  ultimately show ?thesis
    using group_by_rows [OF ps(1)] by (fastforce simp: with_endpoint_def)
qed

definition leaderboard_value :: "uuid \<times> string \<Rightarrow> effective_row list \<Rightarrow> leaderboard_row" where
  "leaderboard_value k rows =
     (let latencies = List.map_filter ef_latency_ms rows;
          cost = sum_list (List.map_filter ef_cost_usd rows) in
      \<lparr>lb_model_endpoint_id = fst k, lb_name = snd k, lb_mean_score = mean_score_of rows,
       lb_pass_rate = pass_rate_of rows, lb_n = length rows,
       lb_mean_latency_ms = map_option (sql_round 1) (mean (map of_int latencies)),
       lb_p95_latency_ms = map_option (sql_round 1) (percentile_cont (95 / 100) latencies),
       lb_total_cost_usd = cost, lb_cost_per_1k = sql_round 6 (cost * 1000 / of_nat (length rows))\<rparr>)"

lemma leaderboard_row_of_value:
  assumes "rows \<noteq> []" and "\<And>e. e \<in> set rows \<Longrightarrow> ef_cost_usd e \<noteq> None"
  shows "leaderboard_row_of k rows = Inr (leaderboard_value k rows)"
proof -
  have "List.map_filter (\<lambda>x. x) (map ef_cost_usd rows) = List.map_filter ef_cost_usd rows"
    by (induction rows) (simp_all add: map_filter_simps split: option.split)
  moreover have "List.map_filter ef_cost_usd rows \<noteq> []"
    using assms by (auto simp: map_filter_Nil_iff neq_Nil_conv)
  ultimately show ?thesis
    by (simp add: leaderboard_row_of_def leaderboard_value_def sql_sum_def float_of_def Let_def)
qed

lemma leaderboard_values:
  assumes "scores_ok d"
  shows "get_leaderboard ck ts cap d =
     Inr (map (\<lambda>(k, rows). leaderboard_value k rows) (leaderboard_groups ck ts cap d))"
  unfolding get_leaderboard_def
proof (rule collect_Inr)
  fix x assume mem: "x \<in> set (leaderboard_groups ck ts cap d)"
  obtain k rows where "x = (k, rows)" by (rule prod.exhaust)
  with mem have x: "x = (k, rows)" "(k, rows) \<in> set (leaderboard_groups ck ts cap d)" by simp_all
  from leaderboard_groups_rows [OF x(2)] effective_member [OF assms]
  have "leaderboard_row_of k rows = Inr (leaderboard_value k rows)"
    by (intro leaderboard_row_of_value) blast+
  then show "(case x of (k, rows) \<Rightarrow> leaderboard_row_of k rows) =
      Inr (case x of (k, rows) \<Rightarrow> leaderboard_value k rows)"
    by (simp add: x)
qed

lemma distinct_map_sort_key: "distinct (map f (sort_key g xs)) \<longleftrightarrow> distinct (map f xs)"
  by (metis mset_eq_imp_distinct_iff mset_map mset_sort)

lemma leaderboard_groups_distinct:
  assumes "distinct (map me_id (model_endpoints d))"
  shows "distinct (map (\<lambda>(k, _). fst k) (leaderboard_groups ck ts cap d))"
proof -
  let ?G = "leaderboard_groups ck ts cap d"
  have "distinct (map fst ?G)"
    unfolding leaderboard_groups_def
    by (simp add: distinct_map_sort_key group_by_keys o_def case_prod_unfold)
  moreover have "inj_on fst (fst ` set ?G)"
  proof (rule inj_onI)
    fix a b assume mem: "a \<in> fst ` set ?G" "b \<in> fst ` set ?G" and eq: "fst a = fst b"
    have key: "\<exists>ep \<in> set (model_endpoints d). c = (me_id ep, me_name ep)" if "c \<in> fst ` set ?G" for c
      using that leaderboard_groups_rows [of c _ ck ts cap d] by force
    obtain ea eb where e: "ea \<in> set (model_endpoints d)" "a = (me_id ea, me_name ea)"
        "eb \<in> set (model_endpoints d)" "b = (me_id eb, me_name eb)"
      using key [OF mem(1)] key [OF mem(2)] by blast
    then have "ea = eb" using assms eq by (auto simp: distinct_map dest: inj_onD)
    with e show "a = b" by simp
  qed
  ultimately have "distinct (map fst (map fst ?G))" by (simp add: distinct_map comp_inj_on)
  then show ?thesis by (simp add: case_prod_unfold o_def)
qed

text \<open>
  C23. The leaderboard of a state that keeps the table invariants is computed without an error. It
  has one row per endpoint with a scored item, best mean first; mean score and pass rate lie in
  [0, 1]; every row counts at least one item, and together the rows count every scored succeeded
  item that passes the filters exactly once.
\<close>

theorem leaderboard_sound:
  assumes ok: "scores_ok d" and refs: "refs_ok d"
  shows "\<exists>rows. get_leaderboard ck ts cap d = Inr rows \<and>
     distinct (map lb_model_endpoint_id rows) \<and> sorted (map (\<lambda>r. - lb_mean_score r) rows) \<and>
     list_all (\<lambda>r. 0 \<le> lb_mean_score r \<and> lb_mean_score r \<le> 1 \<and> 0 \<le> lb_pass_rate r \<and>
       lb_pass_rate r \<le> 1 \<and> 0 < lb_n r) rows \<and>
     sum_list (map lb_n rows) = length (scored (effective (task_filters ts cap) d))"
proof -
  let ?G = "leaderboard_groups ck ts cap d"
  let ?rows = "map (\<lambda>(k, rows). leaderboard_value k rows) ?G"
  let ?S = "scored (effective (task_filters ts cap) d)"
  have dist: "distinct (map me_id (model_endpoints d))" using ok by (simp add: scores_ok_def)
  have range: "list_all (\<lambda>r. 0 \<le> lb_mean_score r \<and> lb_mean_score r \<le> 1 \<and> 0 \<le> lb_pass_rate r \<and>
      lb_pass_rate r \<le> 1 \<and> 0 < lb_n r) ?rows"
  proof -
    have "0 \<le> mean_score_of rows \<and> mean_score_of rows \<le> 1 \<and> 0 \<le> pass_rate_of rows \<and>
        pass_rate_of rows \<le> 1 \<and> rows \<noteq> []" if "(k, rows) \<in> set ?G" for k rows
      using leaderboard_groups_rows [OF that] mean_score_unit [of rows] pass_rate_unit [of rows]
        effective_member [OF ok] by blast
    then show ?thesis by (fastforce simp: list_all_iff leaderboard_value_def Let_def)
  qed
  have known: "fetch me_id (ef_model_endpoint_id e) (model_endpoints d) \<noteq> None" if "e \<in> set ?S" for e
    using effective_member [OF ok that] refs by (fastforce simp: refs_ok_def)
  have count: "sum_list (map lb_n ?rows) = length ?S"
  proof -
    have "sum_list (map lb_n ?rows) = (\<Sum>(k, rows) \<leftarrow> ?G. length rows)"
      by (simp add: o_def case_prod_unfold leaderboard_value_def Let_def)
    also have "\<dots> = (\<Sum>(k, ps) \<leftarrow> group_by (\<lambda>(ep, _). (me_id ep, me_name ep)) (with_endpoint d ?S). length ps)"
      by (simp add: leaderboard_groups_def sum_list_sort_key o_def case_prod_unfold)
    also have "\<dots> = length (with_endpoint d ?S)" by (rule group_by_lengths)
    also have "\<dots> = length ?S" by (simp add: with_endpoint_unique [OF dist known])
    finally show ?thesis .
  qed
  have order: "map (\<lambda>r. - lb_mean_score r) ?rows = map (\<lambda>(_, rows). - mean_score_of rows) ?G"
    by (simp add: case_prod_unfold leaderboard_value_def Let_def)
  have "sorted (map (\<lambda>(_, rows). - mean_score_of rows) ?G)" by (simp add: leaderboard_groups_def)
  then have "sorted (map (\<lambda>r. - lb_mean_score r) ?rows)" by (simp only: order)
  moreover have ids: "map lb_model_endpoint_id ?rows = map (\<lambda>(k, _). fst k) ?G"
    by (simp add: case_prod_unfold leaderboard_value_def Let_def)
  have "distinct (map lb_model_endpoint_id ?rows)"
    unfolding ids by (rule leaderboard_groups_distinct [OF dist])
  ultimately show ?thesis
    using leaderboard_values [OF ok] range count by blast
qed

theorem leaderboard_sound_witness:
  "\<exists>rows. get_leaderboard id None None fx_board = Inr rows \<and>
     distinct (map lb_model_endpoint_id rows) \<and> sorted (map (\<lambda>r. - lb_mean_score r) rows) \<and>
     list_all (\<lambda>r. 0 \<le> lb_mean_score r \<and> lb_mean_score r \<le> 1 \<and> 0 \<le> lb_pass_rate r \<and>
       lb_pass_rate r \<le> 1 \<and> 0 < lb_n r) rows \<and>
     sum_list (map lb_n rows) = length (scored (effective (task_filters None None) fx_board))"
  by (rule leaderboard_sound) code_simp+

subsection \<open>The percentile\<close>

lemma sorted_count_le:
  "sorted ys \<Longrightarrow> i < length ys \<Longrightarrow> Suc i \<le> length (filter (\<lambda>y. y \<le> ys ! i) ys)"
proof -
  assume s: "sorted ys" and i: "i < length ys"
  have "filter (\<lambda>y. y \<le> ys ! i) (take (Suc i) ys) = take (Suc i) ys"
    using s i by (intro filter_True) (auto simp: in_set_conv_nth sorted_iff_nth_mono)
  then have "Suc i = length (filter (\<lambda>y. y \<le> ys ! i) (take (Suc i) ys))" using i by simp
  also have "\<dots> \<le> length (filter (\<lambda>y. y \<le> ys ! i) (take (Suc i) ys @ drop (Suc i) ys))"
    unfolding filter_append by simp
  finally show ?thesis by simp
qed

lemma sorted_count_ge:
  "sorted ys \<Longrightarrow> i < length ys \<Longrightarrow> length ys - i \<le> length (filter (\<lambda>y. ys ! i \<le> y) ys)"
proof -
  assume s: "sorted ys" and i: "i < length ys"
  have "filter (\<lambda>y. ys ! i \<le> y) (drop i ys) = drop i ys"
    using s i by (intro filter_True) (auto simp: in_set_conv_nth sorted_iff_nth_mono)
  then have "length ys - i = length (filter (\<lambda>y. ys ! i \<le> y) (drop i ys))" by simp
  also have "\<dots> \<le> length (filter (\<lambda>y. ys ! i \<le> y) (take i ys @ drop i ys))"
    unfolding filter_append by simp
  finally show ?thesis by simp
qed

lemma filter_length_mono: "(\<And>x. P x \<Longrightarrow> Q x) \<Longrightarrow> length (filter P xs) \<le> length (filter Q xs)"
  by (induction xs) auto

text \<open>
  The interpolated percentile is a rank statistic: at least \<open>floor (p (n - 1)) + 1\<close> of the
  \<open>n\<close> latencies are at most it, and at least \<open>n - ceiling (p (n - 1))\<close> are at least it, so it lies
  between the smallest and the largest.
\<close>

theorem percentile_rank:
  assumes "xs \<noteq> []" and "0 \<le> p" and "p \<le> 1"
  shows "case percentile_cont p xs of None \<Rightarrow> False | Some m \<Rightarrow>
     nat \<lfloor>p * of_nat (length xs - 1)\<rfloor> + 1 \<le> length (filter (\<lambda>x. of_int x \<le> m) xs) \<and>
     length xs - nat \<lceil>p * of_nat (length xs - 1)\<rceil> \<le> length (filter (\<lambda>x. m \<le> of_int x) xs) \<and>
     of_int (Min (set xs)) \<le> m \<and> m \<le> of_int (Max (set xs))"
proof -
  let ?ys = "sort xs" and ?n = "length xs"
  define pos :: rat where "pos = p * of_nat (length xs - 1)"
  define lo hi where "lo = nat \<lfloor>pos\<rfloor>" and "hi = nat \<lceil>pos\<rceil>"
  let ?a = "of_int (?ys ! lo) :: rat" and ?b = "of_int (?ys ! hi) :: rat"
  let ?m = "?a + (pos - of_nat lo) * (?b - ?a)"
  have pos: "0 \<le> pos" using assms(2) by (simp add: pos_def)
  have top: "pos \<le> of_nat (?n - 1)"
    unfolding pos_def using assms(3) by (intro mult_left_le_one_le) (simp_all add: assms(2))
  have "\<lceil>pos\<rceil> \<le> int (?n - 1)" using top by (simp add: ceiling_le_iff)
  then have "hi \<le> ?n - 1" by (simp add: hi_def nat_le_iff)
  moreover have "0 < ?n" using assms(1) by simp
  ultimately have hi_n: "hi < ?n" by linarith
  have lo: "lo \<le> hi" unfolding lo_def hi_def by (intro nat_mono floor_le_ceiling)
  have frac: "0 \<le> pos - of_nat lo" "pos - of_nat lo \<le> 1"
    using pos by (simp_all add: lo_def of_nat_nat) linarith
  have ab: "?a \<le> ?b" using hi_n lo by (simp add: sorted_nth_mono)
  have am: "?a \<le> ?m" using frac(1) ab by simp
  have mb: "?m \<le> ?b" using mult_right_mono [OF frac(2), of "?b - ?a"] ab by simp
  have pc: "percentile_cont p xs = Some ?m"
    using assms(1) by (simp add: percentile_cont_def Let_def pos_def lo_def hi_def)
  have same: "length (filter P ?ys) = length (filter P xs)" for P :: "int \<Rightarrow> bool"
    by (metis mset_filter mset_sort size_mset)
  have "lo + 1 \<le> length (filter (\<lambda>x. of_int x \<le> ?m) ?ys)"
  proof -
    have "lo + 1 \<le> length (filter (\<lambda>y. y \<le> ?ys ! lo) ?ys)"
      using sorted_count_le [of ?ys lo] hi_n lo by simp
    also have "\<dots> \<le> length (filter (\<lambda>x. of_int x \<le> ?m) ?ys)"
      by (rule filter_length_mono) (use am in \<open>meson of_int_le_iff order_trans\<close>)
    finally show ?thesis .
  qed
  moreover have "?n - hi \<le> length (filter (\<lambda>x. ?m \<le> of_int x) ?ys)"
  proof -
    have "?n - hi \<le> length (filter (\<lambda>y. ?ys ! hi \<le> y) ?ys)"
      using sorted_count_ge [of ?ys hi] hi_n by simp
    also have "\<dots> \<le> length (filter (\<lambda>x. ?m \<le> of_int x) ?ys)"
      by (rule filter_length_mono) (use mb in \<open>meson of_int_le_iff order_trans\<close>)
    finally show ?thesis .
  qed
  moreover have "?ys ! lo \<in> set xs" "?ys ! hi \<in> set xs"
    using nth_mem [of lo ?ys] nth_mem [of hi ?ys] hi_n lo by simp_all
  then have "(of_int (Min (set xs)) :: rat) \<le> ?a" "?b \<le> of_int (Max (set xs))" by simp_all
  ultimately show ?thesis
    using am mb
    unfolding same pc option.case pos_def [symmetric] lo_def [symmetric] hi_def [symmetric]
    by (intro conjI) linarith+
qed

theorem percentile_rank_witness:
  "case percentile_cont (95 / 100) [30, 10, 20 :: int] of None \<Rightarrow> False | Some m \<Rightarrow>
     nat \<lfloor>(95 / 100) * of_nat (length [30, 10, 20 :: int] - 1) :: rat\<rfloor> + 1 \<le>
       length (filter (\<lambda>x. of_int x \<le> m) [30, 10, 20 :: int]) \<and>
     length [30, 10, 20 :: int] - nat \<lceil>(95 / 100) * of_nat (length [30, 10, 20 :: int] - 1) :: rat\<rceil> \<le>
       length (filter (\<lambda>x. m \<le> of_int x) [30, 10, 20 :: int]) \<and>
     of_int (Min (set [30, 10, 20 :: int])) \<le> m \<and> m \<le> of_int (Max (set [30, 10, 20 :: int]))"
  by (rule percentile_rank) simp_all

subsection \<open>The breakdown by capability\<close>

text \<open>
  The capability breakdown of an endpoint has one row per capability in collation order, every
  mean and pass rate in [0, 1], and the rows together count each scored item of that endpoint once.
\<close>

theorem breakdown_partitions:
  assumes "scores_ok d"
  shows "let rows = get_capability_breakdown ck m d;
             own = filter (\<lambda>e. ef_model_endpoint_id e = m) (scored (effective (\<lambda>_. True) d)) in
         distinct (map cp_capability rows) \<and> sorted (map (\<lambda>r. ck (cp_capability r)) rows) \<and>
         set (map cp_capability rows) = ef_capability ` set own \<and>
         list_all (\<lambda>r. 0 \<le> cp_mean_score r \<and> cp_mean_score r \<le> 1 \<and> 0 \<le> cp_pass_rate r \<and>
           cp_pass_rate r \<le> 1 \<and> 0 < cp_n r) rows \<and>
         sum_list (map cp_n rows) = length own"
proof -
  define own where "own = filter (\<lambda>e. ef_model_endpoint_id e = m) (scored (effective (\<lambda>_. True) d))"
  define G where "G = sort_key (\<lambda>(c, _). ck c) (group_by ef_capability own)"
  define row where "row = (\<lambda>(c, rows). \<lparr>cp_capability = c, cp_mean_score = mean_score_of rows,
    cp_pass_rate = pass_rate_of rows, cp_n = length rows\<rparr>)"
  have rows: "get_capability_breakdown ck m d = map row G"
    by (simp add: get_capability_breakdown_def capability_groups_def row_def G_def own_def)
  have caps: "map cp_capability (map row G) = map fst G" by (simp add: row_def case_prod_unfold)
  have "distinct (map fst G)"
    by (simp add: G_def distinct_map_sort_key group_by_keys)
  moreover have "sorted (map (\<lambda>(c, _). ck c) G)" by (simp add: G_def)
  then have "sorted (map (\<lambda>r. ck (cp_capability r)) (map row G))"
    by (simp add: row_def case_prod_unfold o_def)
  moreover have "set (map fst G) = ef_capability ` set own"
    using arg_cong [OF group_by_keys [of ef_capability own], of set] by (simp add: G_def)
  moreover have "list_all (\<lambda>r. 0 \<le> cp_mean_score r \<and> cp_mean_score r \<le> 1 \<and> 0 \<le> cp_pass_rate r \<and>
      cp_pass_rate r \<le> 1 \<and> 0 < cp_n r) (map row G)"
  proof -
    have "0 \<le> mean_score_of ps \<and> mean_score_of ps \<le> 1 \<and> 0 \<le> pass_rate_of ps \<and> pass_rate_of ps \<le> 1 \<and>
        ps \<noteq> []" if "(c, ps) \<in> set G" for c ps
    proof -
      have mem: "ps \<noteq> []" "set ps \<subseteq> set own"
        using that group_by_rows [of c ps ef_capability own] by (simp_all add: G_def)
      have "0 \<le> score_of e \<and> score_of e \<le> 1" if "e \<in> set ps" for e
        using effective_member [OF assms, of e "\<lambda>_. True"] mem that by (auto simp: own_def)
      with mem(1) show ?thesis using mean_score_unit [of ps] pass_rate_unit [of ps] by blast
    qed
    then show ?thesis by (fastforce simp: list_all_iff row_def)
  qed
  moreover have "sum_list (map cp_n (map row G)) = length own"
  proof -
    have "sum_list (map cp_n (map row G)) = (\<Sum>(c, ps) \<leftarrow> group_by ef_capability own. length ps)"
      by (simp add: row_def G_def sum_list_sort_key o_def case_prod_unfold)
    then show ?thesis by (simp only: group_by_lengths)
  qed
  ultimately show ?thesis
    unfolding rows own_def [symmetric] Let_def caps by blast
qed

theorem breakdown_partitions_witness:
  "let rows = get_capability_breakdown id 20 fx_board;
       own = filter (\<lambda>e. ef_model_endpoint_id e = 20) (scored (effective (\<lambda>_. True) fx_board)) in
   distinct (map cp_capability rows) \<and> sorted (map (\<lambda>r. id (cp_capability r)) rows) \<and>
   set (map cp_capability rows) = ef_capability ` set own \<and>
   list_all (\<lambda>r. 0 \<le> cp_mean_score r \<and> cp_mean_score r \<le> 1 \<and> 0 \<le> cp_pass_rate r \<and>
     cp_pass_rate r \<le> 1 \<and> 0 < cp_n r) rows \<and>
   sum_list (map cp_n rows) = length own"
  by (rule breakdown_partitions) code_simp

subsection \<open>Two scores for one item\<close>

text \<open>
  The leaderboard does not use \<open>authoritative_score\<close>: for an item with both grades, more than
  0.5 apart and without a reviewer's label, the leaderboard counts the judge's score while
  \<open>authoritative_score\<close> is the mean of the two, at least 0.249 away from it.
\<close>

theorem authoritative_score_diverges:
  assumes "grades_unique d" and "gd \<in> set (grades d)" and "gj \<in> set (grades d)"
    and "gr_run_item_id gd = ri_id r" and "gr_run_item_id gj = ri_id r"
    and "gr_grader gd = GK_deterministic" and "gr_grader gj = GK_llm_judge"
    and "gr_score gd = Some x" and "gr_score gj = Some y" and far: "1 / 2 < \<bar>x - y\<bar>"
    and "reviews_unique d" and "v \<in> set (review_items d)" and "rv_run_item_id v = ri_id r"
    and "rv_reviewer_label v = None"
  shows "effective_score d r = Some y \<and>
     (case authoritative_score v [gd, gj] of None \<Rightarrow> False | Some z \<Rightarrow> 249 / 1000 < \<bar>z - y\<bar>)"
proof -
  have judge: "find (\<lambda>g. gr_run_item_id g = ri_id r \<and> gr_grader g = GK_llm_judge) (grades d) = Some gj"
    using fetch_eqI [of "\<lambda>g. (gr_run_item_id g, gr_grader g)" "grades d" gj] assms(1,3,5,7)
    by (simp add: fetch_def grades_unique_def)
  have "v' = v" if "v' \<in> set (review_items d)" "rv_run_item_id v' = ri_id r" for v'
    using fetch_eqI [of rv_run_item_id "review_items d" v] fetch_eqI [of rv_run_item_id "review_items d" v']
      assms(11-13) that by (simp add: reviews_unique_def)
  then have label: "Option.bind (find (\<lambda>v. rv_run_item_id v = ri_id r \<and> rv_status v = RS_resolved)
      (review_items d)) rv_reviewer_label = None"
    using assms(14)
    by (cases "find (\<lambda>v. rv_run_item_id v = ri_id r \<and> rv_status v = RS_resolved) (review_items d)")
       (auto dest!: find_set)
  have eff: "effective_score d r = Some y"
    using judge label assms(9) by (simp add: effective_score_def)
  let ?z = "quantize 3 ((x + y) / 2)"
  have z: "authoritative_score v [gd, gj] = Some ?z"
    using assms(8,9,14) by (simp add: authoritative_score_def mean_def)
  define half where "half = (x + y) / 2"
  have "\<bar>?z - half\<bar> \<le> 1 / 2000" using quantize_near [of 3 half] by (simp add: half_def)
  moreover have "half - y = (x - y) / 2" by (simp add: half_def field_simps)
  ultimately have "249 / 1000 < \<bar>?z - y\<bar>" using far by (simp add: abs_if split: if_splits)
  then show ?thesis using eff z by simp
qed

theorem authoritative_score_diverges_witness:
  "effective_score (snd (execute_run_item fx_env (fx_worker (fx_provider ''V'')) 40
       (fx_sys\<lparr>tasks := [fx_both_task]\<rparr>))) (fx_item 40) = Some (9 / 20) \<and>
   (case authoritative_score (new_review_item 102 7 40 RR_judge_disagreement)
       [fx_rows ! 0, fx_rows ! 1] of None \<Rightarrow> False | Some z \<Rightarrow> 249 / 1000 < \<bar>z - 9 / 20\<bar>)"
  by (rule authoritative_score_diverges [where x = 1]) code_simp+

end
