(* ===== verification/PyParse.thy ===== *)
theory PyParse
  imports PyText "HOL-Library.Word"
begin

text \<open>
  The readers of the standard library the authentication and provider code uses, each with the
  writer it inverts: \<open>str.split(sep)\<close> and \<open>sep.join\<close>, \<open>int(str)\<close> and \<open>str(int)\<close>,
  \<open>bytes.fromhex\<close> and \<open>bytes.hex\<close>, and UTF-8 encoding on the code points below 256. A reader that
  raises \<open>ValueError\<close> answers None.
\<close>

type_synonym bytes = "8 word list"

subsection \<open>Splitting on a separator\<close>

fun split_on :: "char \<Rightarrow> string \<Rightarrow> string list" where
  "split_on sep [] = [[]]"
| "split_on sep (c # cs) =
     (if c = sep then [] # split_on sep cs
      else case split_on sep cs of [] \<Rightarrow> [[c]] | w # ws \<Rightarrow> (c # w) # ws)"

lemma split_on_ne [simp]: "split_on sep s \<noteq> []"
  by (cases s) (auto split: list.split)

lemma split_on_word: "sep \<notin> set w \<Longrightarrow> split_on sep w = [w]"
  by (induction w) auto

lemma split_on_append: "sep \<notin> set w \<Longrightarrow> split_on sep (w @ sep # s) = w # split_on sep s"
  by (induction w) auto

lemma split_on_join:
  "ws \<noteq> [] \<Longrightarrow> list_all (\<lambda>w. sep \<notin> set w) ws \<Longrightarrow> split_on sep (join [sep] ws) = ws"
  by (induction "[sep]" ws rule: join.induct) (simp_all add: split_on_word split_on_append)

lemma join_split_on: "join [sep] (split_on sep s) = s"
proof (induction s)
  case (Cons c cs)
  obtain w ws where "split_on sep cs = w # ws" by (cases "split_on sep cs") auto
  with Cons show ?case by (cases ws) auto
qed simp

text \<open>\<open>str.rstrip(c)\<close> and \<open>str.removeprefix\<close>.\<close>

definition rstrip_char :: "char \<Rightarrow> string \<Rightarrow> string" where
  "rstrip_char c s = rev (dropWhile (\<lambda>x. x = c) (rev s))"

definition remove_prefix :: "string \<Rightarrow> string \<Rightarrow> string" where
  "remove_prefix p s = (if starts_with p s then drop (length p) s else s)"

subsection \<open>Decimal integers\<close>

definition is_digit :: "char \<Rightarrow> bool" where
  "is_digit c \<longleftrightarrow> (let n = (of_char c :: nat) in 48 \<le> n \<and> n \<le> 57)"

definition dec_val :: "string \<Rightarrow> nat" where
  "dec_val s = foldl (\<lambda>a c. 10 * a + digit_val c) 0 s"

text \<open>
  \<open>int(s)\<close>: surrounding whitespace, a sign, and groups of digits joined by single underscores; more
  than 4300 digits are refused (\<open>sys.int_info.default_max_str_digits\<close>).
\<close>

definition py_int_body :: "string \<Rightarrow> nat option" where
  "py_int_body s =
     (let groups = split_on CHR ''_'' s in
      if list_all (\<lambda>g. g \<noteq> [] \<and> list_all is_digit g) groups \<and> length (concat groups) \<le> 4300
      then Some (dec_val (concat groups)) else None)"

definition py_int :: "string \<Rightarrow> int option" where
  "py_int s =
     (case strip s of
        [] \<Rightarrow> None
      | c # cs \<Rightarrow>
          if c = CHR ''-'' then map_option (\<lambda>n. - int n) (py_int_body cs)
          else if c = CHR ''+'' then map_option int (py_int_body cs)
          else map_option int (py_int_body (c # cs)))"

lemma show_nat_digits: "list_all is_digit (show_nat n)"
proof (induction n rule: show_nat.induct)
  case (1 n)
  have d: "is_digit (digit_char d)" if "d < 10" for d
    using that by (simp add: is_digit_def digit_char_def)
  from 1 show ?case by (cases "n < 10") (simp_all add: show_nat.simps [of n] d)
qed

lemma show_nat_ne [simp]: "show_nat n \<noteq> []"
  by (subst show_nat.simps) simp

lemma dec_val_show_nat: "dec_val (show_nat n) = n"
proof (induction n rule: show_nat.induct)
  case (1 n)
  then show ?case by (cases "n < 10") (simp_all add: show_nat.simps [of n] dec_val_def)
qed

lemma digit_not:
  assumes "is_digit c"
  shows "\<not> is_space c" "c \<noteq> CHR ''_''" "c \<noteq> CHR ''-''" "c \<noteq> CHR ''+''" "c \<noteq> CHR ''$''"
  using assms by (auto simp: is_digit_def is_space_def Let_def)

lemma strip_word:
  assumes "list_all (\<lambda>c. \<not> is_space c) s"
  shows "strip s = s"
proof -
  have drop: "dropWhile is_space xs = xs" if "list_all (\<lambda>c. \<not> is_space c) xs" for xs
    using that by (cases xs) auto
  from assms show ?thesis by (simp add: strip_def drop)
qed

lemma py_int_show_nat:
  assumes "length (show_nat n) \<le> 4300"
  shows "py_int (show_nat n) = Some (int n)"
proof -
  have dig: "\<And>c. c \<in> set (show_nat n) \<Longrightarrow> is_digit c"
    using show_nat_digits by (simp add: list_all_iff)
  have strip: "strip (show_nat n) = show_nat n"
    by (rule strip_word) (auto simp: list_all_iff dest: dig digit_not)
  have one: "split_on CHR ''_'' (show_nat n) = [show_nat n]"
    by (rule split_on_word) (auto dest: dig digit_not)
  have body: "py_int_body (show_nat n) = Some n"
    using assms by (simp add: py_int_body_def one show_nat_digits dec_val_show_nat)
  obtain c cs where cs: "show_nat n = c # cs" by (cases "show_nat n") auto
  then have "c \<noteq> CHR ''-''" "c \<noteq> CHR ''+''" using dig [of c] digit_not by auto
  with body strip show ?thesis by (simp add: py_int_def cs)
qed

lemma length_show_nat: "n < 10 ^ k \<Longrightarrow> 0 < k \<Longrightarrow> length (show_nat n) \<le> k"
proof (induction k arbitrary: n)
  case (Suc k)
  show ?case
  proof (cases "n < 10")
    case True
    then show ?thesis by (simp add: show_nat.simps [of n])
  next
    case False
    with Suc.prems have "n div 10 < 10 ^ k" "0 < k" by (auto intro: Nat.gr0I)
    from Suc.IH [OF this] False show ?thesis by (simp add: show_nat.simps [of n])
  qed
qed simp

lemma show_int_chars:
  assumes "0 \<le> i" and "c \<in> set (show_int i)"
  shows "is_digit c"
  using assms show_nat_digits [of "nat i"] by (auto simp: show_int_def list_all_iff)

lemma py_int_show_int:
  assumes "0 \<le> i" and "i < 10 ^ 4300"
  shows "py_int (show_int i) = Some i"
proof -
  have "nat i < 10 ^ 4300"
    using assms by (simp add: nat_less_iff del: power_numeral)
  then have "length (show_nat (nat i)) \<le> 4300" by (rule length_show_nat) simp
  with assms(1) show ?thesis by (simp add: show_int_def py_int_show_nat)
qed

subsection \<open>Hexadecimal bytes\<close>

definition bytes_hex :: "bytes \<Rightarrow> string" where
  "bytes_hex bs = concat (map (\<lambda>b. [digit_char (unat b div 16), digit_char (unat b mod 16)]) bs)"

text \<open>A hexadecimal digit, of either case.\<close>

definition hex_digit :: "char \<Rightarrow> nat option" where
  "hex_digit c = (let n = (of_char c :: nat) in
     if 48 \<le> n \<and> n \<le> 57 then Some (n - 48)
     else if 97 \<le> n \<and> n \<le> 102 then Some (n - 87)
     else if 65 \<le> n \<and> n \<le> 70 then Some (n - 55) else None)"

definition ascii_space :: "char \<Rightarrow> bool" where
  "ascii_space c \<longleftrightarrow> (let n = (of_char c :: nat) in 9 \<le> n \<and> n \<le> 13 \<or> n = 32)"

fun fromhex :: "string \<Rightarrow> bytes option" where
  "fromhex [] = Some []"
| "fromhex (c # cs) =
     (if ascii_space c then fromhex cs
      else case cs of
        [] \<Rightarrow> None
      | d # ds \<Rightarrow>
          (case (hex_digit c, hex_digit d) of
             (Some a, Some b) \<Rightarrow> map_option (\<lambda>bs. of_nat (16 * a + b) # bs) (fromhex ds)
           | _ \<Rightarrow> None))"

lemma hex_digit_char: "d < 16 \<Longrightarrow> hex_digit (digit_char d) = Some d"
  by (simp add: hex_digit_def digit_char_def Let_def)

lemma of_char_digit_char: "d < 16 \<Longrightarrow> (of_char (digit_char d) :: nat) = (if d < 10 then 48 + d else 87 + d)"
  by (simp add: digit_char_def)

lemma digit_char_not:
  assumes "d < 16"
  shows "\<not> ascii_space (digit_char d)" "digit_char d \<noteq> CHR ''$''" "of_char (digit_char d) < (128::nat)"
proof -
  show "\<not> ascii_space (digit_char d)" "of_char (digit_char d) < (128::nat)"
    using assms by (simp_all add: ascii_space_def Let_def of_char_digit_char)
  have "(of_char (digit_char d) :: nat) \<noteq> of_char CHR ''$''"
    using assms by (simp add: of_char_digit_char)
  then show "digit_char d \<noteq> CHR ''$''" by metis
qed

lemma unat_byte: "unat (b :: 8 word) < 256"
  by (rule order_less_le_trans [OF unsigned_less]) simp

lemma fromhex_bytes_hex: "fromhex (bytes_hex bs) = Some bs"
proof (induction bs)
  case Nil
  then show ?case by (simp add: bytes_hex_def)
next
  case (Cons b bs)
  have "unat b div 16 < 16" using unat_byte [of b] by simp
  then have hd: "fromhex (bytes_hex (b # bs)) =
      map_option (\<lambda>cs. of_nat (16 * (unat b div 16) + unat b mod 16) # cs) (fromhex (bytes_hex bs))"
    by (simp add: bytes_hex_def digit_char_not hex_digit_char)
  have "of_nat (16 * (unat b div 16) + unat b mod 16) = b"
    by (simp only: mult_div_mod_eq) simp
  then show ?case by (simp only: hd Cons.IH option.map)
qed

lemma bytes_hex_chars:
  assumes "c \<in> set (bytes_hex bs)"
  shows "c \<noteq> CHR ''$'' \<and> (of_char c :: nat) < 128"
proof -
  have nib: "unat b div 16 < 16" "unat b mod 16 < 16" for b :: "8 word"
    using unat_byte [of b] by auto
  have "digit_char d \<noteq> CHR ''$'' \<and> (of_char (digit_char d) :: nat) < 128" if "d < 16" for d
    using digit_char_not [OF that] by simp
  with assms nib show ?thesis by (auto simp: bytes_hex_def)
qed

lemma bytes_hex_inject: "bytes_hex a = bytes_hex b \<longleftrightarrow> a = b"
  by (metis fromhex_bytes_hex option.inject)

subsection \<open>UTF-8\<close>

definition utf8 :: "string \<Rightarrow> bytes" where
  "utf8 s = concat (map (\<lambda>c. let n = (of_char c :: nat) in
     if n < 128 then [of_nat n] else [of_nat (192 + n div 64), of_nat (128 + n mod 64)]) s)"

end
