(* ===== verification/Auth.thy ===== *)
theory Auth
  imports Schema PyParse
begin

text \<open>
  \<open>app/auth.py\<close> and \<open>app/middleware.py\<close>: hashing and verifying API keys, the role dependency, and
  the two ASGI middlewares. SHA-256 and PBKDF2-HMAC-SHA256 are arguments (\<open>crypto\<close>), so everything
  holds for whatever functions they are; the salts and raw keys that \<open>secrets\<close> draws are arguments of
  the operations that draw them. Text is text of a header: code points below 256.

  A middleware gets the rest of the application as \<open>call_next\<close>, which sees the authentication
  context of the request state and may raise. Log calls are left out.
\<close>

subsection \<open>Hashing\<close>

record crypto =
  sha256 :: "bytes \<Rightarrow> bytes"
  pbkdf2_sha256 :: "bytes \<Rightarrow> bytes \<Rightarrow> int \<Rightarrow> bytes"

definition PBKDF2_ITERATIONS :: int where
  "PBKDF2_ITERATIONS = 100000"

record auth_context =
  ac_api_key_id :: uuid
  ac_name :: string
  ac_role :: api_key_role

text \<open>\<open>hashlib.pbkdf2_hmac("sha256", ...)\<close> refuses iteration counts below one or above a C int.\<close>

definition pbkdf2_hmac :: "crypto \<Rightarrow> bytes \<Rightarrow> bytes \<Rightarrow> int \<Rightarrow> exn + bytes" where
  "pbkdf2_hmac h pw salt n =
     (if n < 1 then Inl (ValueError ''iteration value must be greater than 0.'')
      else if 2147483647 < n then Inl (OverflowError ''iteration value is too great.'')
      else Inr (pbkdf2_sha256 h pw salt n))"

definition hash_api_key :: "crypto \<Rightarrow> bytes \<Rightarrow> string \<Rightarrow> string" where
  "hash_api_key h salt raw_key =
     (let digest = pbkdf2_sha256 h (utf8 raw_key) salt PBKDF2_ITERATIONS
      in ''pbkdf2_sha256$'' @ show_int PBKDF2_ITERATIONS @ ''$'' @ bytes_hex salt @ ''$'' @ bytes_hex digest)"

definition key_prefix :: "crypto \<Rightarrow> string \<Rightarrow> string" where
  "key_prefix h raw_key = take 16 (bytes_hex (sha256 h (utf8 raw_key)))"

text \<open>\<open>hmac.compare_digest\<close> on two strings raises unless both are ASCII.\<close>

definition is_ascii :: "string \<Rightarrow> bool" where
  "is_ascii s \<longleftrightarrow> list_all (\<lambda>c. (of_char c :: nat) < 128) s"

definition compare_digest :: "string \<Rightarrow> string \<Rightarrow> exn + bool" where
  "compare_digest a b =
     (if is_ascii a \<and> is_ascii b then Inr (a = b)
      else Inl (TypeError ''comparing strings with non-ASCII characters is not supported''))"

text \<open>
  \<open>verify_api_key\<close> turns a \<open>ValueError\<close> (a wrong number of fields, a bad salt, a bad iteration
  count) into False; what it does not catch is the \<open>Inl\<close> side.
\<close>

definition verify_api_key :: "crypto \<Rightarrow> string \<Rightarrow> string \<Rightarrow> exn + bool" where
  "verify_api_key h raw_key stored =
     (case split_on CHR ''$'' stored of
        [_, iterations, salt_hex, hash_hex] \<Rightarrow>
          (case fromhex salt_hex of
             None \<Rightarrow> Inr False
           | Some salt \<Rightarrow>
               (case py_int iterations of
                  None \<Rightarrow> Inr False
                | Some n \<Rightarrow>
                    (case pbkdf2_hmac h (utf8 raw_key) salt n of
                       Inl (ValueError _) \<Rightarrow> Inr False
                     | Inl e \<Rightarrow> Inl e
                     | Inr digest \<Rightarrow> compare_digest (bytes_hex digest) hash_hex)))
      | _ \<Rightarrow> Inr False)"

text \<open>The role dependency of a router.\<close>

definition require_role :: "api_key_role list \<Rightarrow> auth_context option \<Rightarrow> http_error + unit" where
  "require_role roles ctx =
     (case ctx of
        None \<Rightarrow> Inl (HTTPException 401 ''Authentication required'')
      | Some c \<Rightarrow>
          if ac_role c \<notin> set roles
          then Inl (HTTPException 403
                 (''requires role in {'' @ join '', '' (map api_key_role_value roles) @ ''}''))
          else Inr ())"

subsection \<open>Requests and the middlewares\<close>

record http_request =
  hr_method :: string
  hr_path :: string
  hr_x_api_key :: "string option"
  hr_authorization :: "string option"
  hr_x_request_id :: "string option"

datatype 'b body = Detail string | Answer 'b

record 'b http_response =
  rs_status :: int
  rs_body :: "'b body"
  rs_request_id :: "string option"

type_synonym ('d, 'b) next_handler = "auth_context option \<Rightarrow> 'd \<Rightarrow> (exn + 'b http_response) \<times> 'd"

definition json_detail :: "int \<Rightarrow> string \<Rightarrow> 'b http_response" where
  "json_detail code detail = \<lparr>rs_status = code, rs_body = Detail detail, rs_request_id = None\<rparr>"

definition EXEMPT_PATHS :: "string list" where
  "EXEMPT_PATHS = [''/healthz'', ''/readyz'', ''/metrics'', ''/openapi.json'', ''/docs'', ''/redoc'',
     ''/favicon.ico'']"

definition extract_key :: "http_request \<Rightarrow> string option" where
  "extract_key request =
     (case hr_x_api_key request of
        Some (c # cs) \<Rightarrow> Some (strip (c # cs))
      | _ \<Rightarrow>
          (let authorization = (case hr_authorization request of None \<Rightarrow> [] | Some a \<Rightarrow> a)
           in if starts_with ''Bearer '' authorization
              then Some (strip (remove_prefix ''Bearer '' authorization)) else None))"

fun first_verified :: "crypto \<Rightarrow> string \<Rightarrow> api_key list \<Rightarrow> exn + auth_context option" where
  "first_verified h raw_key [] = Inr None"
| "first_verified h raw_key (row # rows) =
     (case verify_api_key h raw_key (ak_key_hash row) of
        Inl e \<Rightarrow> Inl e
      | Inr True \<Rightarrow> Inr (Some \<lparr>ac_api_key_id = ak_id row, ac_name = ak_name row, ac_role = ak_role row\<rparr>)
      | Inr False \<Rightarrow> first_verified h raw_key rows)"

definition authenticate :: "crypto \<Rightarrow> string \<Rightarrow> 'a db_scheme \<Rightarrow> exn + auth_context option" where
  "authenticate h raw_key d =
     first_verified h raw_key (filter (\<lambda>row. ak_key_prefix row = key_prefix h raw_key) (api_keys d))"

definition api_key_dispatch :: "crypto \<Rightarrow> ('a db_scheme, 'b) next_handler \<Rightarrow> http_request \<Rightarrow>
    'a db_scheme \<Rightarrow> (exn + 'b http_response) \<times> 'a db_scheme" where
  "api_key_dispatch h call_next request d =
     (if hr_method request = ''OPTIONS'' \<or> hr_path request \<in> set EXEMPT_PATHS
      then call_next None d
      else case extract_key request of
        None \<Rightarrow> (Inr (json_detail 401 ''Missing API key''), d)
      | Some raw_key \<Rightarrow>
          (case authenticate h raw_key d of
             Inl e \<Rightarrow> (Inl e, d)
           | Inr None \<Rightarrow> (Inr (json_detail 401 ''Invalid API key''), d)
           | Inr (Some context) \<Rightarrow> call_next (Some context) d))"

text \<open>
  The request id: the caller's, when it sent one that is not empty, otherwise \<open>uuid4().hex\<close>. A
  response carries it; an exception passes through.
\<close>

definition request_context_dispatch :: "('a db_scheme, 'b) next_handler \<Rightarrow> http_request \<Rightarrow>
    auth_context option \<Rightarrow> 'a db_scheme \<Rightarrow> (exn + 'b http_response) \<times> 'a db_scheme" where
  "request_context_dispatch call_next request context d =
     (let (request_id, d1) =
            (case hr_x_request_id request of
               Some (c # cs) \<Rightarrow> (c # cs, d)
             | _ \<Rightarrow> (hex32 (uuid_next d), d\<lparr>uuid_next := uuid_next d + 1\<rparr>))
      in case call_next context d1 of
           (Inl e, d2) \<Rightarrow> (Inl e, d2)
         | (Inr response, d2) \<Rightarrow> (Inr (response\<lparr>rs_request_id := Some request_id\<rparr>), d2))"

subsection \<open>What is verified\<close>

lemma split_hash:
  "split_on CHR ''$'' (hash_api_key h salt raw) =
     [''pbkdf2_sha256'', show_int PBKDF2_ITERATIONS, bytes_hex salt,
      bytes_hex (pbkdf2_sha256 h (utf8 raw) salt PBKDF2_ITERATIONS)]"
proof -
  let ?ws = "[''pbkdf2_sha256'', show_int PBKDF2_ITERATIONS, bytes_hex salt,
      bytes_hex (pbkdf2_sha256 h (utf8 raw) salt PBKDF2_ITERATIONS)]"
  have "CHR ''$'' \<notin> set (bytes_hex b)" for b using bytes_hex_chars by blast
  moreover have "CHR ''$'' \<notin> set (show_int PBKDF2_ITERATIONS)"
    using show_int_chars [of PBKDF2_ITERATIONS] digit_not(5) by (auto simp: PBKDF2_ITERATIONS_def)
  ultimately have "list_all (\<lambda>w. CHR ''$'' \<notin> set w) ?ws" by simp
  then have "split_on CHR ''$'' (join [CHR ''$''] ?ws) = ?ws" by (intro split_on_join) simp
  then show ?thesis by (simp add: hash_api_key_def Let_def)
qed

lemma ascii_bytes_hex [simp]: "is_ascii (bytes_hex b)"
  using bytes_hex_chars by (simp add: is_ascii_def list_all_iff)

text \<open>A stored value on which \<open>verify_api_key\<close> raises nothing, whatever key is presented.\<close>

definition stored_ok :: "string \<Rightarrow> bool" where
  "stored_ok stored \<longleftrightarrow>
     (case split_on CHR ''$'' stored of
        [_, iterations, _, hash_hex] \<Rightarrow>
          is_ascii hash_hex \<and> (case py_int iterations of None \<Rightarrow> True | Some n \<Rightarrow> n \<le> 2147483647)
      | _ \<Rightarrow> True)"

lemma iterations_read: "py_int (show_int PBKDF2_ITERATIONS) = Some PBKDF2_ITERATIONS"
proof (rule py_int_show_int)
  have "PBKDF2_ITERATIONS = 10 ^ 5" by (simp add: PBKDF2_ITERATIONS_def)
  also have "(10::int) ^ 5 < 10 ^ 4300" by (rule power_strict_increasing) simp_all
  finally show "PBKDF2_ITERATIONS < 10 ^ 4300" .
qed (simp add: PBKDF2_ITERATIONS_def)

lemma pbkdf2_default: "pbkdf2_hmac h pw salt PBKDF2_ITERATIONS = Inr (pbkdf2_sha256 h pw salt PBKDF2_ITERATIONS)"
  by (simp add: pbkdf2_hmac_def PBKDF2_ITERATIONS_def)

lemma stored_hash_ok: "stored_ok (hash_api_key h salt raw)"
  by (simp add: stored_ok_def split_hash iterations_read) (simp add: PBKDF2_ITERATIONS_def)

lemma verify_stored_ok:
  assumes "stored_ok stored"
  shows "\<not> isl (verify_api_key h raw stored)"
  using assms
  by (auto simp: stored_ok_def verify_api_key_def pbkdf2_hmac_def compare_digest_def
      split: list.splits option.splits)

lemma verify_hash:
  "verify_api_key h raw' (hash_api_key h salt raw) =
     Inr (pbkdf2_sha256 h (utf8 raw') salt PBKDF2_ITERATIONS = pbkdf2_sha256 h (utf8 raw) salt PBKDF2_ITERATIONS)"
  by (simp add: verify_api_key_def split_hash iterations_read fromhex_bytes_hex pbkdf2_default
      compare_digest_def bytes_hex_inject)

end
