(* ===== verification/Catalogue.thy ===== *)
theory Catalogue
  imports Auth "HOL-Library.Multiset"
begin

text \<open>
  The catalogue an administrator maintains: \<open>task_sets.py\<close>, \<open>model_endpoints.py\<close> and \<open>api_keys.py\<close> of
  \<open>app/api/v1\<close> with their request schemas, and \<open>scripts/create_api_key.py\<close>. A request body that does
  not satisfy its schema never reaches a handler (the framework answers 422): the \<open>_ok\<close> predicates.
  Read models that repeat every column of their row are the row.
\<close>

subsection \<open>Request schemas\<close>

record task_set_create =
  tsc_name :: string
  tsc_description :: "string option"

record task_create =
  tc_prompt :: string
  tc_capability :: string
  tc_expected_output :: "string option"
  tc_grader_type :: grader_type
  tc_grader_config :: "dict option"

record model_endpoint_create =
  mec_name :: string
  mec_provider :: provider_kind
  mec_model_id :: string
  mec_model_version :: string
  mec_base_url :: "string option"

record api_key_create =
  akc_name :: string
  akc_role :: api_key_role

record api_key_read =
  kr_id :: uuid
  kr_name :: string
  kr_role :: api_key_role
  kr_created_at :: timestamp

record api_key_created = api_key_read +
  kr_key :: string

text \<open>\<open>Field(min_length=1, max_length=255)\<close>.\<close>

definition name_ok :: "string \<Rightarrow> bool" where
  "name_ok s \<longleftrightarrow> s \<noteq> [] \<and> length s \<le> 255"

definition task_set_create_ok :: "task_set_create \<Rightarrow> bool" where
  "task_set_create_ok p \<longleftrightarrow> name_ok (tsc_name p)"

definition task_create_ok :: "task_create \<Rightarrow> bool" where
  "task_create_ok p \<longleftrightarrow> tc_prompt p \<noteq> [] \<and> tc_capability p \<noteq> []"

definition model_endpoint_create_ok :: "model_endpoint_create \<Rightarrow> bool" where
  "model_endpoint_create_ok p \<longleftrightarrow> name_ok (mec_name p) \<and> mec_model_id p \<noteq> [] \<and> mec_model_version p \<noteq> []"

definition api_key_create_ok :: "api_key_create \<Rightarrow> bool" where
  "api_key_create_ok p \<longleftrightarrow> name_ok (akc_name p)"

subsection \<open>Task sets and tasks\<close>

definition create_task_set :: "task_set_create \<Rightarrow> 'a db_scheme \<Rightarrow> task_set \<times> 'a db_scheme" where
  "create_task_set payload d =
     (let row = \<lparr>ts_id = uuid_next d, ts_name = tsc_name payload, ts_description = tsc_description payload,
                 ts_created_at = db_now d\<rparr>
      in (row, d\<lparr>task_sets := task_sets d @ [row], uuid_next := uuid_next d + 1\<rparr>))"

definition list_task_sets :: "'a db_scheme \<Rightarrow> task_set list" where
  "list_task_sets d = sort_key ts_created_at (task_sets d)"

definition get_task_set :: "uuid \<Rightarrow> 'a db_scheme \<Rightarrow> http_error + task_set" where
  "get_task_set k d =
     (case fetch ts_id k (task_sets d) of
        None \<Rightarrow> Inl (HTTPException 404 ''Task set not found'')
      | Some row \<Rightarrow> Inr row)"

definition create_task ::
  "uuid \<Rightarrow> task_create \<Rightarrow> 'a db_scheme \<Rightarrow> (http_error + task) \<times> 'a db_scheme" where
  "create_task task_set_id payload d =
     (case fetch ts_id task_set_id (task_sets d) of
        None \<Rightarrow> (Inl (HTTPException 404 ''Task set not found''), d)
      | Some _ \<Rightarrow>
          (let row = \<lparr>tk_id = uuid_next d, tk_task_set_id = task_set_id, tk_prompt = tc_prompt payload,
                      tk_capability = tc_capability payload,
                      tk_expected_output = tc_expected_output payload,
                      tk_grader_type = tc_grader_type payload,
                      tk_grader_config = tc_grader_config payload, tk_created_at = db_now d\<rparr>
           in (Inr row, d\<lparr>tasks := tasks d @ [row], uuid_next := uuid_next d + 1\<rparr>)))"

subsection \<open>Model endpoints\<close>

definition create_model_endpoint ::
  "model_endpoint_create \<Rightarrow> 'a db_scheme \<Rightarrow> model_endpoint \<times> 'a db_scheme" where
  "create_model_endpoint payload d =
     (let row = \<lparr>me_id = uuid_next d, me_name = mec_name payload, me_provider = mec_provider payload,
                 me_model_id = mec_model_id payload, me_model_version = mec_model_version payload,
                 me_base_url = mec_base_url payload, me_created_at = db_now d\<rparr>
      in (row, d\<lparr>model_endpoints := model_endpoints d @ [row], uuid_next := uuid_next d + 1\<rparr>))"

definition list_model_endpoints :: "'a db_scheme \<Rightarrow> model_endpoint list" where
  "list_model_endpoints d = sort_key me_created_at (model_endpoints d)"

definition get_model_endpoint :: "uuid \<Rightarrow> 'a db_scheme \<Rightarrow> http_error + model_endpoint" where
  "get_model_endpoint k d =
     (case fetch me_id k (model_endpoints d) of
        None \<Rightarrow> Inl (HTTPException 404 ''Model endpoint not found'')
      | Some row \<Rightarrow> Inr row)"

subsection \<open>API keys\<close>

definition new_api_key :: "crypto \<Rightarrow> bytes \<Rightarrow> string \<Rightarrow> api_key_create \<Rightarrow> 'a db_scheme \<Rightarrow> api_key" where
  "new_api_key h salt raw_key payload d =
     \<lparr>ak_id = uuid_next d, ak_name = akc_name payload, ak_role = akc_role payload,
      ak_key_prefix = key_prefix h raw_key, ak_key_hash = hash_api_key h salt raw_key,
      ak_created_at = db_now d\<rparr>"

text \<open>The unique constraint on \<open>key_hash\<close> turns a collision into an \<open>IntegrityError\<close>.\<close>

definition insert_api_key :: "api_key \<Rightarrow> 'a db_scheme \<Rightarrow> exn + 'a db_scheme" where
  "insert_api_key row d =
     (if exists_row (\<lambda>r. ak_key_hash r = ak_key_hash row) (api_keys d)
      then Inl (DatabaseError ''uq_api_key_key_hash'')
      else Inr (d\<lparr>api_keys := api_keys d @ [row], uuid_next := uuid_next d + 1\<rparr>))"

definition create_api_key :: "crypto \<Rightarrow> bytes \<Rightarrow> string \<Rightarrow> api_key_create \<Rightarrow> 'a db_scheme \<Rightarrow>
    (exn + api_key_created) \<times> 'a db_scheme" where
  "create_api_key h salt raw_key payload d =
     (let row = new_api_key h salt raw_key payload d in
      case insert_api_key row d of
        Inl e \<Rightarrow> (Inl e, d)
      | Inr d' \<Rightarrow> (Inr \<lparr>kr_id = ak_id row, kr_name = ak_name row, kr_role = ak_role row,
                       kr_created_at = ak_created_at row, kr_key = raw_key\<rparr>, d'))"

definition list_api_keys :: "'a db_scheme \<Rightarrow> api_key_read list" where
  "list_api_keys d =
     map (\<lambda>row. \<lparr>kr_id = ak_id row, kr_name = ak_name row, kr_role = ak_role row,
                 kr_created_at = ak_created_at row\<rparr>)
       (sort_key ak_created_at (api_keys d))"

definition delete_api_key :: "uuid \<Rightarrow> 'a db_scheme \<Rightarrow> (http_error + unit) \<times> 'a db_scheme" where
  "delete_api_key k d =
     (case fetch ak_id k (api_keys d) of
        None \<Rightarrow> (Inl (HTTPException 404 ''API key not found''), d)
      | Some _ \<Rightarrow> (Inr (), d\<lparr>api_keys := filter (\<lambda>row. ak_id row \<noteq> k) (api_keys d)\<rparr>))"

text \<open>
  \<open>scripts/create_api_key.py\<close>: \<open>ApiKeyRole(role)\<close> raises on any other word; otherwise the raw key is
  printed. It is the only way to a first key, since the endpoints ask for an admin key.
\<close>

definition parse_role :: "string \<Rightarrow> exn + api_key_role" where
  "parse_role s =
     (if s = ''admin'' then Inr Role_admin
      else if s = ''reviewer'' then Inr Role_reviewer
      else Inl (ValueError (s @ '' is not a valid ApiKeyRole'')))"

definition create_api_key_script :: "crypto \<Rightarrow> bytes \<Rightarrow> string \<Rightarrow> string \<Rightarrow> string \<Rightarrow> 'a db_scheme \<Rightarrow>
    (exn + string) \<times> 'a db_scheme" where
  "create_api_key_script h salt raw_key name role d =
     (case parse_role role of
        Inl e \<Rightarrow> (Inl e, d)
      | Inr r \<Rightarrow>
          (case insert_api_key (new_api_key h salt raw_key \<lparr>akc_name = name, akc_role = r\<rparr> d) d of
             Inl e \<Rightarrow> (Inl e, d)
           | Inr d' \<Rightarrow> (Inr raw_key, d')))"

text \<open>The command line: anything but a name and a role prints the usage and exits with status 1 (None).\<close>

fun create_api_key_main :: "crypto \<Rightarrow> bytes \<Rightarrow> string \<Rightarrow> string list \<Rightarrow> 'a db_scheme \<Rightarrow>
    (exn + string) option \<times> 'a db_scheme" where
  "create_api_key_main h salt raw_key [prog, name, role] d =
     (let (r, d') = create_api_key_script h salt raw_key name role d in (Some r, d'))"
| "create_api_key_main h salt raw_key argv d = (None, d)"

subsection \<open>One write of the catalogue\<close>

datatype catalogue_op =
    New_task_set task_set_create
  | New_task uuid task_create
  | New_endpoint model_endpoint_create
  | New_key bytes string api_key_create
  | Delete_key uuid

definition catalogue_step :: "crypto \<Rightarrow> catalogue_op \<Rightarrow> 'a db_scheme \<Rightarrow> 'a db_scheme" where
  "catalogue_step h op d =
     (case op of
        New_task_set p \<Rightarrow> snd (create_task_set p d)
      | New_task k p \<Rightarrow> snd (create_task k p d)
      | New_endpoint p \<Rightarrow> snd (create_model_endpoint p d)
      | New_key salt raw_key p \<Rightarrow> snd (create_api_key h salt raw_key p d)
      | Delete_key k \<Rightarrow> snd (delete_api_key k d))"

lemma catalogue_step_frame:
  "eval_runs (catalogue_step h op d) = eval_runs d" "run_items (catalogue_step h op d) = run_items d"
  "grades (catalogue_step h op d) = grades d" "review_items (catalogue_step h op d) = review_items d"
  "db_now (catalogue_step h op d) = db_now d" "uuid_next d \<le> uuid_next (catalogue_step h op d)"
  by (auto simp: catalogue_step_def create_task_set_def create_task_def create_model_endpoint_def
      create_api_key_def insert_api_key_def delete_api_key_def Let_def
      split: catalogue_op.split option.split)

end
