(* ===== verification/Catalogue_Facts.thy ===== *)
theory Catalogue_Facts
  imports Catalogue
begin

text \<open>
  What the catalogue and the key store promise: a stored key verifies exactly the raw keys with the
  same PBKDF2 digest, a created key works until it is deleted and gives exactly its role, and what
  is created can be read back and comes last in the listing.
\<close>

subsection \<open>The key store\<close>

text \<open>
  Hashing and verifying an API key are inverse: the stored form of a key accepts a presented key
  exactly when the two have the same PBKDF2 digest under the stored salt, so always the key itself;
  verification raises nothing, and the stored form is the documented four fields.
\<close>

theorem api_key_round_trip:
  "verify_api_key h raw' (hash_api_key h salt raw) =
     Inr (pbkdf2_sha256 h (utf8 raw') salt 100000 = pbkdf2_sha256 h (utf8 raw) salt 100000) \<and>
   verify_api_key h raw (hash_api_key h salt raw) = Inr True \<and>
   split_on CHR ''$'' (hash_api_key h salt raw) =
     [''pbkdf2_sha256'', show_int 100000, bytes_hex salt, bytes_hex (pbkdf2_sha256 h (utf8 raw) salt 100000)] \<and>
   fromhex (bytes_hex salt) = Some salt"
  by (simp add: verify_hash split_hash fromhex_bytes_hex) (simp add: PBKDF2_ITERATIONS_def)

definition keys_ready :: "'a db_scheme \<Rightarrow> bool" where
  "keys_ready d \<longleftrightarrow> list_all (\<lambda>row. stored_ok (ak_key_hash row) \<and> ak_id row < uuid_next d) (api_keys d)"

lemma first_verified_append:
  assumes "list_all (\<lambda>row. stored_ok (ak_key_hash row)) rows"
  shows "first_verified h raw (rows @ rest) =
    (case first_verified h raw rows of Inr None \<Rightarrow> first_verified h raw rest | r \<Rightarrow> r)"
  using assms
proof (induction rows)
  case Nil
  then show ?case by simp
next
  case (Cons row rows)
  then have "\<not> isl (verify_api_key h raw (ak_key_hash row))" by (simp add: verify_stored_ok)
  then obtain b where "verify_api_key h raw (ak_key_hash row) = Inr b" by (metis sum.collapse(2))
  with Cons show ?case by (cases b) simp_all
qed

lemma first_verified_sound:
  "first_verified h raw rows = Inr (Some c) \<Longrightarrow>
   \<exists>row \<in> set rows. ac_api_key_id c = ak_id row \<and> ac_name c = ak_name row \<and> ac_role c = ak_role row \<and>
     verify_api_key h raw (ak_key_hash row) = Inr True"
  by (induction rows) (auto split: sum.splits bool.splits)

lemma authenticate_sound:
  assumes "authenticate h raw d = Inr (Some c)"
  shows "\<exists>row \<in> set (api_keys d). ac_api_key_id c = ak_id row \<and> ac_role c = ak_role row \<and>
    ak_key_prefix row = key_prefix h raw \<and> verify_api_key h raw (ak_key_hash row) = Inr True"
  using assms first_verified_sound [of h raw _ c] unfolding authenticate_def by fastforce

lemma authenticate_total:
  assumes "keys_ready d"
  shows "\<not> isl (authenticate h raw d)"
proof -
  have "\<not> isl (first_verified h raw rows)" if "list_all (\<lambda>row. stored_ok (ak_key_hash row)) rows" for rows
    using that
  proof (induction rows)
    case (Cons row rows)
    then have "\<not> isl (verify_api_key h raw (ak_key_hash row))" by (simp add: verify_stored_ok)
    with Cons show ?case by (auto split: sum.split bool.split)
  qed simp
  then show ?thesis
    using assms unfolding authenticate_def keys_ready_def by (fastforce simp: list_all_iff)
qed

text \<open>What a new row adds to the rows a key is checked against.\<close>

lemma authenticate_append:
  assumes "keys_ready d" and "api_keys d' = api_keys d @ [row]"
  shows "authenticate h raw d' =
    (case authenticate h raw d of
       Inr None \<Rightarrow> if ak_key_prefix row = key_prefix h raw then first_verified h raw [row] else Inr None
     | r \<Rightarrow> r)"
proof -
  have "list_all (\<lambda>row. stored_ok (ak_key_hash row))
      (filter (\<lambda>row. ak_key_prefix row = key_prefix h raw) (api_keys d))"
    using assms(1) by (auto simp: keys_ready_def list_all_iff)
  from first_verified_append [OF this, of h raw] show ?thesis
    by (auto simp: authenticate_def assms(2) split: sum.split option.split)
qed

text \<open>
  C34. The life of an API key: creating one stores its hash under a fresh id, from then on the key
  authenticates with exactly the name and role it was created with, no key with another digest is
  accepted because of it, deleting it makes the store what it was and the key invalid, and deleting
  it again is a 404.
\<close>

theorem api_key_life_cycle:
  assumes "keys_ready d" and "authenticate h raw d = Inr None"
    and "list_all (\<lambda>row. ak_key_hash row \<noteq> hash_api_key h salt raw) (api_keys d)"
  shows "let (r, d1) = create_api_key h salt raw payload d; (gone, d2) = delete_api_key (uuid_next d) d1 in
    r = Inr \<lparr>kr_id = uuid_next d, kr_name = akc_name payload, kr_role = akc_role payload,
             kr_created_at = db_now d, kr_key = raw\<rparr> \<and>
    authenticate h raw d1 = Inr (Some \<lparr>ac_api_key_id = uuid_next d, ac_name = akc_name payload,
      ac_role = akc_role payload\<rparr>) \<and>
    keys_ready d1 \<and>
    (\<forall>raw'. pbkdf2_sha256 h (utf8 raw') salt 100000 \<noteq> pbkdf2_sha256 h (utf8 raw) salt 100000 \<longrightarrow>
       authenticate h raw' d1 = authenticate h raw' d) \<and>
    gone = Inr () \<and> api_keys d2 = api_keys d \<and> authenticate h raw d2 = Inr None \<and>
    delete_api_key (uuid_next d) d2 = (Inl (HTTPException 404 ''API key not found''), d2)"
proof -
  let ?row = "new_api_key h salt raw payload d"
  let ?d1 = "d\<lparr>api_keys := api_keys d @ [?row], uuid_next := Suc (uuid_next d)\<rparr>"
  have unused: "\<not> exists_row (\<lambda>r. ak_key_hash r = hash_api_key h salt raw) (api_keys d)"
    using assms(3) by (auto simp: exists_row_iff list_all_iff)
  have fresh: "uuid_next d \<notin> ak_id ` set (api_keys d)"
    using assms(1) by (force simp: keys_ready_def list_all_iff)
  then have none: "fetch ak_id (uuid_next d) (api_keys d) = None" by (simp add: fetch_None_iff)
  have old: "filter (\<lambda>row. ak_id row \<noteq> uuid_next d) (api_keys d) = api_keys d"
    using fresh by (intro filter_True) force
  have row: "ak_id ?row = uuid_next d" "ak_name ?row = akc_name payload" "ak_role ?row = akc_role payload"
    "ak_key_prefix ?row = key_prefix h raw" "ak_key_hash ?row = hash_api_key h salt raw"
    "ak_created_at ?row = db_now d"
    by (simp_all add: new_api_key_def)
  have create: "create_api_key h salt raw payload d =
      (Inr \<lparr>kr_id = uuid_next d, kr_name = akc_name payload, kr_role = akc_role payload,
        kr_created_at = db_now d, kr_key = raw\<rparr>, ?d1)"
    using unused by (simp add: create_api_key_def insert_api_key_def row Let_def)
  have ready: "keys_ready ?d1"
    using assms(1) by (auto simp: keys_ready_def list_all_iff row stored_hash_ok)
  have delete: "delete_api_key (uuid_next d) ?d1 = (Inr (), ?d1\<lparr>api_keys := api_keys d\<rparr>)"
    by (simp add: delete_api_key_def fetch_append none row old)
  have verify: "verify_api_key h raw' (hash_api_key h salt raw) =
      Inr (pbkdf2_sha256 h (utf8 raw') salt 100000 = pbkdf2_sha256 h (utf8 raw) salt 100000)" for raw'
    using verify_hash [of h raw' salt raw] by (simp add: PBKDF2_ITERATIONS_def)
  have added: "authenticate h raw' ?d1 =
      (case authenticate h raw' d of
         Inr None \<Rightarrow> if ak_key_prefix ?row = key_prefix h raw' then first_verified h raw' [?row] else Inr None
       | r \<Rightarrow> r)" for raw'
    by (rule authenticate_append [OF assms(1)]) simp
  have "authenticate h raw ?d1 = Inr (Some \<lparr>ac_api_key_id = uuid_next d, ac_name = akc_name payload,
      ac_role = akc_role payload\<rparr>)"
    by (simp add: added assms(2) row verify)
  moreover have "authenticate h raw' ?d1 = authenticate h raw' d"
    if "pbkdf2_sha256 h (utf8 raw') salt 100000 \<noteq> pbkdf2_sha256 h (utf8 raw) salt 100000" for raw'
    using that by (auto simp: added row verify split: sum.split option.split)
  moreover have "authenticate h raw (?d1\<lparr>api_keys := api_keys d\<rparr>) = Inr None"
    using assms(2) by (simp add: authenticate_def)
  ultimately show ?thesis
    using ready by (simp add: create delete) (simp add: delete_api_key_def none)
qed

definition fx_crypto :: crypto where
  "fx_crypto = \<lparr>sha256 = (\<lambda>_. []), pbkdf2_sha256 = (\<lambda>pw salt n. salt @ pw)\<rparr>"

definition fx_keys :: db where
  "fx_keys = \<lparr>task_sets = [], tasks = [], model_endpoints = [], eval_runs = [], run_items = [], grades = [],
     review_items = [], api_keys = [\<lparr>ak_id = 3, ak_name = ''old'', ak_role = Role_reviewer,
       ak_key_prefix = ''00'', ak_key_hash = ''legacy'', ak_created_at = 1\<rparr>], db_now = 7, uuid_next = 100\<rparr>"

theorem api_key_life_cycle_witness:
  "let (r, d1) = create_api_key fx_crypto [1] ''K'' \<lparr>akc_name = ''ops'', akc_role = Role_admin\<rparr> fx_keys;
       (gone, d2) = delete_api_key (uuid_next fx_keys) d1 in
    r = Inr \<lparr>kr_id = uuid_next fx_keys, kr_name = akc_name \<lparr>akc_name = ''ops'', akc_role = Role_admin\<rparr>,
             kr_role = akc_role \<lparr>akc_name = ''ops'', akc_role = Role_admin\<rparr>,
             kr_created_at = db_now fx_keys, kr_key = ''K''\<rparr> \<and>
    authenticate fx_crypto ''K'' d1 = Inr (Some \<lparr>ac_api_key_id = uuid_next fx_keys,
      ac_name = akc_name \<lparr>akc_name = ''ops'', akc_role = Role_admin\<rparr>,
      ac_role = akc_role \<lparr>akc_name = ''ops'', akc_role = Role_admin\<rparr>\<rparr>) \<and>
    keys_ready d1 \<and>
    (\<forall>raw'. pbkdf2_sha256 fx_crypto (utf8 raw') [1] 100000 \<noteq> pbkdf2_sha256 fx_crypto (utf8 ''K'') [1] 100000 \<longrightarrow>
       authenticate fx_crypto raw' d1 = authenticate fx_crypto raw' fx_keys) \<and>
    gone = Inr () \<and> api_keys d2 = api_keys fx_keys \<and> authenticate fx_crypto ''K'' d2 = Inr None \<and>
    delete_api_key (uuid_next fx_keys) d2 = (Inl (HTTPException 404 ''API key not found''), d2)"
proof (rule api_key_life_cycle)
  show "keys_ready fx_keys" by (simp add: keys_ready_def fx_keys_def stored_ok_def)
  show "authenticate fx_crypto ''K'' fx_keys = Inr None"
    by (simp add: authenticate_def fx_keys_def key_prefix_def fx_crypto_def bytes_hex_def)
  have "split_on CHR ''$'' ''legacy'' \<noteq> split_on CHR ''$'' (hash_api_key fx_crypto [1] ''K'')"
    unfolding split_hash by simp
  then have "''legacy'' \<noteq> hash_api_key fx_crypto [1] ''K''" by metis
  then show "list_all (\<lambda>row. ak_key_hash row \<noteq> hash_api_key fx_crypto [1] ''K'') (api_keys fx_keys)"
    by (simp add: fx_keys_def)
qed

subsection \<open>What is created can be read back\<close>

lemma sort_key_snoc:
  assumes "\<And>y. y \<in> set xs \<Longrightarrow> f y \<le> f x"
  shows "sort_key f (xs @ [x]) = sort_key f xs @ [x]"
proof (rule properties_for_sort_key)
  show "sorted (map f (sort_key f xs @ [x]))"
    using assms by (auto simp: sorted_append)
  have flip: "(\<lambda>y. f k = f y) = (\<lambda>y. f y = f k)" for k by auto
  show "filter (\<lambda>y. f k = f y) (sort_key f xs @ [x]) = filter (\<lambda>y. f k = f y) (xs @ [x])" for k
    by (simp only: flip filter_append sort_key_stable)
qed simp

lemma fetch_snoc: "pk x = k \<Longrightarrow> k \<notin> pk ` set xs \<Longrightarrow> fetch pk k (xs @ [x]) = Some x"
  by (simp add: fetch_append fetch_None_iff [symmetric])

lemma fetch_snoc_other: "pk x \<noteq> k \<Longrightarrow> fetch pk k (xs @ [x]) = fetch pk k xs"
  by (simp add: fetch_append split: option.split)

definition catalogue_ready :: "'a db_scheme \<Rightarrow> bool" where
  "catalogue_ready d \<longleftrightarrow>
     list_all (\<lambda>r. ts_id r < uuid_next d \<and> ts_created_at r \<le> db_now d) (task_sets d) \<and>
     list_all (\<lambda>r. me_id r < uuid_next d \<and> me_created_at r \<le> db_now d) (model_endpoints d) \<and>
     list_all (\<lambda>r. tk_id r < uuid_next d \<and> tk_created_at r \<le> db_now d) (tasks d)"

text \<open>
  The catalogue reads back what it was given: a created task set or model endpoint is what a
  request for its id returns, comes last in the listing, and leaves what every other id returns as
  it was; a task is added to exactly its set, and for an unknown set the answer is 404 and nothing
  changes. The catalogue stays ready for the next request.
\<close>

theorem catalogue_round_trip:
  assumes "catalogue_ready d"
  shows "let (ts, d1) = create_task_set p d; (ep, d2) = create_model_endpoint q d1;
             (r, d3) = create_task k t d2 in
    ts_name ts = tsc_name p \<and> ts_description ts = tsc_description p \<and>
    get_task_set (ts_id ts) d3 = Inr ts \<and> list_task_sets d3 = list_task_sets d @ [ts] \<and>
    (i \<noteq> ts_id ts \<longrightarrow> get_task_set i d3 = get_task_set i d) \<and>
    me_name ep = mec_name q \<and> me_provider ep = mec_provider q \<and> me_model_id ep = mec_model_id q \<and>
    me_model_version ep = mec_model_version q \<and> me_base_url ep = mec_base_url q \<and>
    get_model_endpoint (me_id ep) d3 = Inr ep \<and> list_model_endpoints d3 = list_model_endpoints d @ [ep] \<and>
    (i \<noteq> me_id ep \<longrightarrow> get_model_endpoint i d3 = get_model_endpoint i d) \<and>
    (isl (get_task_set k d2) \<longleftrightarrow> (r, d3) = (Inl (HTTPException 404 ''Task set not found''), d2)) \<and>
    (\<not> isl (get_task_set k d2) \<longrightarrow>
       r = Inr (last (tasks d3)) \<and> tasks d3 = tasks d @ [last (tasks d3)] \<and>
       tk_task_set_id (last (tasks d3)) = k \<and> tk_prompt (last (tasks d3)) = tc_prompt t \<and>
       tk_capability (last (tasks d3)) = tc_capability t \<and>
       tk_expected_output (last (tasks d3)) = tc_expected_output t \<and>
       tk_grader_type (last (tasks d3)) = tc_grader_type t \<and>
       tk_grader_config (last (tasks d3)) = tc_grader_config t) \<and>
    catalogue_ready d3"
proof -
  have "ts_id r < uuid_next d \<and> ts_created_at r \<le> db_now d" if "r \<in> set (task_sets d)" for r
    using assms that by (simp add: catalogue_ready_def list_all_iff)
  moreover have "me_id r < uuid_next d \<and> me_created_at r \<le> db_now d" if "r \<in> set (model_endpoints d)" for r
    using assms that by (simp add: catalogue_ready_def list_all_iff)
  ultimately have new: "uuid_next d \<notin> ts_id ` set (task_sets d)"
      "Suc (uuid_next d) \<notin> me_id ` set (model_endpoints d)"
      "\<And>r. r \<in> set (task_sets d) \<Longrightarrow> ts_created_at r \<le> db_now d"
      "\<And>r. r \<in> set (model_endpoints d) \<Longrightarrow> me_created_at r \<le> db_now d"
    by (fastforce dest: less_asym)+
  define ts where "ts = fst (create_task_set p d)"
  define ep where "ep = fst (create_model_endpoint q (snd (create_task_set p d)))"
  define d2 where "d2 = d\<lparr>task_sets := task_sets d @ [ts], model_endpoints := model_endpoints d @ [ep],
      uuid_next := Suc (Suc (uuid_next d))\<rparr>"
  have ts: "ts_id ts = uuid_next d" "ts_name ts = tsc_name p" "ts_description ts = tsc_description p"
      "ts_created_at ts = db_now d"
    by (simp_all add: ts_def create_task_set_def Let_def)
  have ep: "me_id ep = Suc (uuid_next d)" "me_name ep = mec_name q" "me_provider ep = mec_provider q"
      "me_model_id ep = mec_model_id q" "me_model_version ep = mec_model_version q"
      "me_base_url ep = mec_base_url q" "me_created_at ep = db_now d"
    by (simp_all add: ep_def create_task_set_def create_model_endpoint_def Let_def)
  obtain d1 where d1: "create_task_set p d = (ts, d1)" "create_model_endpoint q d1 = (ep, d2)"
    by (simp add: ts_def ep_def d2_def create_task_set_def create_model_endpoint_def Let_def)
  obtain r d3 where r: "create_task k t d2 = (r, d3)" by fastforce
  have same: "task_sets d3 = task_sets d2" "model_endpoints d3 = model_endpoints d2" "db_now d3 = db_now d"
    using r by (auto simp: create_task_def d2_def Let_def split: option.splits)
  have reads: "get_task_set (ts_id ts) d3 = Inr ts" "get_model_endpoint (me_id ep) d3 = Inr ep"
      "i \<noteq> ts_id ts \<Longrightarrow> get_task_set i d3 = get_task_set i d"
      "i \<noteq> me_id ep \<Longrightarrow> get_model_endpoint i d3 = get_model_endpoint i d"
    using new by (simp_all add: get_task_set_def get_model_endpoint_def same d2_def ts(1) ep(1) fetch_snoc
        fetch_snoc_other)
  have lists: "list_task_sets d3 = list_task_sets d @ [ts]" "list_model_endpoints d3 = list_model_endpoints d @ [ep]"
    using new by (simp_all add: list_task_sets_def list_model_endpoints_def same d2_def ts(4) ep(7) sort_key_snoc)
  have ready2: "catalogue_ready d2"
    using assms by (auto simp: catalogue_ready_def list_all_iff d2_def ts ep less_Suc_eq)
  have task: "(isl (get_task_set k d2) \<longleftrightarrow> (r, d3) = (Inl (HTTPException 404 ''Task set not found''), d2)) \<and>
    (\<not> isl (get_task_set k d2) \<longrightarrow>
       r = Inr (last (tasks d3)) \<and> tasks d3 = tasks d @ [last (tasks d3)] \<and>
       tk_task_set_id (last (tasks d3)) = k \<and> tk_prompt (last (tasks d3)) = tc_prompt t \<and>
       tk_capability (last (tasks d3)) = tc_capability t \<and>
       tk_expected_output (last (tasks d3)) = tc_expected_output t \<and>
       tk_grader_type (last (tasks d3)) = tc_grader_type t \<and>
       tk_grader_config (last (tasks d3)) = tc_grader_config t) \<and> catalogue_ready d3"
  proof (cases "fetch ts_id k (task_sets d2)")
    case None
    then show ?thesis using r ready2 by (simp add: create_task_def get_task_set_def)
  next
    case (Some row)
    moreover have "tasks d2 = tasks d" by (simp add: d2_def)
    ultimately show ?thesis
      using r ready2 by (auto simp: create_task_def get_task_set_def Let_def catalogue_ready_def list_all_iff less_Suc_eq)
  qed
  show ?thesis
    unfolding Let_def d1(1) case_prod_conv d1(2) r
    by (intro conjI; (rule ts ep lists reads(1,2) | (rule impI, rule reads, assumption) |
      rule task [THEN conjunct1] task [THEN conjunct2, THEN conjunct1] task [THEN conjunct2, THEN conjunct2]))
qed

definition fx_new_task :: task_create where
  "fx_new_task = \<lparr>tc_prompt = ''Q'', tc_capability = ''geo'', tc_expected_output = Some ''V'',
     tc_grader_type = GT_exact_match, tc_grader_config = None\<rparr>"

theorem catalogue_round_trip_witness:
  "let (ts, d1) = create_task_set \<lparr>tsc_name = ''s'', tsc_description = None\<rparr> fx_keys;
       (ep, d2) = create_model_endpoint \<lparr>mec_name = ''m'', mec_provider = P_local, mec_model_id = ''x'',
          mec_model_version = ''v1'', mec_base_url = None\<rparr> d1;
       (r, d3) = create_task 100 fx_new_task d2 in
    catalogue_ready fx_keys \<and> list_task_sets d3 = list_task_sets fx_keys @ [ts] \<and>
    get_model_endpoint (me_id ep) d3 = Inr ep \<and> \<not> isl (get_task_set 100 d2) \<and> r = Inr (last (tasks d3))"
proof -
  let ?p = "\<lparr>tsc_name = ''s'', tsc_description = None\<rparr>"
  let ?q = "\<lparr>mec_name = ''m'', mec_provider = P_local, mec_model_id = ''x'', mec_model_version = ''v1'',
    mec_base_url = None\<rparr>"
  have ready: "catalogue_ready fx_keys" by (simp add: catalogue_ready_def fx_keys_def)
  have known: "\<not> isl (get_task_set 100 (snd (create_model_endpoint ?q (snd (create_task_set ?p fx_keys)))))"
    by (simp add: get_task_set_def create_model_endpoint_def create_task_set_def fx_keys_def Let_def)
  from catalogue_round_trip [OF ready, of ?p ?q 100 fx_new_task] ready known
  show ?thesis unfolding Let_def case_prod_unfold by blast
qed

end
