(* ===== verification/World.thy ===== *)
theory World
  imports Leaderboard_Facts Catalogue_Facts
begin

text \<open>
  The system as it runs: workers whose executions interleave with each other and with the API,
  messages that the broker may deliver again, and workers that die. A worker process is the
  position of an execution between two of its transactions or external calls; \<open>proc_step\<close> performs
  the next one. Run alone to its end, a process is \<open>execute_with\<close> (the refinement at the end).

  A message that was sent may be delivered any number of times (\<open>task_acks_late\<close> and the broker's
  visibility timeout redeliver); \<open>evals_queue\<close> is the record of the messages sent. The policy
  argument restricts deliveries: \<open>exclusive\<close> allows none while another process may still finalize
  the item, \<open>unacknowledged\<close> none while another process has not finished its own delivery of it.

  A process that grades stops between its reads of the grade and review tables and its commit, one
  that completes a run between counting the items left and its updates, and a request that
  cancels a run or replays an item between its checks and its updates.
\<close>

subsection \<open>A worker process\<close>

datatype proc =
    P_start uuid
  | P_cancelled snapshot
  | P_aborted snapshot
  | P_try snapshot int string
  | P_call snapshot int string
  | P_refused snapshot string
  | P_exhausted snapshot string
  | P_publish snapshot
  | P_check snapshot completion_result
  | P_store snapshot completion_result
  | P_finalize snapshot completion_result string
  | P_budget snapshot completion_result
  | P_grade snapshot completion_result
  | P_judge snapshot completion_result timestamp "deterministic_grade option"
  | P_review snapshot timestamp "deterministic_grade option" "judge_outcome option"
  | P_insert snapshot timestamp "deterministic_grade option" "judge_outcome option" bool
  | P_grade_failed snapshot exn
  | P_complete snapshot report
  | P_ending snapshot report
  | P_done "exn + report"

definition count_failed :: "snapshot \<Rightarrow> sys \<Rightarrow> sys" where
  "count_failed sn s = inc_eval_items Item_failed (me_name (sn_endpoint sn)) s"

definition step_start :: "uuid \<Rightarrow> sys \<Rightarrow> proc" where
  "step_start rid s =
     (case load_item rid s of
        None \<Rightarrow> P_done (Inl (ValueError (''run item '' @ uuid_str rid @ '' not found'')))
      | Some sn \<Rightarrow>
          if sn_run_status sn = Run_cancelled then P_cancelled sn
          else if sn_run_status sn = Run_failed then P_aborted sn
          else if ri_status (sn_item sn) = Item_succeeded
          then P_done (Inr (report_of ''succeeded'' ''already-succeeded''))
          else if ri_status (sn_item sn) \<notin> {Item_queued, Item_dead_lettered}
          then P_done (Inr (report_of (run_item_status_value (ri_status (sn_item sn))) ''not-executable''))
          else P_try sn 1 ''None'')"

definition step_call :: "worker_env \<Rightarrow> snapshot \<Rightarrow> int \<Rightarrow> string \<Rightarrow> sys \<Rightarrow> proc \<times> sys" where
  "step_call w sn attempt last_error s =
     (let (r, s1) = call_provider (effective_provider (we_provider w) (sn_endpoint sn))
                      (tk_prompt (sn_task sn)) (me_model_id (sn_endpoint sn)) s
      in case r of
           Inr result \<Rightarrow> (P_check sn result, s1)
         | Inl (RetryableProviderError m) \<Rightarrow>
             (P_try sn (attempt + 1) m,
              if attempt < max_attempts (we_retry w)
              then s1\<lparr>sleeps := sleeps s1 @ [backoff_delay attempt (we_retry w) (we_jitter w attempt)]\<rparr>
              else s1)
         | Inl (NonRetryableProviderError m) \<Rightarrow> (P_refused sn m, s1)
         | Inl e \<Rightarrow> (P_done (Inl e), s1))"

definition step_finalize :: "snapshot \<Rightarrow> completion_result \<Rightarrow> string \<Rightarrow> sys \<Rightarrow> proc \<times> sys" where
  "step_finalize sn c akey s =
     (case finalize_completion sn c akey s of
        Inl e \<Rightarrow> (P_done (Inl e), s)
      | Inr (False, s1) \<Rightarrow> (P_done (Inr (report_of ''skipped'' ''already-finalized'')), s1)
      | Inr (True, s1) \<Rightarrow> (P_budget sn c, s1))"

definition step_budget :: "worker_env \<Rightarrow> snapshot \<Rightarrow> completion_result \<Rightarrow> sys \<Rightarrow> proc \<times> sys" where
  "step_budget w sn c s =
     (let (aborted, s1) = abort_over_budget (sn_run_id sn) (we_spend_limit w) (we_spend_text w) s in
      if aborted
      then (P_done (Inr (report_of ''succeeded'' ''run-aborted'')),
            inc_eval_items Item_succeeded (me_name (sn_endpoint sn)) s1)
      else (P_grade sn c, s1))"

abbreviation rep_succeeded :: report where
  "rep_succeeded \<equiv> \<lparr>rep_status = ''succeeded'', rep_reason = None\<rparr>"

definition step_grade :: "grading_env \<Rightarrow> snapshot \<Rightarrow> completion_result \<Rightarrow> sys \<Rightarrow> proc" where
  "step_grade env sn c s =
     (case grading_begin env (sn_rid sn) (sn_task sn) (cr_text c) s of
        G_existing gs \<Rightarrow> P_complete sn rep_succeeded
      | G_raised e \<Rightarrow> P_grade_failed sn e
      | G_new det \<Rightarrow> P_judge sn c (db_now s) det)"

definition step_judge :: "grading_env \<Rightarrow> worker_env \<Rightarrow> snapshot \<Rightarrow> completion_result \<Rightarrow> timestamp \<Rightarrow>
    deterministic_grade option \<Rightarrow> sys \<Rightarrow> proc \<times> sys" where
  "step_judge env w sn c now det s =
     (case run_judge env (we_provider w) (sn_task sn) (cr_text c) s of
        (Inl e, s1) \<Rightarrow> (P_grade_failed sn e, s1)
      | (Inr judge, s1) \<Rightarrow> (P_review sn now det judge, s1))"

definition step_insert :: "grading_env \<Rightarrow> snapshot \<Rightarrow> timestamp \<Rightarrow> deterministic_grade option \<Rightarrow>
    judge_outcome option \<Rightarrow> bool \<Rightarrow> sys \<Rightarrow> proc \<times> sys" where
  "step_insert env sn now det judge already s =
     (let (rows, s1) = grading_commit env now (sn_rid sn) det judge already s in (P_complete sn rep_succeeded, s1))"

definition report_end :: "snapshot \<Rightarrow> report \<Rightarrow> sys \<Rightarrow> proc \<times> sys" where
  "report_end sn rep s =
     (P_done (Inr rep),
      if rep = rep_succeeded then inc_eval_items Item_succeeded (me_name (sn_endpoint sn)) s else s)"

definition step_complete :: "snapshot \<Rightarrow> report \<Rightarrow> sys \<Rightarrow> proc \<times> sys" where
  "step_complete sn rep s =
     (if remaining_items (sn_run_id sn) s = 0 then (P_ending sn rep, s) else report_end sn rep s)"

fun proc_step :: "grading_env \<Rightarrow> worker_env \<Rightarrow> proc \<Rightarrow> sys \<Rightarrow> proc \<times> sys" where
  "proc_step env w (P_start rid) s = (step_start rid s, s)"
| "proc_step env w (P_cancelled sn) s =
     (P_done (Inr (report_of ''failed'' ''cancelled'')), count_failed sn (mark_cancelled (sn_rid sn) s))"
| "proc_step env w (P_aborted sn) s =
     (P_done (Inr (report_of ''failed'' ''run-aborted'')),
      count_failed sn (mark_failed (sn_rid sn) ''eval run aborted'' s))"
| "proc_step env w (P_try sn attempt last_error) s =
     (if attempt \<le> max_attempts (we_retry w)
      then (P_call sn attempt last_error, mark_running (sn_rid sn) s)
      else (P_exhausted sn last_error, s))"
| "proc_step env w (P_call sn attempt last_error) s = step_call w sn attempt last_error s"
| "proc_step env w (P_refused sn m) s =
     (P_complete sn (report_of ''failed'' ''non-retryable''), count_failed sn (mark_failed (sn_rid sn) m s))"
| "proc_step env w (P_exhausted sn last_error) s =
     (P_publish sn, mark_dead_lettered (sn_rid sn)
        (''exhausted '' @ show_int (max_attempts (we_retry w)) @ '' attempts: '' @ last_error) s)"
| "proc_step env w (P_publish sn) s =
     (P_complete sn (report_of ''dead_lettered'' ''retries-exhausted''),
      inc_eval_items Item_dead_lettered (me_name (sn_endpoint sn))
        (inc_dead_letters (publish_dead_letter (sn_rid sn) s)))"
| "proc_step env w (P_check sn c) s =
     (if run_status_of (sn_run_id sn) s = Some Run_cancelled then (P_cancelled sn, s)
      else (P_store sn c, s))"
| "proc_step env w (P_store sn c) s =
     (let (akey, s1) = set_artifact (sn_rid sn) (artifact_of (sn_task sn) (sn_endpoint sn) c) s
      in (P_finalize sn c akey, s1))"
| "proc_step env w (P_finalize sn c akey) s = step_finalize sn c akey s"
| "proc_step env w (P_budget sn c) s = step_budget w sn c s"
| "proc_step env w (P_grade sn c) s = (step_grade env sn c s, s)"
| "proc_step env w (P_judge sn c now det) s = step_judge env w sn c now det s"
| "proc_step env w (P_review sn now det judge) s = (P_insert sn now det judge (review_exists (sn_rid sn) s), s)"
| "proc_step env w (P_insert sn now det judge already) s = step_insert env sn now det judge already s"
| "proc_step env w (P_grade_failed sn exc) s =
     (P_complete sn (report_of ''failed'' ''grading-failed''),
      count_failed sn (mark_failed (sn_rid sn) (''grading pipeline failed: '' @ exn_text exc) s))"
| "proc_step env w (P_complete sn rep) s = step_complete sn rep s"
| "proc_step env w (P_ending sn rep) s = report_end sn rep (complete_updates (sn_run_id sn) s)"
| "proc_step env w (P_done out) s = (P_done out, s)"

subsection \<open>The API and the world\<close>

text \<open>
  Every request that changes the state. \<open>Op_cancel_late\<close> and \<open>Op_replay_late\<close> are the updates of a
  cancel and a replay whose checks passed at an earlier moment, and \<open>Op_request_id\<close> is a request that
  only draws its request id.
\<close>

datatype api_op =
    Op_create uuid "uuid list"
  | Op_cancel uuid
  | Op_replay uuid
  | Op_cancel_late uuid
  | Op_replay_late uuid uuid
  | Op_review review_op
  | Op_catalogue crypto catalogue_op
  | Op_request_id

definition api_step :: "api_op \<Rightarrow> sys \<Rightarrow> sys" where
  "api_step op s =
     (case op of
        Op_create k ids \<Rightarrow> snd (create_eval_run k ids s)
      | Op_cancel k \<Rightarrow> snd (cancel_eval_run k s)
      | Op_replay rid \<Rightarrow> snd (replay_run_item rid s)
      | Op_cancel_late k \<Rightarrow> cancel_updates k s
      | Op_replay_late rid k \<Rightarrow> enqueue_run_item rid (replay_updates rid k s)
      | Op_review op \<Rightarrow> review_step op s
      | Op_catalogue h op \<Rightarrow> catalogue_step h op s
      | Op_request_id \<Rightarrow> s\<lparr>uuid_next := uuid_next s + 1\<rparr>)"

text \<open>
  A handler commits and then sends its messages. When its process dies or the broker refuses in
  between, only the first \<open>j\<close> of them are on the queue.
\<close>

definition cut_sends :: "nat \<Rightarrow> sys \<Rightarrow> sys \<Rightarrow> sys" where
  "cut_sends j s s' = s'\<lparr>evals_queue := take (length (evals_queue s) + j) (evals_queue s')\<rparr>"

text \<open>The item a process may still finalize.\<close>

fun active_rid :: "proc \<Rightarrow> uuid option" where
  "active_rid (P_start rid) = Some rid"
| "active_rid (P_try sn _ _) = Some (sn_rid sn)"
| "active_rid (P_call sn _ _) = Some (sn_rid sn)"
| "active_rid (P_check sn _) = Some (sn_rid sn)"
| "active_rid (P_store sn _) = Some (sn_rid sn)"
| "active_rid (P_finalize sn _ _) = Some (sn_rid sn)"
| "active_rid _ = None"

text \<open>The item whose message a process has not finished.\<close>

fun handled_rid :: "proc \<Rightarrow> uuid option" where
  "handled_rid (P_start rid) = Some rid"
| "handled_rid (P_cancelled sn) = Some (sn_rid sn)"
| "handled_rid (P_aborted sn) = Some (sn_rid sn)"
| "handled_rid (P_try sn _ _) = Some (sn_rid sn)"
| "handled_rid (P_call sn _ _) = Some (sn_rid sn)"
| "handled_rid (P_refused sn _) = Some (sn_rid sn)"
| "handled_rid (P_exhausted sn _) = Some (sn_rid sn)"
| "handled_rid (P_publish sn) = Some (sn_rid sn)"
| "handled_rid (P_check sn _) = Some (sn_rid sn)"
| "handled_rid (P_store sn _) = Some (sn_rid sn)"
| "handled_rid (P_finalize sn _ _) = Some (sn_rid sn)"
| "handled_rid (P_budget sn _) = Some (sn_rid sn)"
| "handled_rid (P_grade sn _) = Some (sn_rid sn)"
| "handled_rid (P_judge sn _ _ _) = Some (sn_rid sn)"
| "handled_rid (P_review sn _ _ _) = Some (sn_rid sn)"
| "handled_rid (P_insert sn _ _ _ _) = Some (sn_rid sn)"
| "handled_rid (P_grade_failed sn _) = Some (sn_rid sn)"
| "handled_rid (P_complete sn _) = Some (sn_rid sn)"
| "handled_rid (P_ending sn _) = Some (sn_rid sn)"
| "handled_rid (P_done _) = None"

type_synonym world = "sys \<times> proc list"

definition exclusive :: "uuid \<Rightarrow> proc list \<Rightarrow> bool" where
  "exclusive rid ps \<longleftrightarrow> list_all (\<lambda>p. active_rid p \<noteq> Some rid) ps"

definition unacknowledged :: "uuid \<Rightarrow> proc list \<Rightarrow> bool" where
  "unacknowledged rid ps \<longleftrightarrow> list_all (\<lambda>p. handled_rid p \<noteq> Some rid) ps"

inductive world_step :: "(uuid \<Rightarrow> proc list \<Rightarrow> bool) \<Rightarrow> grading_env \<Rightarrow> worker_env \<Rightarrow> world \<Rightarrow> world \<Rightarrow> bool"
  for policy env w where
  deliver: "rid \<in> set (evals_queue s) \<Longrightarrow> policy rid ps \<Longrightarrow>
    world_step policy env w (s, ps) (s, ps @ [P_start rid])"
| work: "i < length ps \<Longrightarrow> proc_step env w (ps ! i) s = (p, s') \<Longrightarrow>
    world_step policy env w (s, ps) (s', ps[i := p])"
| crash: "i < length ps \<Longrightarrow> world_step policy env w (s, ps) (s, take i ps @ drop (Suc i) ps)"
| api: "world_step policy env w (s, ps) (api_step op s, ps)"
| api_cut: "world_step policy env w (s, ps) (cut_sends j s (api_step op s), ps)"

inductive_cases world_stepE: "world_step policy env w W W'"

inductive reachable :: "(uuid \<Rightarrow> proc list \<Rightarrow> bool) \<Rightarrow> grading_env \<Rightarrow> worker_env \<Rightarrow> sys \<Rightarrow> world \<Rightarrow> bool"
  for policy env w s0 where
  start: "reachable policy env w s0 (s0, [])"
| step: "reachable policy env w s0 W \<Longrightarrow> world_step policy env w W W' \<Longrightarrow> reachable policy env w s0 W'"

inductive_simps world_step_iff: "world_step policy env w (s, ps) W'"

end
