(* ===== verification/World_Invariants.thy ===== *)
theory World_Invariants
  imports World
begin

text \<open>
  How a property of the database and of every process is kept by a running system. A process may own
  an item (\<open>key\<close>): its own step may change what the others do not know about that item, every other
  process keeps what it knows. Deliveries leave an owned item alone. The locale turns the
  contract of one step into an invariant of the reachable worlds; its interpretations are the ledger,
  the schema and the grade and review tables.
\<close>

definition unowned :: "(proc \<Rightarrow> uuid option) \<Rightarrow> uuid \<Rightarrow> proc list \<Rightarrow> bool" where
  "unowned key rid ps \<longleftrightarrow> list_all (\<lambda>p. key p \<noteq> Some rid) ps"

lemma exclusive_unowned: "exclusive = unowned active_rid"
  by (simp add: fun_eq_iff exclusive_def unowned_def)

lemma unacknowledged_unowned: "unacknowledged = unowned handled_rid"
  by (simp add: fun_eq_iff unacknowledged_def unowned_def)

text \<open>A policy that allows fewer deliveries reaches fewer worlds.\<close>

lemma world_step_mono:
  assumes "world_step policy env w W W'" and "\<And>rid ps. policy rid ps \<Longrightarrow> policy' rid ps"
  shows "world_step policy' env w W W'"
  using assms by (cases rule: world_step.cases) (auto intro: world_step.intros)

lemma reachable_mono:
  assumes "reachable policy env w s0 W" and "\<And>rid ps. policy rid ps \<Longrightarrow> policy' rid ps"
  shows "reachable policy' env w s0 W"
  using assms(1)
  by (induction rule: reachable.induct) (auto intro: reachable.intros world_step_mono [OF _ assms(2)])

subsection \<open>The items processes own\<close>

definition owned :: "(proc \<Rightarrow> uuid option) \<Rightarrow> proc list \<Rightarrow> uuid list" where
  "owned key ps = List.map_filter key ps"

lemma owned_simps [simp]:
  "owned key [] = []"
  "owned key (p # ps) = (case key p of None \<Rightarrow> owned key ps | Some i \<Rightarrow> i # owned key ps)"
  by (simp_all add: owned_def map_filter_simps split: option.split)

lemma owned_append [simp]: "owned key (ps @ qs) = owned key ps @ owned key qs"
  by (induction ps) (simp_all split: option.split)

lemma unowned_iff: "unowned key rid ps \<longleftrightarrow> rid \<notin> set (owned key ps)"
  by (induction ps) (auto simp: unowned_def split: option.splits)

lemma in_owned: "p \<in> set ps \<Longrightarrow> key p = Some i \<Longrightarrow> i \<in> set (owned key ps)"
  by (auto simp: owned_def set_map_filter_iff)

locale owned_invariant =
  fixes env :: grading_env and w :: worker_env
    and key :: "proc \<Rightarrow> uuid option" and G :: "sys \<Rightarrow> bool" and Q :: "sys \<Rightarrow> proc \<Rightarrow> bool"
  assumes start_key: "key (P_start rid) = None \<or> key (P_start rid) = Some rid"
    and start: "Q s (P_start rid)"
    and own: "G s \<Longrightarrow> Q s p \<Longrightarrow> proc_step env w p s = (p', s') \<Longrightarrow>
      G s' \<and> Q s' p' \<and> (key p' = None \<or> key p' = key p)"
    and others: "G s \<Longrightarrow> Q s p \<Longrightarrow> proc_step env w p s = (p', s') \<Longrightarrow> Q s q \<Longrightarrow>
      key q = None \<or> key q \<noteq> key p \<Longrightarrow> Q s' q"
    and api: "G s \<Longrightarrow> G (api_step op s)"
    and api_others: "G s \<Longrightarrow> Q s q \<Longrightarrow> Q (api_step op s) q"
    and unsent: "G s \<Longrightarrow> G (s\<lparr>evals_queue := ms\<rparr>)"
    and unsent_others: "Q s q \<Longrightarrow> Q (s\<lparr>evals_queue := ms\<rparr>) q"
begin

definition world_ok :: "world \<Rightarrow> bool" where
  "world_ok W \<longleftrightarrow> G (fst W) \<and> list_all (Q (fst W)) (snd W) \<and> distinct (owned key (snd W))"

lemma world_okI:
  "G s \<Longrightarrow> list_all (Q s) ps \<Longrightarrow> distinct (owned key ps) \<Longrightarrow> world_ok (s, ps)"
  by (simp add: world_ok_def)

lemma work_ok:
  assumes "proc_step env w p s = (p', s')" and "world_ok (s, qs @ p # rs)"
  shows "world_ok (s', qs @ p' # rs)"
proof -
  have inv: "G s" "Q s p" "list_all (Q s) qs" "list_all (Q s) rs" and dist: "distinct (owned key (qs @ p # rs))"
    using assms(2) by (simp_all add: world_ok_def)
  note step = own [OF inv(1,2) assms(1)]
  have "Q s' q" if "q \<in> set (qs @ rs)" for q
  proof (rule others [OF inv(1,2) assms(1)])
    show "Q s q" using inv that by (auto simp: list_all_iff)
    show "key q = None \<or> key q \<noteq> key p"
      using dist that in_owned [of q qs key] in_owned [of q rs key] by (auto split: option.splits)
  qed
  then have "list_all (Q s') (qs @ p' # rs)" using step by (auto simp: list_all_iff)
  moreover have "distinct (owned key (qs @ p' # rs))" using dist step by (auto split: option.splits)
  ultimately show ?thesis using step by (simp add: world_ok_def)
qed

lemma step_ok:
  assumes "world_step (unowned key) env w W W'" and "world_ok W"
  shows "world_ok W'"
  using assms(1)
proof (cases rule: world_step.cases)
  case (deliver rid s ps)
  then show ?thesis
    using assms(2) start_key [of rid] start [of s rid] by (auto simp: world_ok_def unowned_iff)
next
  case (work i ps s p s')
  have "world_ok (s, take i ps @ ps ! i # drop (Suc i) ps)"
    using assms(2) work(1,3) by (simp add: id_take_nth_drop [symmetric])
  from work_ok [OF work(4) this] show ?thesis using work(2,3) by (simp add: upd_conv_take_nth_drop)
next
  case (crash i ps s)
  have "ps = take i ps @ ps ! i # drop (Suc i) ps" using crash(3) by (rule id_take_nth_drop)
  then have "world_ok (s, take i ps @ ps ! i # drop (Suc i) ps)" using assms(2) crash(1) by simp
  then show ?thesis using crash(2) by (auto simp: world_ok_def split: option.splits)
next
  case (api s ps op)
  then show ?thesis
    using assms(2) owned_invariant.api [OF owned_invariant_axioms] api_others
    by (auto simp: world_ok_def list_all_iff)
next
  case (api_cut s ps j op)
  then show ?thesis
    using assms(2) owned_invariant.api [OF owned_invariant_axioms] api_others unsent unsent_others
    by (auto simp: world_ok_def list_all_iff cut_sends_def)
qed

lemma reachable_ok:
  assumes "reachable (unowned key) env w s0 W" and "G s0"
  shows "world_ok W"
  using assms(1)
proof (induction rule: reachable.induct)
  case start
  then show ?case using assms(2) by (simp add: world_ok_def)
next
  case (step W W')
  then show ?case by (blast intro: step_ok)
qed

lemma reachable_state: "reachable (unowned key) env w s0 (s, ps) \<Longrightarrow> G s0 \<Longrightarrow> G s"
  using reachable_ok [of s0 "(s, ps)"] by (simp add: world_ok_def)

end

text \<open>Without owners every delivery is allowed.\<close>

lemma reachable_unowned:
  assumes "reachable policy env w s0 W"
  shows "reachable (unowned (\<lambda>_. None)) env w s0 W"
  using assms by (rule reachable_mono) (simp add: unowned_def list_all_iff)

end
