(* ===== verification/World_Facts.thy ===== *)
theory World_Facts
  imports World_Invariants
begin

text \<open>
  The ledger under interleaving. As long as no message is delivered while another process works on
  the same item, every reachable world has run totals equal to the sums over the items, whatever
  crashes, cancellations, replays and new runs happen in between. Without that restriction two
  executions of one item count its cost twice: a schedule that does it is at the end.
\<close>

subsection \<open>What a step keeps\<close>

definition money_of :: "'a db_scheme \<Rightarrow> uuid \<Rightarrow> (uuid \<times> rat \<times> int) option" where
  "money_of d i = map_option (\<lambda>r. (ri_eval_run_id r, item_cost r, item_tokens r))
     (fetch ri_id i (run_items d))"

text \<open>Keys do not change, the supply of ids only grows.\<close>

definition same_keys :: "'a db_scheme \<Rightarrow> 'a db_scheme \<Rightarrow> bool" where
  "same_keys d d' \<longleftrightarrow>
     map (\<lambda>r. (ri_id r, ri_eval_run_id r)) (run_items d') =
       map (\<lambda>r. (ri_id r, ri_eval_run_id r)) (run_items d) \<and>
     map er_id (eval_runs d') = map er_id (eval_runs d) \<and> uuid_next d \<le> uuid_next d'"

text \<open>A step that moves no money at all.\<close>

definition quiet :: "'a db_scheme \<Rightarrow> 'a db_scheme \<Rightarrow> bool" where
  "quiet d d' \<longleftrightarrow> same_keys d d' \<and> (book_inv d \<longrightarrow> book_inv d') \<and> money_of d' = money_of d"

lemma quiet_refl: "quiet d d"
  by (simp add: quiet_def same_keys_def)

lemma quiet_trans: "quiet a b \<Longrightarrow> quiet b c \<Longrightarrow> quiet a c"
  by (auto simp: quiet_def same_keys_def)

lemma quiet_tables:
  assumes "run_items d' = run_items d" and "eval_runs d' = eval_runs d" and "uuid_next d \<le> uuid_next d'"
  shows "quiet d d'"
  using assms book_inv_frame [OF assms(1,2)] by (simp add: quiet_def same_keys_def money_of_def fun_eq_iff)

lemma quiet_items_update:
  assumes "\<And>r. ri_id (f r) = ri_id r" "\<And>r. ri_eval_run_id (f r) = ri_eval_run_id r"
    and "\<And>r. ri_cost_usd (f r) = ri_cost_usd r" "\<And>r. ri_prompt_tokens (f r) = ri_prompt_tokens r"
    and "\<And>r. ri_completion_tokens (f r) = ri_completion_tokens r"
  shows "quiet d (run_items_update (sql_update p f) d)"
proof -
  have "book_inv (run_items_update (sql_update p f) d) = book_inv d"
    by (simp add: book_inv_def ledger_ok_def ledger_simps map_sql_update assms)
  moreover have "money_of (run_items_update (sql_update p f) d) = money_of d"
  proof
    fix i
    show "money_of (run_items_update (sql_update p f) d) i = money_of d i"
      by (cases "fetch ri_id i (run_items d)")
         (simp_all add: money_of_def fetch_sql_update assms item_cost_def item_tokens_def)
  qed
  ultimately show ?thesis by (simp add: quiet_def same_keys_def map_sql_update assms)
qed

lemma quiet_runs_update:
  assumes "\<And>e. er_id (f e) = er_id e" "\<And>e. er_total_cost_usd (f e) = er_total_cost_usd e"
    and "\<And>e. er_total_tokens (f e) = er_total_tokens e"
  shows "quiet d (eval_runs_update (sql_update p f) d)"
proof -
  have "book_inv (eval_runs_update (sql_update p f) d) = book_inv d"
    by (simp add: book_inv_def ledger_ok_def ledger_simps map_sql_update assms totals_def)
  then show ?thesis
    by (simp add: quiet_def same_keys_def map_sql_update assms money_of_def fun_eq_iff)
qed

lemma quiet_marks:
  "quiet d (mark_running rid d)" "quiet d (mark_failed rid err d)"
  "quiet d (mark_dead_lettered rid err d)" "quiet d (mark_cancelled rid d)"
  unfolding mark_defs by (rule quiet_items_update; simp)+

lemma quiet_complete_updates: "quiet d (complete_updates k d)"
  unfolding complete_updates_def Let_def
  by (rule quiet_trans [OF quiet_runs_update quiet_runs_update]) simp_all

lemma quiet_complete: "quiet d (maybe_complete_run k d)"
  by (simp add: maybe_complete_run_def quiet_complete_updates quiet_refl)

lemma quiet_abort: "abort_over_budget k l t d = (b, d') \<Longrightarrow> quiet d d'"
  unfolding abort_over_budget_def Let_def
  by (auto split: if_splits intro!: quiet_trans [OF quiet_runs_update quiet_items_update] quiet_runs_update)

lemma quiet_sys:
  "quiet s (inc_eval_items st m s)" "quiet s (inc_dead_letters s)" "quiet s (publish_dead_letter rid s)"
  "quiet s (enqueue_run_item rid s)" "quiet s (s\<lparr>provider_calls := n\<rparr>)" "quiet s (s\<lparr>sleeps := ds\<rparr>)"
  by (rule quiet_tables; simp add: inc_eval_items_def inc_dead_letters_def publish_dead_letter_def
      enqueue_run_item_def Let_def)+

lemma quiet_artifact: "set_artifact rid a s = (k, s') \<Longrightarrow> quiet s s'"
  by (rule quiet_tables) (auto simp: set_artifact_def Let_def)

lemma quiet_count_failed: "quiet s s' \<Longrightarrow> quiet s (count_failed sn s')"
  unfolding count_failed_def by (rule quiet_trans [OF _ quiet_sys(1)])

text \<open>The item a snapshot describes still has the money the snapshot saw.\<close>

definition agrees :: "'a db_scheme \<Rightarrow> snapshot \<Rightarrow> bool" where
  "agrees d sn \<longleftrightarrow> money_of d (sn_rid sn) = Some (sn_run_id sn, prev_cost sn, prev_tokens sn)"

fun active_snapshot :: "proc \<Rightarrow> snapshot option" where
  "active_snapshot (P_try sn _ _) = Some sn"
| "active_snapshot (P_call sn _ _) = Some sn"
| "active_snapshot (P_check sn _) = Some sn"
| "active_snapshot (P_store sn _) = Some sn"
| "active_snapshot (P_finalize sn _ _) = Some sn"
| "active_snapshot _ = None"

lemma active_rid_snapshot: "active_snapshot p = Some sn \<Longrightarrow> active_rid p = Some (sn_rid sn)"
  by (cases p) auto

definition proc_agrees :: "'a db_scheme \<Rightarrow> proc \<Rightarrow> bool" where
  "proc_agrees d p \<longleftrightarrow> (case active_snapshot p of None \<Rightarrow> True | Some sn \<Rightarrow> agrees d sn)"

lemma load_item_agrees: "load_item rid d = Some sn \<Longrightarrow> agrees d sn"
  by (auto simp: agrees_def money_of_def prev_cost_def prev_tokens_def elim!: load_item_Some)

subsection \<open>One step of one process\<close>

text \<open>Every step but the finalizing one is quiet; that one moves the money of its own item.\<close>

lemma finalize_step:
  assumes "step_finalize sn c akey s = (p', s')" and "agrees s sn" and "book_inv s"
  shows "book_inv s' \<and> same_keys s s' \<and> (\<forall>i. i \<noteq> sn_rid sn \<longrightarrow> money_of s' i = money_of s i) \<and>
    active_rid p' = None"
proof (cases "finalize_completion sn c akey s")
  case (Inl e)
  with assms quiet_refl [of s] show ?thesis by (auto simp: step_finalize_def quiet_def)
next
  case (Inr bd)
  obtain b d' where bd: "bd = (b, d')" by fastforce
  have s': "s' = d'" and p': "active_rid p' = None"
    using assms(1) by (auto simp: step_finalize_def Inr bd split: bool.splits)
  obtain r where r: "fetch ri_id (sn_rid sn) (run_items s) = Some r" "ri_eval_run_id r = sn_run_id sn"
      "item_cost r = prev_cost sn" "item_tokens r = prev_tokens sn"
    using assms(2) by (auto simp: agrees_def money_of_def)
  note fin = Inr [unfolded bd finalize_completion_def Let_def]
  have book: "book_inv s'"
    unfolding s' by (rule finalize_book_inv [OF fin assms(3) r(1,2)]) (simp_all add: r)
  from fin have "same_keys s d' \<and> (\<forall>i. i \<noteq> sn_rid sn \<longrightarrow> money_of d' i = money_of s i)"
  proof (cases rule: finalize_item_cases)
    case skipped
    then show ?thesis by (simp add: same_keys_def)
  next
    case written
    have "money_of d' i = money_of s i" if "i \<noteq> sn_rid sn" for i
      using that by (cases "fetch ri_id i (run_items s)")
        (auto simp: money_of_def written(7) fetch_sql_update dest: fetch_SomeD)
    moreover have "uuid_next s \<le> uuid_next d'"
      using fin written(1) by (auto simp: finalize_item_def Let_def split: if_splits)
    ultimately show ?thesis by (simp add: same_keys_def written(6,7) map_sql_update)
  qed
  then show ?thesis using book p' by (simp add: s')
qed

definition sound_step :: "sys \<Rightarrow> proc \<Rightarrow> proc \<Rightarrow> sys \<Rightarrow> bool" where
  "sound_step s p p' s' \<longleftrightarrow> book_inv s' \<and> same_keys s s' \<and>
     (\<forall>i. active_rid p \<noteq> Some i \<longrightarrow> money_of s' i = money_of s i) \<and>
     proc_agrees s' p' \<and> (active_rid p' = None \<or> active_rid p' = active_rid p)"

lemma quiet_step:
  assumes "quiet s s'" and "book_inv s" and "proc_agrees s p"
    and "active_snapshot p' = None \<or> active_snapshot p' = active_snapshot p"
    and "active_rid p' = None \<or> active_rid p' = active_rid p"
  shows "sound_step s p p' s'"
  using assms by (auto simp: sound_step_def quiet_def proc_agrees_def agrees_def split: option.splits)

lemma call_step:
  "step_call w sn a le s = (p', s') \<Longrightarrow> quiet s s' \<and>
     (active_snapshot p' = None \<or> active_snapshot p' = Some sn) \<and>
     (active_rid p' = None \<or> active_rid p' = Some (sn_rid sn))"
  by (auto simp: step_call_def call_provider_def Let_def quiet_refl
      split: sum.splits exn.splits if_splits
      intro: quiet_sys quiet_trans [OF quiet_sys(5) quiet_sys(6)])

lemma quiet_judge: "run_judge env p t out s = (r, s') \<Longrightarrow> quiet s s'"
  using run_judge_frame [of env p t out s] quiet_sys(5) by auto

lemma quiet_insert: "grading_commit env now rid det judge already s = (rows, s') \<Longrightarrow> quiet s s'"
  by (rule quiet_tables) (auto simp: grading_commit_def Let_def insert_review_frame)

lemma report_end_quiet: "quiet s (snd (report_end sn rep s))"
  by (simp add: report_end_def quiet_refl quiet_sys)

lemma proc_step_sound:
  assumes st: "proc_step env w p s = (p', s')" and inv: "book_inv s" and ag: "proc_agrees s p"
  shows "sound_step s p p' s'"
proof (cases p)
  case (P_start rid)
  then have "p' = step_start rid s" "s' = s" using st by auto
  moreover have "proc_agrees s (step_start rid s)"
    by (auto simp: step_start_def proc_agrees_def load_item_agrees split: option.split)
  moreover have "active_rid (step_start rid s) \<in> {None, Some rid}"
    by (auto simp: step_start_def dest: load_item_row(3) split: option.split)
  ultimately show ?thesis using inv by (auto simp: sound_step_def P_start same_keys_def)
next
  case (P_finalize sn c akey)
  then have "step_finalize sn c akey s = (p', s')" "agrees s sn"
    using st ag by (simp_all add: proc_agrees_def)
  from finalize_step [OF this inv] show ?thesis
    by (auto simp: sound_step_def P_finalize proc_agrees_def dest: active_rid_snapshot split: option.split)
next
  case (P_call sn a le)
  with st call_step [of w sn a le s p' s'] show ?thesis
    by (intro quiet_step [OF _ inv ag]) auto
next
  case (P_store sn c)
  with st show ?thesis
    by (intro quiet_step [OF _ inv ag]) (auto dest: quiet_artifact split: prod.splits)
next
  case (P_budget sn c)
  with st show ?thesis
    by (intro quiet_step [OF _ inv ag])
       (auto simp: step_budget_def intro: quiet_trans [OF quiet_abort quiet_sys(1)] quiet_abort
         split: prod.splits if_splits)
next
  case (P_grade sn c)
  with st show ?thesis
    by (intro quiet_step [OF _ inv ag]) (auto simp: step_grade_def quiet_refl split: grading_start.splits)
next
  case (P_judge sn c now det)
  with st show ?thesis
    by (intro quiet_step [OF _ inv ag])
       (auto simp: step_judge_def dest: quiet_judge split: prod.splits sum.splits)
next
  case (P_insert sn now det judge already)
  with st show ?thesis
    by (intro quiet_step [OF _ inv ag]) (auto simp: step_insert_def dest: quiet_insert split: prod.splits)
next
  case (P_complete sn rep)
  with st report_end_quiet [of s sn rep] show ?thesis
    by (intro quiet_step [OF _ inv ag]) (auto simp: step_complete_def report_end_def quiet_refl split: if_splits)
next
  case (P_ending sn rep)
  have "quiet s (snd (report_end sn rep (complete_updates (sn_run_id sn) s)))"
    by (rule quiet_trans [OF quiet_complete_updates report_end_quiet])
  with P_ending st show ?thesis
    by (intro quiet_step [OF _ inv ag]) (auto simp: report_end_def)
next
  case (P_publish sn)
  with st show ?thesis
    by (intro quiet_step [OF _ inv ag])
       (auto intro: quiet_trans [OF quiet_sys(3) quiet_trans [OF quiet_sys(2) quiet_sys(1)]])
qed ((rule quiet_step [OF _ inv ag]; use st in \<open>auto intro!: quiet_marks quiet_refl
    quiet_count_failed split: if_splits\<close>)+)

subsection \<open>The API\<close>

definition ids_fresh :: "'a db_scheme \<Rightarrow> bool" where
  "ids_fresh d \<longleftrightarrow>
     list_all (\<lambda>r. ri_id r < uuid_next d \<and> ri_eval_run_id r < uuid_next d) (run_items d) \<and>
     list_all (\<lambda>e. er_id e < uuid_next d) (eval_runs d)"

lemma same_keys_fresh: "same_keys d d' \<Longrightarrow> ids_fresh d \<Longrightarrow> ids_fresh d'"
proof -
  assume keys: "same_keys d d'" and fresh: "ids_fresh d"
  have "\<forall>x \<in> set (map (\<lambda>r. (ri_id r, ri_eval_run_id r)) (run_items d')).
      fst x < uuid_next d' \<and> snd x < uuid_next d'"
    using keys fresh by (fastforce simp: same_keys_def ids_fresh_def list_all_iff)
  moreover have "\<forall>x \<in> set (map er_id (eval_runs d')). x < uuid_next d'"
    using keys fresh by (fastforce simp: same_keys_def ids_fresh_def list_all_iff)
  ultimately show ?thesis by (auto simp: ids_fresh_def list_all_iff)
qed

definition keeps_money :: "'a db_scheme \<Rightarrow> 'a db_scheme \<Rightarrow> bool" where
  "keeps_money d d' \<longleftrightarrow> (\<forall>i m. money_of d i = Some m \<longrightarrow> money_of d' i = Some m)"

lemma quiet_api:
  "quiet d d' \<Longrightarrow> book_inv d \<Longrightarrow> ids_fresh d \<Longrightarrow> book_inv d' \<and> ids_fresh d' \<and> keeps_money d d'"
  using same_keys_fresh [of d d'] by (simp add: quiet_def keeps_money_def)

text \<open>Appending a fresh run without money, with fresh items of it.\<close>

lemma append_run_book:
  assumes inv: "book_inv d" and fresh: "ids_fresh d"
    and run: "er_id e = uuid_next d" "er_total_cost_usd e = 0" "er_total_tokens e = 0"
    and items: "\<And>r. r \<in> set items \<Longrightarrow> ri_eval_run_id r = uuid_next d \<and> item_cost r = 0 \<and>
      item_tokens r = 0 \<and> uuid_next d < ri_id r \<and> ri_id r < n"
    and dist: "distinct (map ri_id items)" and n: "uuid_next d < n"
    and d': "run_items d' = run_items d @ items" "eval_runs d' = eval_runs d @ [e]" "uuid_next d' = n"
  shows "book_inv d' \<and> ids_fresh d' \<and> keeps_money d d'"
proof -
  have old: "ri_id r < uuid_next d" "ri_eval_run_id r < uuid_next d" if "r \<in> set (run_items d)" for r
    using fresh that by (auto simp: ids_fresh_def list_all_iff)
  have ids: "distinct (map ri_id (run_items d'))"
    using inv dist by (auto simp: book_inv_def d') (metis items less_asym old(1))
  have zero: "group_sum ri_eval_run_id item_cost k items = 0"
      "group_sum ri_eval_run_id item_tokens k items = 0" for k
    using items by (auto intro!: group_sum_zero)
  have new: "cost_book d (uuid_next d) = 0" "token_book d (uuid_next d) = 0"
    using old(2) by (auto simp: cost_book_def token_book_def intro!: group_sum_zero) fastforce+
  have books: "cost_book d' = cost_book d" "token_book d' = token_book d"
    by (simp_all add: cost_book_def token_book_def d'(1) zero fun_eq_iff)
  have "ledger_ok d'"
    using inv new by (auto simp: book_inv_def ledger_ok_iff books d'(2) run)
  moreover have "ids_fresh d'"
    using fresh items n by (fastforce simp: ids_fresh_def list_all_iff d' run)
  moreover have "keeps_money d d'"
    by (auto simp: keeps_money_def money_of_def d'(1) fetch_append split: option.split)
  ultimately show ?thesis using ids by (simp add: book_inv_def)
qed

lemma create_book:
  assumes inv: "book_inv s" and fresh: "ids_fresh s"
  shows "book_inv (snd (create_eval_run k ids s)) \<and> ids_fresh (snd (create_eval_run k ids s)) \<and>
    keeps_money s (snd (create_eval_run k ids s))"
proof -
  have same: "book_inv s \<and> ids_fresh s \<and> keeps_money s s" using inv fresh by (simp add: keeps_money_def)
  let ?items = "run_items_for (uuid_next s) (db_now s) (uuid_next s + 1) (tasks_of s k) (endpoints_of s ids)"
  let ?n = "uuid_next s + 1 + length ?items"
  have mem: "ri_eval_run_id r = uuid_next s \<and> item_cost r = 0 \<and> item_tokens r = 0 \<and>
      uuid_next s < ri_id r \<and> ri_id r < ?n" if "r \<in> set ?items" for r
  proof -
    have "ri_id r \<in> set (map ri_id ?items)" using that by simp
    moreover have "length ?items = length (tasks_of s k) * length (endpoints_of s ids)"
      using arg_cong [OF run_items_for_ids, of length] by simp
    ultimately have "uuid_next s < ri_id r" "ri_id r < ?n" unfolding run_items_for_ids by auto
    with run_items_for_fresh [of "uuid_next s" "db_now s" "uuid_next s + 1" "tasks_of s k" "endpoints_of s ids"]
      that show ?thesis by (simp add: list_all_iff item_cost_def item_tokens_def)
  qed
  have dist: "distinct (map ri_id ?items)" unfolding run_items_for_ids by simp
  let ?run = "new_eval_run (uuid_next s) k (db_now s)"
  have full: "book_inv s' \<and> ids_fresh s' \<and> keeps_money s s'"
    if "run_items s' = run_items s @ ?items" "eval_runs s' = eval_runs s @ [?run]" "uuid_next s' = ?n"
    for s' :: sys
    by (rule append_run_book [OF inv fresh _ _ _ mem dist _ that]) (simp_all add: new_eval_run_def)
  have empty: "book_inv s' \<and> ids_fresh s' \<and> keeps_money s s'"
    if "run_items s' = run_items s" "uuid_next s' = uuid_next s + 1"
      "eval_runs s' = eval_runs s @ [?run\<lparr>er_status := Run_completed, er_completed_at := Some (db_now s)\<rparr>]"
    for s' :: sys
    by (rule append_run_book [OF inv fresh, where items = "[]"])
       (use that in \<open>simp_all add: new_eval_run_def\<close>)
  show ?thesis
    unfolding create_eval_run_eq Let_def
    using same full empty by (simp split: option.split)
qed

lemma quiet_cancel: "quiet d (cancel_updates k d)"
  unfolding cancel_updates_def by (rule quiet_trans [OF quiet_runs_update quiet_items_update]) simp_all

lemma quiet_replay: "quiet s (enqueue_run_item rid (replay_updates rid k s))"
  unfolding replay_updates_def
  by (rule quiet_trans [OF quiet_trans [OF quiet_items_update quiet_runs_update] quiet_sys(4)]) simp_all

lemma api_step_sound:
  assumes inv: "book_inv s" and fresh: "ids_fresh s"
  shows "book_inv (api_step op s) \<and> ids_fresh (api_step op s) \<and> keeps_money s (api_step op s)"
proof (cases op)
  case (Op_create k ids)
  with create_book [OF assms] show ?thesis by (simp add: api_step_def)
next
  case (Op_cancel k)
  have "quiet s (snd (cancel_eval_run k s))"
    by (simp add: quiet_cancel cancel_eval_run_def Let_def quiet_refl split: option.split)
  then show ?thesis using quiet_api [OF _ assms] by (simp add: Op_cancel api_step_def)
next
  case (Op_replay rid)
  have "quiet s (snd (replay_run_item rid s))"
    by (simp add: quiet_replay replay_run_item_def quiet_refl split: option.split)
  then show ?thesis using quiet_api [OF _ assms] by (simp add: Op_replay api_step_def)
next
  case (Op_cancel_late k)
  then show ?thesis using quiet_api [OF quiet_cancel assms] by (simp add: api_step_def)
next
  case (Op_replay_late rid k)
  then show ?thesis using quiet_api [OF quiet_replay assms] by (simp add: api_step_def)
next
  case (Op_review rop)
  have "quiet s (review_step rop s)"
    by (rule quiet_tables; cases rule: review_step_cases [of rop s]; simp)
  then show ?thesis using quiet_api [OF _ assms] by (simp add: Op_review api_step_def)
next
  case (Op_catalogue h cop)
  have "quiet s (catalogue_step h cop s)"
    by (rule quiet_tables) (rule catalogue_step_frame)+
  then show ?thesis using quiet_api [OF _ assms] by (simp add: Op_catalogue api_step_def)
next
  case Op_request_id
  have "quiet s (s\<lparr>uuid_next := uuid_next s + 1\<rparr>)" by (rule quiet_tables) simp_all
  then show ?thesis using quiet_api [OF _ assms] by (simp add: Op_request_id api_step_def)
qed

subsection \<open>Worlds\<close>

lemma proc_agrees_kept:
  assumes "proc_agrees d q" and "\<And>i m. active_rid q = Some i \<Longrightarrow> money_of d i = Some m \<Longrightarrow> money_of d' i = Some m"
  shows "proc_agrees d' q"
  using assms active_rid_snapshot [of q]
  by (auto simp: proc_agrees_def agrees_def split: option.splits)

definition books_fresh :: "'a db_scheme \<Rightarrow> bool" where
  "books_fresh d \<longleftrightarrow> book_inv d \<and> ids_fresh d"

interpretation ledger: owned_invariant env w active_rid books_fresh proc_agrees
proof
  show "active_rid (P_start rid) = None \<or> active_rid (P_start rid) = Some rid" for rid by simp
  show "proc_agrees s (P_start rid)" for s :: sys and rid by (simp add: proc_agrees_def)
next
  fix s s' :: sys and p p'
  assume "books_fresh s" "proc_agrees s p" and st: "proc_step env w p s = (p', s')"
  with proc_step_sound [OF st] have sound: "sound_step s p p' s'" by (simp add: books_fresh_def)
  then have "ids_fresh s'"
    using same_keys_fresh [of s s'] \<open>books_fresh s\<close> by (simp add: sound_step_def books_fresh_def)
  with sound show "books_fresh s' \<and> proc_agrees s' p' \<and> (active_rid p' = None \<or> active_rid p' = active_rid p)"
    by (simp add: sound_step_def books_fresh_def)
  fix q assume "proc_agrees s q" and key: "active_rid q = None \<or> active_rid q \<noteq> active_rid p"
  then show "proc_agrees s' q"
    by (rule_tac proc_agrees_kept) (use sound key in \<open>auto simp: sound_step_def\<close>)
next
  fix s :: sys and op assume ok: "books_fresh s"
  with api_step_sound [of s op] show "books_fresh (api_step op s)" by (simp add: books_fresh_def)
  fix q assume "proc_agrees s q"
  then show "proc_agrees (api_step op s) q"
    by (rule proc_agrees_kept) (use api_step_sound [of s op] ok in \<open>auto simp: books_fresh_def keeps_money_def\<close>)
next
  fix s :: sys and ms
  assume "books_fresh s"
  moreover have "quiet s (s\<lparr>evals_queue := ms\<rparr>)" by (rule quiet_tables) simp_all
  ultimately show "books_fresh (s\<lparr>evals_queue := ms\<rparr>)" using quiet_api by (auto simp: books_fresh_def)
next
  fix s :: sys and q ms
  assume "proc_agrees s q"
  then show "proc_agrees (s\<lparr>evals_queue := ms\<rparr>) q" by (rule proc_agrees_kept) (simp add: money_of_def)
qed

subsection \<open>Schedules\<close>

text \<open>An executable scheduler: an action that is not enabled does nothing.\<close>

datatype action = Deliver uuid | Work nat | Crash nat | Api api_op | Api_cut nat api_op

fun perform :: "(uuid \<Rightarrow> proc list \<Rightarrow> bool) \<Rightarrow> grading_env \<Rightarrow> worker_env \<Rightarrow> action \<Rightarrow> world \<Rightarrow> world" where
  "perform policy env w (Deliver rid) (s, ps) =
     (if rid \<in> set (evals_queue s) \<and> policy rid ps then (s, ps @ [P_start rid]) else (s, ps))"
| "perform policy env w (Work i) (s, ps) =
     (if i < length ps then let (p, s') = proc_step env w (ps ! i) s in (s', ps[i := p]) else (s, ps))"
| "perform policy env w (Crash i) (s, ps) =
     (if i < length ps then (s, take i ps @ drop (Suc i) ps) else (s, ps))"
| "perform policy env w (Api op) (s, ps) = (api_step op s, ps)"
| "perform policy env w (Api_cut j op) (s, ps) = (cut_sends j s (api_step op s), ps)"

lemma perform_step: "perform policy env w a W = W \<or> world_step policy env w W (perform policy env w a W)"
  by (cases W; cases a) (auto simp: Let_def world_step_iff split: prod.split)

lemma perform_reachable:
  "reachable policy env w s0 W \<Longrightarrow> reachable policy env w s0 (fold (perform policy env w) as W)"
proof (induction as arbitrary: W)
  case Nil
  then show ?case by simp
next
  case (Cons a as)
  have "reachable policy env w s0 (perform policy env w a W)"
    using perform_step [of policy env w a W] Cons.prems reachable.step by metis
  then show ?case using Cons.IH by simp
qed

text \<open>
  C1. In every interleaving of worker steps, crashes, redeliveries and API requests in which no
  message is delivered while another process is working on its item, the totals of every run equal
  the sums over its items at every moment.
\<close>

theorem interleaved_ledger:
  assumes "distinct (map ri_id (run_items s0))" and "ledger_ok s0" and "ids_fresh s0"
    and "reachable exclusive env w s0 (s, ps)"
  shows "ledger_ok s"
  using ledger.reachable_state [OF assms(4) [unfolded exclusive_unowned]] assms(1-3)
  by (simp add: books_fresh_def book_inv_def)

text \<open>
  Item 40 is delivered, tried and dies before its final transaction; the run is cancelled; item 41
  and a replay of nothing follow.
\<close>

definition fx_schedule :: "action list" where
  "fx_schedule = [Deliver 40, Work 0, Work 0, Work 0, Deliver 40, Deliver 41, Work 1, Work 1, Work 1,
     Work 1, Work 1, Work 1, Crash 0, Api (Op_cancel 30), Deliver 40, Work 1, Work 1, Api (Op_replay 40)]"

definition fx_world :: world where
  "fx_world = fold (perform exclusive fx_env
     (fx_worker (fx_provider ''V''))) fx_schedule (fx_sys, [])"

theorem interleaved_ledger_witness: "ledger_ok (fst fx_world)"
proof (rule interleaved_ledger [where env = fx_env and w = "fx_worker (fx_provider ''V'')" and ps = "snd fx_world"])
  show "reachable exclusive fx_env
      (fx_worker (fx_provider ''V'')) fx_sys (fst fx_world, snd fx_world)"
    using perform_reachable [OF reachable.start] by (simp add: fx_world_def fx_worker_def)
qed code_simp+

end
