(* ===== verification/World_Runs.thy ===== *)
theory World_Runs
  imports World_Facts
begin

text \<open>
  The two views of an execution agree: a process that runs alone reaches, in a bounded number of
  steps, exactly the outcome and the state of \<open>execute_run_item\<close>. And why the ledger needs the
  exclusive delivery: two executions of one item that overlap charge the run twice.
\<close>

subsection \<open>Overlapping executions\<close>

text \<open>Item 40 is delivered twice; both processes read it before either finalizes.\<close>

definition fx_overlap :: "action list" where
  "fx_overlap = [Deliver 40, Deliver 40, Work 0, Work 1] @ replicate 5 (Work 0) @ replicate 5 (Work 1)"

definition fx_overlapped :: world where
  "fx_overlapped = fold (perform (\<lambda>_ _. True) fx_env
     (fx_worker (fx_provider ''V''))) fx_overlap (fx_sys, [])"

text \<open>
  With overlapping deliveries the finalizing guard does not prevent double counting: from a
  state whose ledger is in order a world is reachable in which the run is charged twice the cost
  its only finished item records, because the second execution marks the finished item running
  again without a guard and takes its delta against the snapshot it read at the start.
\<close>

theorem overlapping_deliveries_double_count:
  "reachable (\<lambda>_ _. True) fx_env (fx_worker (fx_provider ''V''))
     fx_sys fx_overlapped \<and>
   ledger_ok fx_sys \<and> ids_fresh fx_sys \<and> \<not> ledger_ok (fst fx_overlapped) \<and>
   cost_book (fst fx_overlapped) 30 = compute_cost ''gpt-4o'' 1000 500 \<and>
   map er_total_cost_usd (eval_runs (fst fx_overlapped)) = [2 * compute_cost ''gpt-4o'' 1000 500]"
proof (intro conjI)
  show "reachable (\<lambda>_ _. True) fx_env (fx_worker (fx_provider ''V''))
      fx_sys fx_overlapped"
    unfolding fx_overlapped_def by (rule perform_reachable [OF reachable.start])
  show "ledger_ok fx_sys" by code_simp
  show "ids_fresh fx_sys" by code_simp
  show "\<not> ledger_ok (fst fx_overlapped)" by code_simp
  show "cost_book (fst fx_overlapped) 30 = compute_cost ''gpt-4o'' 1000 500" by code_simp
  show "map er_total_cost_usd (eval_runs (fst fx_overlapped)) = [2 * compute_cost ''gpt-4o'' 1000 500]"
    by code_simp
qed

subsection \<open>A process that runs alone\<close>

definition alone :: "grading_env \<Rightarrow> worker_env \<Rightarrow> proc \<times> sys \<Rightarrow> proc \<times> sys" where
  "alone env w = (\<lambda>(p, s). proc_step env w p s)"

definition finishes :: "grading_env \<Rightarrow> worker_env \<Rightarrow> nat \<Rightarrow> proc \<Rightarrow> sys \<Rightarrow> outcome \<Rightarrow> bool" where
  "finishes env w n p s out \<longleftrightarrow> (alone env w ^^ n) (p, s) = (P_done (fst out), snd out)"

lemma finishes_done: "finishes env w n (P_done r) s (r, s)"
  by (induction n) (simp_all add: finishes_def alone_def)

lemma finishes_step:
  assumes "proc_step env w p s = (p', s')" and "finishes env w n p' s' out"
  shows "finishes env w (Suc n) p s out"
  using assms by (simp add: finishes_def alone_def funpow_swap1 [symmetric] del: funpow.simps)
    (simp add: funpow_Suc_right del: funpow.simps)

lemma finishes_mono: "finishes env w n p s out \<Longrightarrow> n \<le> m \<Longrightarrow> finishes env w m p s out"
proof -
  assume f: "finishes env w n p s out" and "n \<le> m"
  then obtain k where m: "m = k + n" by (metis le_add_diff_inverse2)
  have "(alone env w ^^ k) (P_done (fst out), snd out) = (P_done (fst out), snd out)"
    using finishes_done [of env w k "fst out" "snd out"] by (simp add: finishes_def)
  with f show ?thesis by (simp add: finishes_def m funpow_add)
qed

lemma finishes_report: "fst (report_end sn rep s) = P_done (Inr rep)"
  by (simp add: report_end_def)

lemma finishes_complete:
  "finishes env w (Suc (Suc n)) (P_complete sn rep) s
     (Inr rep, if rep = rep_succeeded
        then inc_eval_items Item_succeeded (me_name (sn_endpoint sn)) (maybe_complete_run (sn_run_id sn) s)
        else maybe_complete_run (sn_run_id sn) s)"
proof (cases "remaining_items (sn_run_id sn) s = 0")
  case True
  then have "proc_step env w (P_complete sn rep) s = (P_ending sn rep, s)" by (simp add: step_complete_def)
  moreover have "finishes env w (Suc n) (P_ending sn rep) s
     (Inr rep, if rep = rep_succeeded
        then inc_eval_items Item_succeeded (me_name (sn_endpoint sn)) (maybe_complete_run (sn_run_id sn) s)
        else maybe_complete_run (sn_run_id sn) s)"
    by (rule finishes_step [OF _ finishes_done]) (simp add: report_end_def maybe_complete_run_def True)
  ultimately show ?thesis by (rule finishes_step)
next
  case False
  then show ?thesis
    by (intro finishes_step [OF _ finishes_done])
       (simp add: step_complete_def report_end_def maybe_complete_run_def)
qed

text \<open>The six steps of grading are \<open>grade_run_item\<close> with what follows it.\<close>

lemma finishes_grade_failed:
  "finishes env w 3 (P_grade_failed sn exc) s
     (Inr (report_of ''failed'' ''grading-failed''),
      maybe_complete_run (sn_run_id sn) (inc_eval_items Item_failed (me_name (sn_endpoint sn))
        (mark_failed (sn_rid sn) (''grading pipeline failed: '' @ exn_text exc) s)))"
  unfolding numeral_3_eq_3
  by (rule finishes_step, simp)
     (use finishes_complete [of env w 0 sn "report_of ''failed'' ''grading-failed''"] in
       \<open>simp add: count_failed_def report_of_def\<close>)

lemma finishes_graded:
  "finishes env w (Suc (Suc n)) (P_complete sn rep_succeeded) s
     (Inr rep_succeeded, inc_eval_items Item_succeeded (me_name (sn_endpoint sn))
        (maybe_complete_run (sn_run_id sn) s))"
  using finishes_complete [of env w n sn rep_succeeded s] by simp

lemma finishes_judge:
  assumes "grading_begin env (sn_rid sn) (sn_task sn) (cr_text c) s = G_new det"
  shows "finishes env w 5 (P_judge sn c (db_now s) det) s
     (grade_and_complete (grade_run_item env (we_provider w)) sn c s)"
proof -
  obtain r s1 where judge: "run_judge env (we_provider w) (sn_task sn) (cr_text c) s = (r, s1)" by fastforce
  show ?thesis
  proof (cases r)
    case (Inl e)
    have "finishes env w (Suc 3) (P_judge sn c (db_now s) det) s
        (grade_and_complete (grade_run_item env (we_provider w)) sn c s)"
      by (rule finishes_step [where p' = "P_grade_failed sn e" and s' = s1])
         (use finishes_grade_failed in
           \<open>simp_all add: step_judge_def judge Inl grade_and_complete_def grade_run_item_def assms\<close>)
    then show ?thesis by (rule finishes_mono) simp
  next
    case (Inr judge')
    obtain rows s2 where commit:
      "grading_commit env (db_now s) (sn_rid sn) det judge' (review_exists (sn_rid sn) s1) s1 = (rows, s2)"
      by fastforce
    have "finishes env w (Suc (Suc (Suc 2))) (P_judge sn c (db_now s) det) s
        (grade_and_complete (grade_run_item env (we_provider w)) sn c s)"
      by (rule finishes_step [where p' = "P_review sn (db_now s) det judge'" and s' = s1],
          simp add: step_judge_def judge Inr,
          rule finishes_step, simp, rule finishes_step, simp add: step_insert_def commit)
         (use finishes_graded [of env w 0 sn s2] in
           \<open>simp add: numeral_2_eq_2 grade_and_complete_def grade_run_item_def assms judge Inr commit\<close>)
    then show ?thesis by simp
  qed
qed

lemma finishes_grade:
  "finishes env w 6 (P_grade sn c) s (grade_and_complete (grade_run_item env (we_provider w)) sn c s)"
proof (cases "grading_begin env (sn_rid sn) (sn_task sn) (cr_text c) s")
  case (G_existing gs)
  have "finishes env w (Suc 5) (P_grade sn c) s (grade_and_complete (grade_run_item env (we_provider w)) sn c s)"
    by (rule finishes_step [where p' = "P_complete sn rep_succeeded" and s' = s])
       (use finishes_graded [of env w 3 sn s] in
         \<open>simp_all add: step_grade_def G_existing grade_and_complete_def grade_run_item_def\<close>)
  then show ?thesis by simp
next
  case (G_raised e)
  have "finishes env w (Suc 3) (P_grade sn c) s (grade_and_complete (grade_run_item env (we_provider w)) sn c s)"
    by (rule finishes_step [where p' = "P_grade_failed sn e" and s' = s])
       (use finishes_grade_failed in
         \<open>simp_all add: step_grade_def G_raised grade_and_complete_def grade_run_item_def\<close>)
  then show ?thesis by (rule finishes_mono) simp
next
  case (G_new det)
  have "finishes env w (Suc 5) (P_grade sn c) s (grade_and_complete (grade_run_item env (we_provider w)) sn c s)"
    by (rule finishes_step [OF _ finishes_judge [OF G_new]]) (simp add: step_grade_def G_new)
  then show ?thesis by simp
qed

lemma finishes_completion: "finishes env w 10 (P_check sn c) s (after_completion (grade_run_item env (we_provider w)) w sn c s)"
proof (cases "run_status_of (sn_run_id sn) s = Some Run_cancelled")
  case True
  have "finishes env w 2 (P_check sn c) s (after_completion (grade_run_item env (we_provider w)) w sn c s)"
    unfolding numeral_2_eq_2
    by (rule finishes_step, simp add: True, rule finishes_step, simp)
       (simp add: True after_completion_def count_failed_def finishes_done)
  then show ?thesis by (rule finishes_mono) simp
next
  case False
  obtain akey s1 where art: "set_artifact (sn_rid sn) (artifact_of (sn_task sn) (sn_endpoint sn) c) s =
      (akey, s1)" by fastforce
  have fin: "finishes env w 8 (P_finalize sn c akey) s1 (after_completion (grade_run_item env (we_provider w)) w sn c s)"
  proof (cases "finalize_completion sn c akey s1")
    case (Inl e)
    have "finishes env w (Suc 0) (P_finalize sn c akey) s1 (after_completion (grade_run_item env (we_provider w)) w sn c s)"
      by (rule finishes_step, simp add: step_finalize_def Inl)
         (simp add: after_completion_def False art Inl finishes_done)
    then show ?thesis by (rule finishes_mono) simp
  next
    case (Inr bd)
    obtain b s2 where bd: "bd = (b, s2)" by fastforce
    show ?thesis
    proof (cases b)
      case False' : False
      have "finishes env w (Suc 0) (P_finalize sn c akey) s1 (after_completion (grade_run_item env (we_provider w)) w sn c s)"
        by (rule finishes_step, simp add: step_finalize_def Inr bd False')
           (simp add: after_completion_def False art Inr bd False' finishes_done)
      then show ?thesis by (rule finishes_mono) simp
    next
      case True
      obtain ab s3 where ab: "abort_over_budget (sn_run_id sn) (we_spend_limit w) (we_spend_text w) s2 =
          (ab, s3)" by fastforce
      have "finishes env w 7 (P_budget sn c) s2 (after_completion (grade_run_item env (we_provider w)) w sn c s)"
      proof (cases ab)
        case True': True
        have "finishes env w (Suc 0) (P_budget sn c) s2 (after_completion (grade_run_item env (we_provider w)) w sn c s)"
          by (rule finishes_step, simp add: step_budget_def ab True')
             (simp add: after_completion_def False art Inr bd True ab True' finishes_done)
        then show ?thesis by (rule finishes_mono) simp
      next
        case False': False
        have "finishes env w (Suc 6) (P_budget sn c) s2 (after_completion (grade_run_item env (we_provider w)) w sn c s)"
          by (rule finishes_step, simp add: step_budget_def ab False')
             (use finishes_grade in \<open>simp add: after_completion_def False art Inr bd True ab False'\<close>)
        then show ?thesis by simp
      qed
      then have "finishes env w (Suc 7) (P_finalize sn c akey) s1 (after_completion (grade_run_item env (we_provider w)) w sn c s)"
        by (intro finishes_step) (auto simp: step_finalize_def Inr bd True)
      then show ?thesis by simp
    qed
  qed
  have "finishes env w (Suc (Suc 8)) (P_check sn c) s (after_completion (grade_run_item env (we_provider w)) w sn c s)"
    by (rule finishes_step, simp add: False, rule finishes_step, simp add: art) (rule fin)
  then show ?thesis by simp
qed

definition conclude :: "grading_env \<Rightarrow> worker_env \<Rightarrow> snapshot \<Rightarrow> attempts \<times> sys \<Rightarrow> outcome" where
  "conclude env w sn res =
     (case res of
        (Raised e, s1) \<Rightarrow> (Inl e, s1)
      | (Refused m, s1) \<Rightarrow> after_refused sn m s1
      | (Exhausted m, s1) \<Rightarrow> after_exhausted w sn m s1
      | (Completed r, s1) \<Rightarrow> after_completion (grade_run_item env (we_provider w)) w sn r s1)"

lemma finishes_exhausted:
  "finishes env w 4 (P_exhausted sn le) s (after_exhausted w sn le s)"
proof -
  have "finishes env w (Suc (Suc (Suc (Suc 0)))) (P_exhausted sn le) s (after_exhausted w sn le s)"
    by (rule finishes_step, simp, rule finishes_step, simp)
       (use finishes_complete [of env w 0 sn "report_of ''dead_lettered'' ''retries-exhausted''"] in
         \<open>simp add: after_exhausted_def Let_def report_of_def\<close>)
  then show ?thesis by (simp add: eval_nat_numeral)
qed

lemma finishes_refused: "finishes env w 3 (P_refused sn m) s (after_refused sn m s)"
proof -
  have "finishes env w (Suc (Suc (Suc 0))) (P_refused sn m) s (after_refused sn m s)"
    by (rule finishes_step, simp)
       (use finishes_complete [of env w 0 sn "report_of ''failed'' ''non-retryable''"] in
         \<open>simp add: after_refused_def count_failed_def report_of_def\<close>)
  then show ?thesis by (simp add: numeral_3_eq_3)
qed

lemma finishes_attempts:
  assumes "nat (max_attempts (we_retry w) - a + 1) = k"
  shows "finishes env w (2 * k + 10) (P_try sn a le) s
     (conclude env w sn (attempt_loop w sn [a..max_attempts (we_retry w)] le s))"
  using assms
proof (induction k arbitrary: a le s)
  case 0
  then have "max_attempts (we_retry w) < a" by simp
  then have "finishes env w (Suc 4) (P_try sn a le) s
      (conclude env w sn (attempt_loop w sn [a..max_attempts (we_retry w)] le s))"
    by (intro finishes_step [OF _ finishes_exhausted [THEN back_subst [of "finishes env w 4 _ _"]]])
       (simp_all add: conclude_def)
  then show ?case by (rule finishes_mono) simp
next
  case (Suc k)
  let ?max = "max_attempts (we_retry w)"
  have le: "a \<le> ?max" and upto: "[a..?max] = a # [a + 1..?max]"
    using Suc.prems by (simp_all add: upto_rec1)
  let ?s1 = "mark_running (sn_rid sn) s"
  let ?ask = "call_provider (effective_provider (we_provider w) (sn_endpoint sn))
    (tk_prompt (sn_task sn)) (me_model_id (sn_endpoint sn)) ?s1"
  let ?goal = "conclude env w sn (attempt_loop w sn [a..?max] le s)"
  obtain r s2 where ask: "?ask = (r, s2)" by fastforce
  have call: "finishes env w (2 * k + 11) (P_call sn a le) ?s1 ?goal"
  proof (cases r)
    case (Inr c)
    have "finishes env w (Suc 10) (P_call sn a le) ?s1 ?goal"
      by (rule finishes_step [where p' = "P_check sn c" and s' = s2])
         (use finishes_completion in \<open>simp_all add: step_call_def ask Inr upto conclude_def Let_def\<close>)
    then show ?thesis by (rule finishes_mono) simp
  next
    case (Inl e)
    show ?thesis
    proof (cases "\<exists>m. e = RetryableProviderError m")
      case True
      then obtain m where e: "e = RetryableProviderError m" by blast
      let ?s3 = "if a < ?max
        then s2\<lparr>sleeps := sleeps s2 @ [backoff_delay a (we_retry w) (we_jitter w a)]\<rparr> else s2"
      have "finishes env w (2 * k + 10) (P_try sn (a + 1) m) ?s3
          (conclude env w sn (attempt_loop w sn [a + 1..?max] m ?s3))"
        by (rule Suc.IH) (use Suc.prems in simp)
      moreover have "?goal = conclude env w sn (attempt_loop w sn [a + 1..?max] m ?s3)"
        by (simp add: upto ask Inl e Let_def del: upto_rec1)
      ultimately have "finishes env w (Suc (2 * k + 10)) (P_call sn a le) ?s1 ?goal"
        by (intro finishes_step [where p' = "P_try sn (a + 1) m" and s' = ?s3])
           (simp_all add: step_call_def ask Inl e Let_def)
      then show ?thesis by (simp add: add.commute)
    next
      case no_retry: False
      show ?thesis
      proof (cases "\<exists>m. e = NonRetryableProviderError m")
        case True
        then obtain m where e: "e = NonRetryableProviderError m" by blast
        have "finishes env w (Suc 3) (P_call sn a le) ?s1 ?goal"
          by (rule finishes_step [where p' = "P_refused sn m" and s' = s2])
             (use finishes_refused in \<open>simp_all add: step_call_def ask Inl e upto conclude_def Let_def\<close>)
        then show ?thesis by (rule finishes_mono) simp
      next
        case False
        have "finishes env w (Suc 0) (P_call sn a le) ?s1 ?goal"
          by (rule finishes_step [where p' = "P_done (Inl e)" and s' = s2])
             (use no_retry False in \<open>auto simp: step_call_def ask Inl upto conclude_def Let_def
               finishes_done split: exn.split\<close>)
        then show ?thesis by (rule finishes_mono) simp
      qed
    qed
  qed
  have "finishes env w (Suc (2 * k + 11)) (P_try sn a le) s ?goal"
    by (rule finishes_step [OF _ call]) (simp add: le)
  then show ?case by simp
qed

lemma finishes_execution:
  "finishes env w (2 * nat (max_attempts (we_retry w)) + 11) (P_start rid) s
     (execute_run_item env w rid s)"
proof -
  let ?g = "grade_run_item env (we_provider w)"
  let ?n = "2 * nat (max_attempts (we_retry w)) + 10"
  have "finishes env w ?n (step_start rid s) s (execute_with ?g w rid s)"
  proof (cases "load_item rid s")
    case None
    then show ?thesis by (simp add: step_start_def execute_with_def finishes_done)
  next
    case (Some sn)
    have rid: "sn_rid sn = rid" by (rule load_item_row(3) [OF Some])
    have one: "finishes env w (Suc 0) (P_cancelled sn) s (Inr (report_of ''failed'' ''cancelled''),
        count_failed sn (mark_cancelled rid s))"
      by (rule finishes_step [OF _ finishes_done]) (simp add: rid)
    have two: "finishes env w (Suc 0) (P_aborted sn) s (Inr (report_of ''failed'' ''run-aborted''),
        count_failed sn (mark_failed rid ''eval run aborted'' s))"
      by (rule finishes_step [OF _ finishes_done]) (simp add: rid)
    have loop: "finishes env w ?n (P_try sn 1 ''None'') s (execute_loaded ?g w sn s)"
      using finishes_attempts [of w 1 "nat (max_attempts (we_retry w))" env sn "''None''" s]
      by (simp add: execute_loaded_def run_attempts_def conclude_def)
    show ?thesis
      using finishes_mono [OF one, of ?n] finishes_mono [OF two, of ?n] loop
      by (simp add: step_start_def execute_with_def Some count_failed_def finishes_done)
  qed
  then have "finishes env w (Suc ?n) (P_start rid) s (execute_with ?g w rid s)"
    by (intro finishes_step) simp_all
  then show ?thesis by (simp add: execute_run_item_def add.commute)
qed

text \<open>What every step of a process keeps, the execution keeps.\<close>

lemma execute_keeps:
  assumes "\<And>p s. P s \<Longrightarrow> P (snd (proc_step env w p s))" and "P s"
  shows "P (snd (execute_run_item env w rid s))"
proof -
  have "P (snd ((alone env w ^^ n) (p, s)))" for n p
    using assms(2) by (induction n) (simp_all add: alone_def case_prod_unfold assms(1))
  with finishes_execution [of env w rid s] show ?thesis unfolding finishes_def by (metis snd_conv)
qed

text \<open>
  C10. A process that runs alone is the execution: from the delivery of a message it reaches, in at
  most \<open>2 * max_attempts + 11\<close> steps, its end with exactly the outcome and the state that
  \<open>execute_run_item\<close> computes.
\<close>

theorem process_refines_execution:
  "(alone env w ^^ (2 * nat (max_attempts (we_retry w)) + 11))
     (P_start rid, s) =
   (P_done (fst (execute_run_item env w rid s)), snd (execute_run_item env w rid s))"
  using finishes_execution [of env w rid s] by (simp add: finishes_def)

end
