(* ===== verification/World_Grading.thy ===== *)
theory World_Grading
  imports World_Runs
begin

text \<open>
  What a process that is grading carries between its transactions: the results it goes on with are
  results of the graders, so the rows it commits later are in range whatever happened in between.
\<close>

subsection \<open>Where the results come from\<close>

definition judged :: "grading_env \<Rightarrow> worker_env \<Rightarrow> snapshot \<Rightarrow> deterministic_grade option \<Rightarrow>
    judge_outcome option \<Rightarrow> bool" where
  "judged env w sn det judge \<longleftrightarrow>
     (\<exists>out s s1. run_deterministic (ge_regex env) (sn_task sn) out = Inr det \<and>
        run_judge env (we_provider w) (sn_task sn) out s = (Inr judge, s1))"

lemma judgedI:
  "run_deterministic (ge_regex env) (sn_task sn) out = Inr det \<Longrightarrow>
   run_judge env (we_provider w) (sn_task sn) out s = (Inr judge, s1) \<Longrightarrow> judged env w sn det judge"
  unfolding judged_def by blast

fun graders_ran :: "grading_env \<Rightarrow> worker_env \<Rightarrow> proc \<Rightarrow> bool" where
  "graders_ran env w (P_judge sn c now det) \<longleftrightarrow>
     run_deterministic (ge_regex env) (sn_task sn) (cr_text c) = Inr det"
| "graders_ran env w (P_review sn now det judge) \<longleftrightarrow> judged env w sn det judge"
| "graders_ran env w (P_insert sn now det judge already) \<longleftrightarrow> judged env w sn det judge"
| "graders_ran env w _ \<longleftrightarrow> True"

lemma grading_begin_new:
  "grading_begin env rid t out d = G_new det \<longleftrightarrow>
     existing_grades rid d = [] \<and> run_deterministic (ge_regex env) t out = Inr det"
  by (auto simp: grading_begin_def split: sum.split)

lemma graders_ran_start: "graders_ran env w (step_start rid s)"
  by (simp add: step_start_def split: option.split)

lemma graders_ran_step:
  assumes "graders_ran env w p" and "proc_step env w p s = (p', s')"
  shows "graders_ran env w p'"
proof (cases p)
  case (P_start rid)
  then show ?thesis using assms(2) graders_ran_start by auto
next
  case (P_grade sn c)
  then show ?thesis using assms(2) by (auto simp: step_grade_def grading_begin_new split: grading_start.splits)
next
  case (P_judge sn c now det)
  then show ?thesis using assms by (auto simp: step_judge_def split: prod.splits sum.splits intro: judgedI)
qed (use assms in \<open>auto simp: step_call_def step_finalize_def step_budget_def step_insert_def step_complete_def
      report_end_def Let_def split: if_splits prod.splits sum.splits bool.splits exn.splits\<close>)

lemma judged_rows_ok: "judged env w sn det judge \<Longrightarrow> list_all grade_ok (grade_rows i now rid det judge)"
  by (auto simp: judged_def intro: grade_rows_ok)

end
