(* ===== verification/Migrations.thy ===== *)
theory Migrations
  imports World_Grading
begin

text \<open>
  The schema of the database after the migrations of \<open>alembic/versions\<close>: for every table its primary
  key, its foreign keys, its unique columns and the ranges of its numeric columns. Columns that are
  NOT NULL and the enums are enforced by the types of the records. \<open>attempt_count\<close> is the one numeric
  column without a bound here: it grows by one with every attempt.

  Then what each kind of statement does to these constraints, one frame lemma per kind.
\<close>

subsection \<open>Columns\<close>

text \<open>\<open>Numeric(p, s)\<close>: at most \<open>p - s\<close> digits before the point and \<open>s\<close> after it, kept exactly.\<close>

definition decimals :: "nat \<Rightarrow> rat \<Rightarrow> bool" where
  "decimals s x \<longleftrightarrow> of_int \<lfloor>x * 10 ^ s\<rfloor> = x * 10 ^ s"

definition numeric_column :: "nat \<Rightarrow> nat \<Rightarrow> rat \<Rightarrow> bool" where
  "numeric_column p s x \<longleftrightarrow> numeric_fits p s x \<and> decimals s x"

definition nullable :: "('c \<Rightarrow> bool) \<Rightarrow> 'c option \<Rightarrow> bool" where
  "nullable P x = (case x of None \<Rightarrow> True | Some v \<Rightarrow> P v)"

definition refers :: "uuid \<Rightarrow> uuid list \<Rightarrow> bool" where
  "refers k pks \<longleftrightarrow> k \<in> set pks"

subsection \<open>Tables\<close>

definition task_set_table :: "'a db_scheme \<Rightarrow> bool" where
  "task_set_table d \<longleftrightarrow> distinct (map ts_id (task_sets d))"

definition task_table :: "'a db_scheme \<Rightarrow> bool" where
  "task_table d \<longleftrightarrow> distinct (map tk_id (tasks d)) \<and>
     list_all (\<lambda>t. refers (tk_task_set_id t) (map ts_id (task_sets d))) (tasks d)"

definition model_endpoint_table :: "'a db_scheme \<Rightarrow> bool" where
  "model_endpoint_table d \<longleftrightarrow> distinct (map me_id (model_endpoints d))"

definition eval_run_columns :: "eval_run \<Rightarrow> bool" where
  "eval_run_columns e \<longleftrightarrow> numeric_column 12 6 (er_total_cost_usd e) \<and> int4 (er_total_tokens e)"

definition eval_run_table :: "'a db_scheme \<Rightarrow> bool" where
  "eval_run_table d \<longleftrightarrow> distinct (map er_id (eval_runs d)) \<and>
     list_all (\<lambda>e. refers (er_task_set_id e) (map ts_id (task_sets d)) \<and> eval_run_columns e) (eval_runs d)"

definition run_item_columns :: "run_item \<Rightarrow> bool" where
  "run_item_columns r \<longleftrightarrow> nullable int4 (ri_latency_ms r) \<and> nullable int4 (ri_prompt_tokens r) \<and>
     nullable int4 (ri_completion_tokens r) \<and> nullable (numeric_column 12 6) (ri_cost_usd r)"

definition run_item_table :: "'a db_scheme \<Rightarrow> bool" where
  "run_item_table d \<longleftrightarrow> distinct (map ri_id (run_items d)) \<and>
     list_all (\<lambda>r. refers (ri_eval_run_id r) (map er_id (eval_runs d)) \<and>
       refers (ri_task_id r) (map tk_id (tasks d)) \<and>
       refers (ri_model_endpoint_id r) (map me_id (model_endpoints d)) \<and> run_item_columns r) (run_items d)"

definition grade_table :: "'a db_scheme \<Rightarrow> bool" where
  "grade_table d \<longleftrightarrow> distinct (map gr_id (grades d)) \<and>
     list_all (\<lambda>g. refers (gr_run_item_id g) (map ri_id (run_items d)) \<and>
       nullable (numeric_column 4 3) (gr_score g)) (grades d)"

definition review_item_table :: "'a db_scheme \<Rightarrow> bool" where
  "review_item_table d \<longleftrightarrow> distinct (map rv_id (review_items d)) \<and>
     list_all (\<lambda>v. refers (rv_run_item_id v) (map ri_id (run_items d)) \<and>
       nullable (numeric_column 4 3) (rv_reviewer_label v)) (review_items d)"

definition api_key_table :: "'a db_scheme \<Rightarrow> bool" where
  "api_key_table d \<longleftrightarrow> distinct (map ak_id (api_keys d)) \<and> distinct (map ak_key_hash (api_keys d))"

definition schema_ok :: "'a db_scheme \<Rightarrow> bool" where
  "schema_ok d \<longleftrightarrow> task_set_table d \<and> task_table d \<and> model_endpoint_table d \<and> eval_run_table d \<and>
     run_item_table d \<and> grade_table d \<and> review_item_table d \<and> api_key_table d"

text \<open>Every id in use was drawn before.\<close>

definition all_ids :: "'a db_scheme \<Rightarrow> uuid list" where
  "all_ids d = map ts_id (task_sets d) @ map tk_id (tasks d) @ map me_id (model_endpoints d) @
     map er_id (eval_runs d) @ map ri_id (run_items d) @ map gr_id (grades d) @
     map rv_id (review_items d) @ map ak_id (api_keys d)"

definition drawn_ids :: "'a db_scheme \<Rightarrow> bool" where
  "drawn_ids d \<longleftrightarrow> list_all (\<lambda>i. i < uuid_next d) (all_ids d)"

lemma drawn_grow:
  assumes "drawn_ids d" and "uuid_next d \<le> uuid_next d'"
    and "\<And>i. i \<in> set (all_ids d') \<Longrightarrow> i \<in> set (all_ids d) \<or> i < uuid_next d'"
  shows "drawn_ids d'"
  using assms by (auto simp: drawn_ids_def list_all_iff intro: less_le_trans)

lemma drawn_below:
  assumes "drawn_ids d"
  shows "r1 \<in> set (task_sets d) \<Longrightarrow> ts_id r1 < uuid_next d" "r2 \<in> set (tasks d) \<Longrightarrow> tk_id r2 < uuid_next d"
    "r3 \<in> set (model_endpoints d) \<Longrightarrow> me_id r3 < uuid_next d" "r4 \<in> set (eval_runs d) \<Longrightarrow> er_id r4 < uuid_next d"
    "r5 \<in> set (run_items d) \<Longrightarrow> ri_id r5 < uuid_next d" "r6 \<in> set (grades d) \<Longrightarrow> gr_id r6 < uuid_next d"
    "r7 \<in> set (review_items d) \<Longrightarrow> rv_id r7 < uuid_next d" "r8 \<in> set (api_keys d) \<Longrightarrow> ak_id r8 < uuid_next d"
  using assms by (auto simp: drawn_ids_def list_all_iff all_ids_def)

lemmas table_defs = task_set_table_def task_table_def model_endpoint_table_def eval_run_table_def
  run_item_table_def grade_table_def review_item_table_def api_key_table_def

subsection \<open>Exact decimals\<close>

lemma decimals_iff: "decimals s x \<longleftrightarrow> (\<exists>z. x = of_int z / 10 ^ s)"
proof
  assume "decimals s x"
  then have "x * 10 ^ s / 10 ^ s = of_int \<lfloor>x * 10 ^ s\<rfloor> / 10 ^ s" by (simp only: decimals_def)
  then have "x = of_int \<lfloor>x * 10 ^ s\<rfloor> / 10 ^ s" by simp
  then show "\<exists>z. x = of_int z / 10 ^ s" by blast
qed (auto simp: decimals_def)

lemma decimals_zero [simp]: "decimals s 0"
  by (simp add: decimals_def)

lemma decimals_add: "decimals s x \<Longrightarrow> decimals s y \<Longrightarrow> decimals s (x + y)"
  unfolding decimals_iff by (metis add_divide_distrib of_int_add)

lemma decimals_diff: "decimals s x \<Longrightarrow> decimals s y \<Longrightarrow> decimals s (x - y)"
  unfolding decimals_iff by (metis diff_divide_distrib of_int_diff)

lemma decimals_quantize: "decimals s (quantize s x)"
  unfolding decimals_iff quantize_def scaled_def by blast

lemma decimals_cost: "decimals 6 (compute_cost m p c)"
  by (simp add: compute_cost_def decimals_quantize)

lemma unit_column: "0 \<le> x \<Longrightarrow> x \<le> 1 \<Longrightarrow> decimals 3 x \<Longrightarrow> numeric_column 4 3 x"
  by (simp add: numeric_column_def numeric_fits_def)

lemma zero_columns: "numeric_column 12 6 0" "int4 0"
  by (simp_all add: numeric_column_def numeric_fits_def int4_def)

subsection \<open>Statements\<close>

definition schema_inv :: "'a db_scheme \<Rightarrow> bool" where
  "schema_inv d \<longleftrightarrow> schema_ok d \<and> drawn_ids d"

text \<open>What a step promises: the schema still holds, and no run item disappears.\<close>

definition schema_step :: "'a db_scheme \<Rightarrow> 'a db_scheme \<Rightarrow> bool" where
  "schema_step d d' \<longleftrightarrow> (schema_inv d \<longrightarrow> schema_inv d') \<and>
     set (map ri_id (run_items d)) \<subseteq> set (map ri_id (run_items d'))"

lemma schema_step_refl: "schema_step d d"
  by (simp add: schema_step_def)

lemma schema_step_trans: "schema_step a b \<Longrightarrow> schema_step b c \<Longrightarrow> schema_step a c"
  by (auto simp: schema_step_def)

lemma schema_frame:
  assumes "task_sets d' = task_sets d" "tasks d' = tasks d" "model_endpoints d' = model_endpoints d"
    and "eval_runs d' = eval_runs d" "run_items d' = run_items d" "grades d' = grades d"
    and "review_items d' = review_items d" "api_keys d' = api_keys d" "uuid_next d \<le> uuid_next d'"
  shows "schema_step d d'"
proof -
  have "drawn_ids d'" if "drawn_ids d"
    using that assms(9) by (rule drawn_grow) (simp add: all_ids_def assms(1-8))
  then show ?thesis by (simp add: schema_step_def schema_inv_def schema_ok_def table_defs assms(1-8))
qed

lemma schema_items_update:
  assumes "\<And>r. ri_id (f r) = ri_id r" "\<And>r. ri_eval_run_id (f r) = ri_eval_run_id r"
    and "\<And>r. ri_task_id (f r) = ri_task_id r" "\<And>r. ri_model_endpoint_id (f r) = ri_model_endpoint_id r"
    and "\<And>r. p r \<Longrightarrow> run_item_columns r \<Longrightarrow> run_item_columns (f r)"
  shows "schema_step d (run_items_update (sql_update p f) d)"
proof -
  have ids: "map ri_id (sql_update p f (run_items d)) = map ri_id (run_items d)"
    by (rule map_sql_update) (rule assms)
  have "run_item_table d \<longrightarrow> run_item_table (run_items_update (sql_update p f) d)"
    unfolding run_item_table_def by (auto simp: ids list_all_iff set_sql_update assms)
  then show ?thesis
    by (auto simp: schema_step_def schema_inv_def schema_ok_def task_set_table_def task_table_def
        model_endpoint_table_def eval_run_table_def grade_table_def review_item_table_def api_key_table_def
        drawn_ids_def all_ids_def ids)
qed

lemma schema_runs_update:
  assumes "\<And>e. er_id (f e) = er_id e" "\<And>e. er_task_set_id (f e) = er_task_set_id e"
    and "\<And>e. e \<in> set (eval_runs d) \<Longrightarrow> p e \<Longrightarrow> eval_run_columns e \<Longrightarrow> eval_run_columns (f e)"
  shows "schema_step d (eval_runs_update (sql_update p f) d)"
proof -
  have ids: "map er_id (sql_update p f (eval_runs d)) = map er_id (eval_runs d)"
    by (rule map_sql_update) (rule assms)
  have "eval_run_table d \<longrightarrow> eval_run_table (eval_runs_update (sql_update p f) d)"
    unfolding eval_run_table_def using assms(3) by (auto simp: ids list_all_iff set_sql_update assms(1,2))
  then show ?thesis
    by (auto simp: schema_step_def schema_inv_def schema_ok_def task_set_table_def task_table_def
        model_endpoint_table_def run_item_table_def grade_table_def review_item_table_def api_key_table_def
        drawn_ids_def all_ids_def ids)
qed

lemma schema_reviews_update:
  assumes "\<And>v. rv_id (f v) = rv_id v" "\<And>v. rv_run_item_id (f v) = rv_run_item_id v"
    and "\<And>v. p v \<Longrightarrow> nullable (numeric_column 4 3) (rv_reviewer_label v) \<Longrightarrow>
      nullable (numeric_column 4 3) (rv_reviewer_label (f v))"
  shows "schema_step d (review_items_update (sql_update p f) d)"
proof -
  have ids: "map rv_id (sql_update p f (review_items d)) = map rv_id (review_items d)"
    by (rule map_sql_update) (rule assms)
  have "review_item_table d \<longrightarrow> review_item_table (review_items_update (sql_update p f) d)"
    unfolding review_item_table_def by (auto simp: ids list_all_iff set_sql_update assms)
  then show ?thesis
    by (auto simp: schema_step_def schema_inv_def schema_ok_def task_set_table_def task_table_def
        model_endpoint_table_def run_item_table_def grade_table_def eval_run_table_def api_key_table_def
        drawn_ids_def all_ids_def ids)
qed

end
