(* ===== verification/World_Schema.thy ===== *)
theory World_Schema
  imports Migrations
begin

text \<open>
  Every reachable database satisfies the schema: whatever the processes, crashes, redeliveries and
  requests, no statement leaves a dangling reference, a repeated key or a value its column cannot
  hold exactly. What a process carries is a snapshot of an item that stays in the table.
\<close>

subsection \<open>The worker's transactions\<close>

lemma schema_marks:
  "schema_step d (mark_running rid d)" "schema_step d (mark_failed rid err d)"
  "schema_step d (mark_dead_lettered rid err d)" "schema_step d (mark_cancelled rid d)"
  unfolding mark_defs by (rule schema_items_update; simp add: run_item_columns_def)+

lemma schema_sys:
  "schema_step s (inc_eval_items st m s)" "schema_step s (inc_dead_letters s)"
  "schema_step s (publish_dead_letter rid s)" "schema_step s (enqueue_run_item rid s)"
  "schema_step s (s\<lparr>provider_calls := n\<rparr>)" "schema_step s (s\<lparr>sleeps := ds\<rparr>)" "schema_step s (s\<lparr>redis := h\<rparr>)"
  by (rule schema_frame; simp add: inc_eval_items_def inc_dead_letters_def publish_dead_letter_def
      enqueue_run_item_def Let_def)+

lemma schema_failed: "schema_step s s' \<Longrightarrow> schema_step s (count_failed sn s')"
  unfolding count_failed_def by (rule schema_step_trans [OF _ schema_sys(1)])

lemma schema_complete: "schema_step d (complete_updates k d)"
  unfolding complete_updates_def Let_def
  by (rule schema_step_trans [OF schema_runs_update schema_runs_update]) (simp_all add: eval_run_columns_def)

lemma schema_report: "schema_step s (snd (report_end sn rep s))"
  by (simp add: report_end_def schema_step_refl schema_sys)

lemma schema_abort: "abort_over_budget k l t d = (b, d') \<Longrightarrow> schema_step d d'"
  unfolding abort_over_budget_def Let_def
  by (auto split: if_splits intro!: schema_step_trans [OF schema_runs_update schema_items_update]
      schema_runs_update simp: eval_run_columns_def run_item_columns_def)

lemma schema_finalize:
  assumes "finalize_item rid k lat pt ct cost akey dc dt d = Inr (b, d')"
    and "decimals 6 cost" and "decimals 6 dc"
  shows "schema_step d d'"
proof (cases "rowcount (\<lambda>r. ri_id r = rid \<and> ri_status r = Item_running) (run_items d) = 0")
  case True
  with assms(1) show ?thesis by (auto simp: finalize_item_def Let_def schema_step_refl split: if_splits)
next
  case False
  let ?d1 = "run_items_update (sql_update (\<lambda>r. ri_id r = rid \<and> ri_status r = Item_running)
      (\<lambda>r. r\<lparr>ri_status := Item_succeeded, ri_latency_ms := Some lat, ri_prompt_tokens := Some pt,
        ri_completion_tokens := Some ct, ri_cost_usd := Some cost, ri_error := None,
        ri_artifact_key := Some akey, ri_updated_at := db_now d\<rparr>)) d"
  have fits: "int4 lat" "int4 pt" "int4 ct" "numeric_fits 12 6 cost"
      "\<And>e. e \<in> set (eval_runs d) \<Longrightarrow> er_id e = k \<Longrightarrow>
        numeric_fits 12 6 (er_total_cost_usd e + dc) \<and> int4 (er_total_tokens e + dt)"
    and d': "d' = eval_runs_update (sql_update (\<lambda>e. er_id e = k)
      (\<lambda>e. e\<lparr>er_total_cost_usd := er_total_cost_usd e + dc, er_total_tokens := er_total_tokens e + dt\<rparr>)) ?d1"
    using assms(1) False by (auto simp: finalize_item_def Let_def exists_row_iff split: if_splits)
  have "schema_step d ?d1"
    by (rule schema_items_update) (use fits assms(2) in \<open>auto simp: run_item_columns_def nullable_def numeric_column_def\<close>)
  moreover have "schema_step ?d1 d'"
    unfolding d'
    by (rule schema_runs_update)
       (use fits(5) assms(3) in \<open>auto simp: eval_run_columns_def numeric_column_def decimals_add\<close>)
  ultimately show ?thesis by (rule schema_step_trans)
qed

text \<open>Grading inserts rows that refer to the graded item.\<close>

lemma score_column: "0 \<le> x \<and> x \<le> 1 \<Longrightarrow> numeric_column 4 3 (quantize 3 x)"
  using quantize_unit [of x 3] decimals_quantize [of 3 x] by (auto intro: unit_column)

lemma judge_decimals:
  assumes "run_judge env p t out s = (Inr (Some j), s1)" and "jo_score j = Some x"
  shows "decimals 3 x"
  using assms
  by (auto simp: run_judge_def Let_def decimals_quantize split: sum.splits option.splits prod.splits exn.splits)

lemma grade_rows_columns:
  assumes "run_deterministic re t out = Inr det" and "run_judge env p t out s = (Inr judge, s1)"
  shows "list_all (\<lambda>g. nullable (numeric_column 4 3) (gr_score g)) (grade_rows i now rid det judge)"
proof -
  have unit: "0 \<le> x \<and> x \<le> 1" if "g \<in> set (grade_rows i now rid det judge)" "gr_score g = Some x" for g x
    using grade_rows_ok [OF assms, of i now rid] that by (auto simp: list_all_iff grade_ok_def split: option.splits)
  have "decimals 3 (dg_score g)" if "det = Some g" for g
    using det.score_binary [of "(re, t, out)" g] assms(1) that by (auto simp: decimals_def)
  then have "decimals 3 x" if "g \<in> set (grade_rows i now rid det judge)" "gr_score g = Some x" for g x
    using that judge_decimals [of env p t out s _ s1 x] assms(2)
    by (auto simp: grade_rows_def new_grade_def split: option.splits)
  with unit show ?thesis by (auto simp: list_all_iff nullable_def split: option.split intro: unit_column)
qed

lemma insert_review_rows:
  obtains vs where "review_items (insert_review now rid w a s) = review_items s @ vs" "distinct (map rv_id vs)"
    "\<And>v. v \<in> set vs \<Longrightarrow> rv_id v = uuid_next s + 2 \<and> rv_run_item_id v = rid \<and> rv_reviewer_label v = None"
proof -
  have "review_items (insert_review now rid w a s) = review_items s \<or>
      (\<exists>reason. review_items (insert_review now rid w a s) =
        review_items s @ [new_review_item (uuid_next s + 2) now rid reason])"
    by (cases w) (auto simp: insert_review_def)
  then show thesis
  proof
    assume "review_items (insert_review now rid w a s) = review_items s"
    then show thesis by (intro that [of "[]"]) simp_all
  next
    assume "\<exists>reason. review_items (insert_review now rid w a s) =
        review_items s @ [new_review_item (uuid_next s + 2) now rid reason]"
    then show thesis using that by (auto simp: new_review_item_def)
  qed
qed

lemma insert_review_catalogue:
  "task_sets (insert_review now rid w a s) = task_sets s" "api_keys (insert_review now rid w a s) = api_keys s"
  by (simp_all add: insert_review_def split: option.split)

lemma schema_insert:
  assumes "rid \<in> ri_id ` set (run_items s)"
    and "list_all (\<lambda>g. nullable (numeric_column 4 3) (gr_score g)) (grade_rows (uuid_next s) now rid det judge)"
    and "grading_commit env now rid det judge already s = (rows, s')"
  shows "schema_step s s'"
proof -
  let ?r = "insert_review now rid (review_wanted (ge_settings env) det judge) already s"
  have r: "rows = grade_rows (uuid_next s) now rid det judge"
    and s': "s' = ?r\<lparr>grades := grades s @ rows, uuid_next := uuid_next s + 3\<rparr>"
    using assms(3) by (auto simp: grading_commit_def Let_def insert_review_frame)
  have rows: "list_all (\<lambda>g. gr_run_item_id g = rid \<and> nullable (numeric_column 4 3) (gr_score g)) rows"
    using assms(2) grade_rows_run_item [of _ "uuid_next s" now rid det judge] by (auto simp: r list_all_iff)
  have ids: "set (map gr_id rows) \<subseteq> {uuid_next s, uuid_next s + 1} \<and> distinct (map gr_id rows)"
    by (auto simp: r grade_rows_def new_grade_def split: option.split)
  have old: "\<And>g. g \<in> set (grades s) \<Longrightarrow> gr_id g < uuid_next s"
      "\<And>v. v \<in> set (review_items s) \<Longrightarrow> rv_id v < uuid_next s" if "schema_inv s"
    using that drawn_below [of s] by (auto simp: schema_inv_def)
  have new: "uuid_next s \<le> gr_id g \<and> gr_id g < uuid_next s + 3" if "g \<in> set rows" for g
    using ids that by force
  have grades: "grade_table s'" if "schema_inv s"
    using that ids rows assms(1) new old(1) [OF that]
    by (fastforce simp: s' schema_inv_def schema_ok_def grade_table_def list_all_iff refers_def
        insert_review_frame)
  obtain vs where vs: "review_items ?r = review_items s @ vs" "distinct (map rv_id vs)"
      "\<And>v. v \<in> set vs \<Longrightarrow> rv_id v = uuid_next s + 2 \<and> rv_run_item_id v = rid \<and> rv_reviewer_label v = None"
    using insert_review_rows by blast
  have reviews: "review_item_table s'" if "schema_inv s"
  proof -
    have tab: "review_item_table s" using that by (simp add: schema_inv_def schema_ok_def)
    have "distinct (map rv_id (review_items s @ vs))"
      using tab vs(2,3) old(2) [OF that] by (fastforce simp: review_item_table_def)
    moreover have "refers (rv_run_item_id v) (map ri_id (run_items s)) \<and>
        nullable (numeric_column 4 3) (rv_reviewer_label v)" if "v \<in> set (review_items s @ vs)" for v
      using that tab vs(3) [of v] assms(1) by (auto simp: review_item_table_def list_all_iff refers_def nullable_def)
    ultimately show ?thesis
      by (simp add: review_item_table_def list_all_iff vs(1) insert_review_frame s')
  qed
  have drawn: "drawn_ids s'" if "schema_inv s"
  proof (rule drawn_grow [of s])
    show "drawn_ids s" using that by (simp add: schema_inv_def)
    fix i assume "i \<in> set (all_ids s')"
    with new vs(3) show "i \<in> set (all_ids s) \<or> i < uuid_next s'"
      by (auto simp: all_ids_def insert_review_frame insert_review_catalogue vs(1) s')
  qed (simp add: s')
  show ?thesis
    using grades reviews drawn
    by (simp add: s' schema_step_def schema_inv_def schema_ok_def task_set_table_def task_table_def
        model_endpoint_table_def eval_run_table_def run_item_table_def api_key_table_def insert_review_frame
        insert_review_catalogue)
qed

lemma judged_columns:
  "judged env w sn det judge \<Longrightarrow>
   list_all (\<lambda>g. nullable (numeric_column 4 3) (gr_score g)) (grade_rows i now rid det judge)"
  by (auto simp: judged_def intro: grade_rows_columns)

subsection \<open>The requests\<close>

lemma schema_review: "schema_step d (review_step op d)"
proof (cases rule: review_step_cases [of op d])
  case same
  then show ?thesis by (simp add: schema_step_refl)
next
  case (claim i)
  show ?thesis unfolding claim(2) by (rule schema_reviews_update) simp_all
next
  case (resolve i q)
  have "numeric_column 4 3 (quantize 3 (rq_label q))"
    using resolve(2) by (intro score_column) (simp add: resolve_request_ok_def)
  then show ?thesis
    unfolding resolve(3) by (intro schema_reviews_update) (simp_all add: nullable_def)
next
  case (wait n)
  then show ?thesis by (intro schema_frame) simp_all
qed

lemma schema_cancel: "schema_step d (cancel_updates k d)"
  unfolding cancel_updates_def
  by (rule schema_step_trans [OF schema_runs_update schema_items_update])
     (simp_all add: eval_run_columns_def run_item_columns_def)

lemma schema_replay: "schema_step s (enqueue_run_item rid (replay_updates rid k s))"
  unfolding replay_updates_def
  by (rule schema_step_trans [OF schema_step_trans [OF schema_items_update schema_runs_update] schema_sys(4)])
     (simp_all add: eval_run_columns_def run_item_columns_def)

text \<open>A new run with the items of its tasks and endpoints.\<close>

lemma schema_append_run:
  assumes run: "er_id e = uuid_next d" "refers (er_task_set_id e) (map ts_id (task_sets d))" "eval_run_columns e"
    and items: "\<And>r. r \<in> set items \<Longrightarrow> ri_eval_run_id r = uuid_next d \<and>
      refers (ri_task_id r) (map tk_id (tasks d)) \<and>
      refers (ri_model_endpoint_id r) (map me_id (model_endpoints d)) \<and> run_item_columns r"
    and ids: "map ri_id items = [uuid_next d + 1..<n]" and n: "uuid_next d < n"
    and d': "task_sets d' = task_sets d" "tasks d' = tasks d" "model_endpoints d' = model_endpoints d"
      "eval_runs d' = eval_runs d @ [e]" "run_items d' = run_items d @ items" "grades d' = grades d"
      "review_items d' = review_items d" "api_keys d' = api_keys d" "uuid_next d' = n"
  shows "schema_step d d'"
proof -
  have "schema_inv d'" if inv: "schema_inv d"
  proof -
    note ok = inv [unfolded schema_inv_def schema_ok_def]
    note below = drawn_below [of d]
    have new: "uuid_next d < i \<and> i < n" if "i \<in> set (map ri_id items)" for i
      using that unfolding ids by auto
    have dist: "distinct (map ri_id items)" unfolding ids by simp
    have "eval_run_table d'"
      using ok run below(4) by (fastforce simp: eval_run_table_def d' list_all_iff)
    moreover have "distinct (map ri_id (run_items d'))"
      using ok below(5) new dist by (fastforce simp: run_item_table_def d')
    then have "run_item_table d'"
      using ok items by (auto simp: run_item_table_def d' list_all_iff refers_def run)
    moreover have "drawn_ids d'"
    proof (rule drawn_grow [of d])
      fix i assume "i \<in> set (all_ids d')"
      with new n show "i \<in> set (all_ids d) \<or> i < uuid_next d'" by (auto simp: all_ids_def d' run)
    qed (use ok n in \<open>simp_all add: d'\<close>)
    ultimately show ?thesis
      using ok by (auto simp: schema_inv_def schema_ok_def task_set_table_def task_table_def
          model_endpoint_table_def grade_table_def review_item_table_def api_key_table_def d' list_all_iff refers_def)
  qed
  then show ?thesis by (auto simp: schema_step_def d')
qed

lemma schema_create: "schema_step s (snd (create_eval_run k ids s))"
proof -
  let ?items = "run_items_for (uuid_next s) (db_now s) (uuid_next s + 1) (tasks_of s k) (endpoints_of s ids)"
  let ?run = "new_eval_run (uuid_next s) k (db_now s)"
  have items: "ri_eval_run_id r = uuid_next s \<and> refers (ri_task_id r) (map tk_id (tasks s)) \<and>
      refers (ri_model_endpoint_id r) (map me_id (model_endpoints s)) \<and> run_item_columns r"
    if "r \<in> set ?items" for r
  proof -
    have "(ri_task_id r, ri_model_endpoint_id r) \<in> set (map (\<lambda>r. (ri_task_id r, ri_model_endpoint_id r)) ?items)"
      using that by (rule image_eqI [OF refl, THEN list.set_map [THEN equalityD2, THEN subsetD]])
    then have "ri_task_id r \<in> tk_id ` set (tasks s)" "ri_model_endpoint_id r \<in> me_id ` set (model_endpoints s)"
      unfolding run_items_for_pairs by (auto simp: tasks_of_def endpoints_of_def)
    moreover have "ri_eval_run_id r = uuid_next s \<and> run_item_columns r"
      using that by (auto simp: run_items_for_def new_run_item_def run_item_columns_def nullable_def)
    ultimately show ?thesis by (simp add: refers_def)
  qed
  have len: "length ?items = length (tasks_of s k) * length (endpoints_of s ids)"
    using arg_cong [OF run_items_for_ids, of length] by simp
  have full: "schema_step s s'"
    if "fetch ts_id k (task_sets s) = Some ts" "task_sets s' = task_sets s" "tasks s' = tasks s"
      "model_endpoints s' = model_endpoints s"
      "eval_runs s' = eval_runs s @ [?run\<lparr>er_status := st, er_completed_at := c\<rparr>]"
      "run_items s' = run_items s @ items" "grades s' = grades s" "review_items s' = review_items s"
      "api_keys s' = api_keys s" "uuid_next s' = uuid_next s + 1 + length items" "items = ?items \<or> items = []"
    for ts items st c and s' :: sys
  proof (rule schema_append_run [OF _ _ _ _ _ _ that(2-10)])
    show "refers (er_task_set_id (?run\<lparr>er_status := st, er_completed_at := c\<rparr>)) (map ts_id (task_sets s))"
      using fetch_SomeD [OF that(1)] by (auto simp: refers_def new_eval_run_def)
    show "map ri_id items = [uuid_next s + 1..<uuid_next s + 1 + length items]"
      using that(11) by (elim disjE; simp only: len run_items_for_ids list.map upt_conv_Nil list.size add_0_right order_refl)
    show "ri_eval_run_id r = uuid_next s \<and> refers (ri_task_id r) (map tk_id (tasks s)) \<and>
        refers (ri_model_endpoint_id r) (map me_id (model_endpoints s)) \<and> run_item_columns r"
      if "r \<in> set items" for r
      using items \<open>items = ?items \<or> items = []\<close> that by auto
  qed (simp_all add: new_eval_run_def eval_run_columns_def zero_columns)
  show ?thesis
  proof (cases "fetch ts_id k (task_sets s)")
    case None
    then show ?thesis by (simp add: create_eval_run_eq schema_step_refl)
  next
    case (Some ts)
    consider "missing_endpoints s ids \<noteq> []"
      | "missing_endpoints s ids = []" "tasks_of s k = [] \<or> ids = []"
      | "missing_endpoints s ids = []" "\<not> (tasks_of s k = [] \<or> ids = [])" by blast
    then show ?thesis
    proof cases
      case 1
      with Some show ?thesis by (simp add: create_eval_run_eq schema_step_refl)
    next
      case 2
      with Some show ?thesis
        by (intro full [OF Some, where items = "[]" and st = Run_completed and c = "Some (db_now s)"])
           (simp_all add: create_eval_run_eq)
    next
      case 3
      with Some show ?thesis
        by (intro full [OF Some, where items = ?items and st = Run_running and c = None])
           (simp_all add: create_eval_run_eq Let_def new_eval_run_def)
    qed
  qed
qed

text \<open>A write of the catalogue. A colliding key hash is refused, every other insert takes a fresh id.\<close>

lemma schema_catalogue: "schema_step d (catalogue_step h op d)"
proof -
  have "schema_inv (catalogue_step h op d)" if inv: "schema_inv d"
  proof -
    note ok = inv [unfolded schema_inv_def schema_ok_def]
    have drawn: "drawn_ids d" using ok by simp
    note below = drawn_below [OF drawn]
    have fresh: "uuid_next d \<notin> ts_id ` set (task_sets d)" "uuid_next d \<notin> tk_id ` set (tasks d)"
        "uuid_next d \<notin> me_id ` set (model_endpoints d)" "uuid_next d \<notin> ak_id ` set (api_keys d)"
      using below(1-3,8) by (fastforce, fastforce, fastforce, fastforce)
    have grown: "drawn_ids d'" if "set (all_ids d') \<subseteq> insert (uuid_next d) (set (all_ids d))"
        "uuid_next d' = uuid_next d + 1" for d' :: "'a db_scheme"
      using that by (intro drawn_grow [OF drawn]) auto
    show ?thesis
    proof (cases op)
      case (New_task_set p)
      let ?d' = "snd (create_task_set p d)"
      have "drawn_ids ?d'"
        by (rule grown) (auto simp: create_task_set_def Let_def all_ids_def)
      with ok fresh(1) show ?thesis
        by (auto simp: New_task_set catalogue_step_def create_task_set_def Let_def schema_inv_def schema_ok_def
            table_defs list_all_iff refers_def)
    next
      case (New_task k p)
      show ?thesis
      proof (cases "fetch ts_id k (task_sets d)")
        case None
        with inv show ?thesis by (simp add: New_task catalogue_step_def create_task_def)
      next
        case (Some ts)
        let ?d' = "snd (create_task k p d)"
        have "drawn_ids ?d'"
          by (rule grown) (auto simp: create_task_def Some Let_def all_ids_def)
        with ok fresh(2) fetch_SomeD [OF Some] show ?thesis
          by (auto simp: New_task catalogue_step_def create_task_def Some Let_def schema_inv_def schema_ok_def
              table_defs list_all_iff refers_def)
      qed
    next
      case (New_endpoint p)
      let ?d' = "snd (create_model_endpoint p d)"
      have "drawn_ids ?d'"
        by (rule grown) (auto simp: create_model_endpoint_def Let_def all_ids_def)
      with ok fresh(3) show ?thesis
        by (auto simp: New_endpoint catalogue_step_def create_model_endpoint_def Let_def schema_inv_def
            schema_ok_def table_defs list_all_iff refers_def)
    next
      case (New_key salt raw p)
      show ?thesis
      proof (cases "exists_row (\<lambda>r. ak_key_hash r = hash_api_key h salt raw) (api_keys d)")
        case True
        with inv show ?thesis
          by (simp add: New_key catalogue_step_def create_api_key_def insert_api_key_def new_api_key_def Let_def)
      next
        case False
        let ?d' = "snd (create_api_key h salt raw p d)"
        have "drawn_ids ?d'"
          by (rule grown) (use False in \<open>auto simp: create_api_key_def insert_api_key_def new_api_key_def
              Let_def all_ids_def\<close>)
        with ok fresh(4) False show ?thesis
          by (auto simp: New_key catalogue_step_def create_api_key_def insert_api_key_def new_api_key_def Let_def
              schema_inv_def schema_ok_def table_defs exists_row_iff)
      qed
    next
      case (Delete_key k)
      have "drawn_ids (snd (delete_api_key k d))"
        by (rule drawn_grow [OF drawn]) (auto simp: delete_api_key_def all_ids_def split: option.splits)
      with ok show ?thesis
        by (auto simp: Delete_key catalogue_step_def delete_api_key_def schema_inv_def schema_ok_def table_defs
            distinct_map_filter split: option.split)
    qed
  qed
  then show ?thesis by (simp add: schema_step_def catalogue_step_frame)
qed

lemma schema_api: "schema_step s (api_step op s)"
proof (cases op)
  case (Op_create k ids)
  then show ?thesis by (simp add: api_step_def schema_create)
next
  case (Op_cancel k)
  then show ?thesis
    by (simp add: api_step_def cancel_eval_run_def Let_def schema_cancel schema_step_refl split: option.split)
next
  case (Op_replay rid)
  then show ?thesis
    by (simp add: api_step_def replay_run_item_def schema_replay schema_step_refl split: option.split)
next
  case (Op_cancel_late k)
  then show ?thesis by (simp add: api_step_def schema_cancel)
next
  case (Op_replay_late rid k)
  then show ?thesis by (simp add: api_step_def schema_replay)
next
  case (Op_review rop)
  then show ?thesis by (simp add: api_step_def schema_review)
next
  case (Op_catalogue h cop)
  then show ?thesis by (simp add: api_step_def schema_catalogue)
next
  case Op_request_id
  then show ?thesis by (intro schema_frame) (simp_all add: api_step_def)
qed

subsection \<open>The processes\<close>

fun snapshot_of :: "proc \<Rightarrow> snapshot option" where
  "snapshot_of (P_start rid) = None"
| "snapshot_of (P_cancelled sn) = Some sn"
| "snapshot_of (P_aborted sn) = Some sn"
| "snapshot_of (P_try sn _ _) = Some sn"
| "snapshot_of (P_call sn _ _) = Some sn"
| "snapshot_of (P_refused sn _) = Some sn"
| "snapshot_of (P_exhausted sn _) = Some sn"
| "snapshot_of (P_publish sn) = Some sn"
| "snapshot_of (P_check sn _) = Some sn"
| "snapshot_of (P_store sn _) = Some sn"
| "snapshot_of (P_finalize sn _ _) = Some sn"
| "snapshot_of (P_budget sn _) = Some sn"
| "snapshot_of (P_grade sn _) = Some sn"
| "snapshot_of (P_judge sn _ _ _) = Some sn"
| "snapshot_of (P_review sn _ _ _) = Some sn"
| "snapshot_of (P_insert sn _ _ _ _) = Some sn"
| "snapshot_of (P_grade_failed sn _) = Some sn"
| "snapshot_of (P_complete sn _) = Some sn"
| "snapshot_of (P_ending sn _) = Some sn"
| "snapshot_of (P_done _) = None"

definition snapshot_known :: "'a db_scheme \<Rightarrow> snapshot \<Rightarrow> bool" where
  "snapshot_known d sn \<longleftrightarrow> sn_rid sn \<in> set (map ri_id (run_items d)) \<and> decimals 6 (prev_cost sn)"

definition proc_known :: "'a db_scheme \<Rightarrow> proc \<Rightarrow> bool" where
  "proc_known d p \<longleftrightarrow> nullable (snapshot_known d) (snapshot_of p)"

lemma snapshot_kept: "schema_step d d' \<Longrightarrow> snapshot_known d sn \<Longrightarrow> snapshot_known d' sn"
  by (auto simp: schema_step_def snapshot_known_def)

lemma proc_kept: "schema_step d d' \<Longrightarrow> proc_known d p \<Longrightarrow> proc_known d' p"
  by (auto simp: proc_known_def nullable_def dest: snapshot_kept split: option.splits)

lemma load_known:
  assumes "load_item rid d = Some sn" and "schema_inv d"
  shows "snapshot_known d sn"
proof -
  from assms(1) obtain r where r: "fetch ri_id rid (run_items d) = Some r" "sn_item sn = r" "sn_rid sn = rid"
    by (elim load_item_Some)
  then have mem: "r \<in> set (run_items d)" "ri_id r = rid" by (auto dest: fetch_SomeD)
  then have "run_item_columns r"
    using assms(2) by (simp add: schema_inv_def schema_ok_def run_item_table_def list_all_iff)
  then have "decimals 6 (item_cost r)"
    by (cases "ri_cost_usd r") (simp_all add: item_cost_def run_item_columns_def nullable_def numeric_column_def)
  moreover have "rid \<in> set (map ri_id (run_items d))" using mem by force
  ultimately show ?thesis using r by (simp add: snapshot_known_def prev_cost_def)
qed

lemma proc_same_snapshot:
  assumes "proc_step env w p s = (p', s')" and "\<And>rid. p \<noteq> P_start rid"
  shows "snapshot_of p' = snapshot_of p \<or> snapshot_of p' = None"
  using assms
  by (cases p) (auto simp: step_call_def step_finalize_def step_budget_def step_grade_def step_judge_def
      step_insert_def step_complete_def report_end_def Let_def
      split: if_splits prod.splits sum.splits bool.splits exn.splits grading_start.splits)

lemma schema_proc:
  assumes "proc_step env w p s = (p', s')" and "proc_known s p" and "graders_ran env w p"
  shows "schema_step s s'"
proof (cases p)
  case (P_start rid)
  with assms show ?thesis by (auto simp: schema_step_refl)
next
  case (P_call sn a le)
  have "schema_step s (s\<lparr>provider_calls := n, sleeps := ds\<rparr>)" for n ds by (rule schema_frame) simp_all
  with P_call assms(1) schema_sys(5) show ?thesis
    by (auto simp: step_call_def call_provider_def Let_def split: sum.splits exn.splits if_splits)
next
  case (P_store sn c)
  with assms(1) schema_sys(7) show ?thesis by (auto simp: set_artifact_def Let_def)
next
  case (P_finalize sn c akey)
  have dec: "decimals 6 (compute_cost m pt ct - prev_cost sn)" for m pt ct
    using assms(2) by (simp add: P_finalize proc_known_def nullable_def snapshot_known_def decimals_diff decimals_cost)
  have fin: "schema_step s d'" if "finalize_completion sn c akey s = Inr (b, d')" for b d'
    using that dec by (auto simp: finalize_completion_def Let_def intro: schema_finalize decimals_cost)
  from P_finalize assms(1) show ?thesis
    by (auto simp: step_finalize_def schema_step_refl split: sum.splits bool.splits dest: fin)
next
  case (P_budget sn c)
  with assms(1) show ?thesis
    by (auto simp: step_budget_def split: prod.splits if_splits
        intro: schema_step_trans [OF schema_abort schema_sys(1)] schema_abort)
next
  case (P_judge sn c now det)
  obtain k where "snd (run_judge env (we_provider w) (sn_task sn) (cr_text c) s) =
      s\<lparr>provider_calls := provider_calls s + k\<rparr>" using run_judge_frame by blast
  with P_judge assms(1) schema_sys(5) show ?thesis
    by (auto simp: step_judge_def split: prod.splits sum.splits)
next
  case (P_insert sn now det judge already)
  have "sn_rid sn \<in> ri_id ` set (run_items s)"
    using assms(2) by (simp add: P_insert proc_known_def nullable_def snapshot_known_def)
  moreover have "judged env w sn det judge" using assms(3) by (simp add: P_insert)
  ultimately show ?thesis
    using P_insert assms(1) schema_insert judged_columns
    by (fastforce simp: step_insert_def split: prod.splits)
next
  case (P_complete sn rep)
  with assms(1) schema_report [of s sn rep] show ?thesis
    by (auto simp: step_complete_def report_end_def schema_step_refl split: if_splits)
next
  case (P_ending sn rep)
  have "schema_step s (snd (report_end sn rep (complete_updates (sn_run_id sn) s)))"
    by (rule schema_step_trans [OF schema_complete schema_report])
  with P_ending assms(1) show ?thesis by (auto simp: report_end_def)
next
  case (P_publish sn)
  with assms(1) show ?thesis
    by (auto intro: schema_step_trans [OF schema_sys(3) schema_step_trans [OF schema_sys(2) schema_sys(1)]])
qed (use assms(1) in \<open>auto intro!: schema_marks schema_step_refl schema_failed split: if_splits\<close>)

lemma proc_stays_known:
  assumes "proc_step env w p s = (p', s')" and "proc_known s p" and "graders_ran env w p" and "schema_inv s"
  shows "proc_known s' p'"
proof (cases "\<exists>rid. p = P_start rid")
  case True
  then obtain rid where "s' = s" "p' = step_start rid s" using assms(1) by auto
  then show ?thesis
    using load_known [of rid s] assms(4)
    by (auto simp: proc_known_def nullable_def step_start_def split: option.splits)
next
  case False
  then have "snapshot_of p' = snapshot_of p \<or> snapshot_of p' = None"
    by (intro proc_same_snapshot [OF assms(1)]) auto
  moreover have "proc_known s' p" using proc_kept [OF schema_proc [OF assms(1-3)] assms(2)] .
  ultimately show ?thesis by (auto simp: proc_known_def nullable_def)
qed

definition proc_in_order :: "grading_env \<Rightarrow> worker_env \<Rightarrow> 'a db_scheme \<Rightarrow> proc \<Rightarrow> bool" where
  "proc_in_order env w d p \<longleftrightarrow> proc_known d p \<and> graders_ran env w p"

interpretation schema: owned_invariant env w "\<lambda>_. None" schema_inv "proc_in_order env w"
proof
  show "proc_in_order env w s (P_start rid)" for s :: sys and rid
    by (simp add: proc_in_order_def proc_known_def nullable_def)
next
  fix s s' :: sys and p p'
  assume inv: "schema_inv s" "proc_in_order env w s p" and st: "proc_step env w p s = (p', s')"
  then have known: "proc_known s p" "graders_ran env w p" by (simp_all add: proc_in_order_def)
  note step = schema_proc [OF st known]
  have "proc_known s' p'" using proc_stays_known [OF st known inv(1)] .
  moreover have "graders_ran env w p'" using graders_ran_step [OF known(2) st] .
  ultimately show "schema_inv s' \<and> proc_in_order env w s' p' \<and> ((None :: uuid option) = None \<or> (None :: uuid option) = None)"
    using step inv(1) by (simp add: schema_step_def proc_in_order_def)
  fix q assume "proc_in_order env w s q"
  then show "proc_in_order env w s' q" using proc_kept [OF step] by (simp add: proc_in_order_def)
next
  fix s :: sys and op assume "schema_inv s"
  then show "schema_inv (api_step op s)" using schema_api [of s op] by (simp add: schema_step_def)
  fix q assume "proc_in_order env w s q"
  then show "proc_in_order env w (api_step op s) q"
    using proc_kept [OF schema_api] by (simp add: proc_in_order_def)
next
  fix s :: sys and ms
  have step: "schema_step s (s\<lparr>evals_queue := ms\<rparr>)" by (rule schema_frame) simp_all
  then show "schema_inv s \<Longrightarrow> schema_inv (s\<lparr>evals_queue := ms\<rparr>)" by (simp add: schema_step_def)
  show "proc_in_order env w s q \<Longrightarrow> proc_in_order env w (s\<lparr>evals_queue := ms\<rparr>) q" for q
    using proc_kept [OF step] by (simp add: proc_in_order_def)
qed simp_all

text \<open>
  C14. Every reachable database satisfies the schema of the migrations: from a database that does,
  with ids drawn without repetition, all interleavings of workers, crashes, redeliveries and
  requests keep the keys of all eight tables distinct, every reference resolved, the key hashes
  unique, and every amount, score, label and token count within its column and stored exactly. So
  no statement is refused beyond those the model refuses explicitly.
\<close>

theorem reachable_schema:
  assumes "schema_ok s0" and "drawn_ids s0"
    and "reachable policy env w s0 (s, ps)"
  shows "schema_ok s \<and> drawn_ids s"
  using schema.reachable_state [OF reachable_unowned [OF assms(3)]] assms(1,2) by (simp add: schema_inv_def)

definition fx_schema :: sys where
  "fx_schema = fx_sys\<lparr>task_sets := [\<lparr>ts_id = 1, ts_name = ''t'', ts_description = None, ts_created_at = 0\<rparr>]\<rparr>"

theorem reachable_schema_witness:
  "schema_ok (fst (fold (perform (\<lambda>_ _. True) fx_env
     (fx_worker (fx_provider ''V''))) fx_overlap (fx_schema, [])))"
proof -
  let ?W = "fold (perform (\<lambda>_ _. True) fx_env
     (fx_worker (fx_provider ''V''))) fx_overlap (fx_schema, [])"
  have "reachable (\<lambda>_ _. True) fx_env
      (fx_worker (fx_provider ''V'')) fx_schema (fst ?W, snd ?W)"
    using perform_reachable [OF reachable.start] by (simp add: fx_worker_def)
  moreover have "schema_ok fx_schema"
    by (simp add: schema_ok_def table_defs fx_schema_def fx_sys_def fx_task_def fx_endpoint_def fx_run_def
        fx_item_def refers_def eval_run_columns_def run_item_columns_def nullable_def zero_columns)
  moreover have "drawn_ids fx_schema"
    by (simp add: drawn_ids_def all_ids_def fx_schema_def fx_sys_def fx_task_def fx_endpoint_def fx_run_def
        fx_item_def)
  ultimately show ?thesis using reachable_schema by blast
qed

end
