(* ===== verification/World_Tables.thy ===== *)
theory World_Tables
  imports World_Schema
begin

text \<open>
  The rows in every reachable world: whatever is delivered when, grades and labels are in range,
  review items are in order and a succeeded item has a cost. And the two uniqueness promises on which
  the leaderboard's joins rest: while no message is delivered before the previous delivery of it is
  finished, an item has at most one grade per grader and one review item.
\<close>

subsection \<open>The rows\<close>

definition rows_inv :: "'a db_scheme \<Rightarrow> bool" where
  "rows_inv d \<longleftrightarrow> list_all grade_ok (grades d) \<and> list_all (review_row_ok (db_now d)) (review_items d) \<and>
     list_all (\<lambda>r. ri_status r = Item_succeeded \<longrightarrow> ri_cost_usd r \<noteq> None) (run_items d)"

definition tables_inv :: "'a db_scheme \<Rightarrow> bool" where
  "tables_inv d \<longleftrightarrow> rows_inv d \<and> grades_unique d \<and> reviews_unique d"

definition keeps_rows :: "'a db_scheme \<Rightarrow> 'a db_scheme \<Rightarrow> bool" where
  "keeps_rows d d' \<longleftrightarrow> (rows_inv d \<longrightarrow> rows_inv d')"

lemma keeps_rows_refl: "keeps_rows d d"
  by (simp add: keeps_rows_def)

lemma keeps_rows_trans: "keeps_rows a b \<Longrightarrow> keeps_rows b c \<Longrightarrow> keeps_rows a c"
  by (simp add: keeps_rows_def)

lemma keeps_rows_frame:
  assumes "run_items d' = run_items d" "grades d' = grades d" "review_items d' = review_items d"
    and "db_now d' = db_now d"
  shows "keeps_rows d d'"
  using assms by (simp add: keeps_rows_def rows_inv_def)

text \<open>An item update that leaves succeeded only with a cost.\<close>

lemma keeps_rows_items:
  assumes "\<And>r. p r \<Longrightarrow> ri_status (f r) = Item_succeeded \<Longrightarrow> ri_cost_usd (f r) \<noteq> None"
  shows "keeps_rows d (run_items_update (sql_update p f) d)"
  using assms
  by (auto simp: keeps_rows_def rows_inv_def list_all_iff set_sql_update)

lemma keeps_rows_runs: "keeps_rows d (eval_runs_update h d)"
  by (rule keeps_rows_frame) simp_all

lemma keeps_rows_marks:
  "keeps_rows d (mark_running rid d)" "keeps_rows d (mark_failed rid err d)"
  "keeps_rows d (mark_dead_lettered rid err d)" "keeps_rows d (mark_cancelled rid d)"
  unfolding mark_defs by (rule keeps_rows_items; simp)+

lemma keeps_rows_complete: "keeps_rows d (complete_updates k d)"
  by (rule keeps_rows_frame) (simp_all add: complete_updates_def Let_def)

lemma keeps_rows_abort: "abort_over_budget k l t d = (b, d') \<Longrightarrow> keeps_rows d d'"
  unfolding abort_over_budget_def Let_def
  by (auto split: if_splits intro!: keeps_rows_trans [OF keeps_rows_runs keeps_rows_items]
      keeps_rows_runs)

lemma keeps_rows_sys:
  "keeps_rows s (inc_eval_items st m s)" "keeps_rows s (inc_dead_letters s)"
  "keeps_rows s (publish_dead_letter rid s)" "keeps_rows s (enqueue_run_item rid s)"
  by (rule keeps_rows_frame; simp add: inc_eval_items_def inc_dead_letters_def publish_dead_letter_def
      enqueue_run_item_def Let_def)+

lemma keeps_rows_failed: "keeps_rows s s' \<Longrightarrow> keeps_rows s (count_failed sn s')"
  unfolding count_failed_def by (rule keeps_rows_trans [OF _ keeps_rows_sys(1)])

lemma keeps_rows_finalize:
  assumes "finalize_item rid k lat pt ct cost akey dc dt d = Inr (b, d')"
  shows "keeps_rows d d'"
  using assms
proof (cases "rowcount (\<lambda>r. ri_id r = rid \<and> ri_status r = Item_running) (run_items d) = 0")
  case True
  with assms show ?thesis
    by (auto simp: finalize_item_def Let_def keeps_rows_refl split: if_splits)
next
  case False
  have step: "keeps_rows d (eval_runs_update h (run_items_update (sql_update p
      (\<lambda>r. r\<lparr>ri_status := Item_succeeded, ri_latency_ms := Some lat, ri_prompt_tokens := Some pt,
        ri_completion_tokens := Some ct, ri_cost_usd := Some cost, ri_error := None,
        ri_artifact_key := Some akey, ri_updated_at := db_now d\<rparr>)) d))" for h p
    by (rule keeps_rows_trans [OF keeps_rows_items keeps_rows_runs]) simp
  show ?thesis
    using assms False step by (auto simp: finalize_item_def Let_def split: if_splits)
qed

lemma keeps_rows_report: "keeps_rows s (snd (report_end sn rep s))"
  by (simp add: report_end_def keeps_rows_refl keeps_rows_sys)

lemma keeps_rows_insert:
  assumes "judged env w sn det judge" and "grading_commit env now rid det judge already s = (rows, s')"
  shows "keeps_rows s s'"
proof -
  have "list_all (review_row_ok (db_now s)) (review_items (insert_review now rid v already s))"
    if "list_all (review_row_ok (db_now s)) (review_items s)" for v
    using that by (auto simp: insert_review_def new_review_item_def review_row_ok_def split: option.split)
  then show ?thesis
    using assms judged_rows_ok [OF assms(1)]
    by (auto simp: keeps_rows_def rows_inv_def grading_commit_def Let_def insert_review_frame)
qed

lemma keeps_rows_proc:
  assumes "proc_step env w p s = (p', s')" and "graders_ran env w p"
  shows "keeps_rows s s'"
proof (cases p)
  case (P_start rid)
  with assms show ?thesis by (auto simp: keeps_rows_refl)
next
  case (P_call sn a le)
  have "keeps_rows s (s\<lparr>provider_calls := n\<rparr>)" "keeps_rows s (s\<lparr>provider_calls := n, sleeps := ds\<rparr>)"
    for n ds by (rule keeps_rows_frame; simp)+
  with P_call assms show ?thesis
    by (auto simp: step_call_def call_provider_def Let_def split: sum.splits exn.splits if_splits)
next
  case (P_store sn c)
  have "keeps_rows s (s\<lparr>redis := h\<rparr>)" for h by (rule keeps_rows_frame) simp_all
  with P_store assms show ?thesis by (auto simp: set_artifact_def Let_def)
next
  case (P_finalize sn c akey)
  with assms show ?thesis
    by (auto simp: step_finalize_def finalize_completion_def Let_def keeps_rows_refl
        split: sum.splits bool.splits dest: keeps_rows_finalize)
next
  case (P_budget sn c)
  with assms show ?thesis
    by (auto simp: step_budget_def split: prod.splits if_splits
        intro: keeps_rows_trans [OF keeps_rows_abort keeps_rows_sys(1)] keeps_rows_abort)
next
  case (P_judge sn c now det)
  obtain k where "snd (run_judge env (we_provider w) (sn_task sn) (cr_text c) s) =
      s\<lparr>provider_calls := provider_calls s + k\<rparr>" using run_judge_frame by blast
  with P_judge assms show ?thesis
    by (auto simp: step_judge_def intro!: keeps_rows_frame split: prod.splits sum.splits)
next
  case (P_insert sn now det judge already)
  with assms show ?thesis
    by (auto simp: step_insert_def dest: keeps_rows_insert split: prod.splits)
next
  case (P_complete sn rep)
  with assms keeps_rows_report [of s sn rep] show ?thesis
    by (auto simp: step_complete_def report_end_def keeps_rows_refl split: if_splits)
next
  case (P_ending sn rep)
  have "keeps_rows s (snd (report_end sn rep (complete_updates (sn_run_id sn) s)))"
    by (rule keeps_rows_trans [OF keeps_rows_complete keeps_rows_report])
  with P_ending assms show ?thesis by (auto simp: report_end_def)
next
  case (P_publish sn)
  with assms show ?thesis
    by (auto intro: keeps_rows_trans [OF keeps_rows_sys(3)
          keeps_rows_trans [OF keeps_rows_sys(2) keeps_rows_sys(1)]])
qed (use assms in \<open>auto intro!: keeps_rows_marks keeps_rows_refl keeps_rows_failed split: if_splits\<close>)

text \<open>The API.\<close>

lemma keeps_rows_review: "keeps_rows d (review_step op d)"
proof -
  have "run_items (review_step op d) = run_items d" "grades (review_step op d) = grades d"
    by (cases rule: review_step_cases [of op d]; simp)+
  then show ?thesis
    using review_step_rows [of d op] by (simp add: keeps_rows_def rows_inv_def)
qed

lemma keeps_rows_create: "keeps_rows s (snd (create_eval_run k ids s))"
proof -
  have new: "ri_status r \<noteq> Item_succeeded" if "r \<in> set (run_items_for run now i ts eps)" for r run now i ts eps
    using run_items_for_fresh [of run now i ts eps] that by (auto simp: list_all_iff)
  show ?thesis
    unfolding create_eval_run_eq Let_def
    using new by (auto simp: keeps_rows_def rows_inv_def list_all_iff split: option.split)
qed

lemma keeps_rows_cancel: "keeps_rows d (cancel_updates k d)"
  unfolding cancel_updates_def by (rule keeps_rows_trans [OF keeps_rows_runs keeps_rows_items]) simp

lemma keeps_rows_replay: "keeps_rows s (enqueue_run_item rid (replay_updates rid k s))"
  unfolding replay_updates_def
  by (rule keeps_rows_trans [OF keeps_rows_trans [OF keeps_rows_items keeps_rows_runs]
        keeps_rows_sys(4)]) simp

lemma keeps_rows_api: "keeps_rows s (api_step op s)"
proof (cases op)
  case (Op_create k ids)
  then show ?thesis by (simp add: api_step_def keeps_rows_create)
next
  case (Op_cancel k)
  then show ?thesis
    by (simp add: api_step_def cancel_eval_run_def Let_def keeps_rows_cancel keeps_rows_refl split: option.split)
next
  case (Op_replay rid)
  then show ?thesis
    by (simp add: api_step_def replay_run_item_def keeps_rows_replay keeps_rows_refl split: option.split)
next
  case (Op_catalogue h cop)
  then show ?thesis
    by (intro keeps_rows_frame) (simp_all add: api_step_def catalogue_step_frame)
next
  case Op_request_id
  then show ?thesis by (intro keeps_rows_frame) (simp_all add: api_step_def)
qed (simp_all add: api_step_def keeps_rows_cancel keeps_rows_replay keeps_rows_review)

subsection \<open>Settled items\<close>

text \<open>An item that has succeeded or failed is not executed again; items with grades are settled.\<close>

definition settled :: "uuid \<Rightarrow> 'a db_scheme \<Rightarrow> bool" where
  "settled rid d \<longleftrightarrow>
     (case fetch ri_id rid (run_items d) of None \<Rightarrow> False
      | Some r \<Rightarrow> ri_status r \<in> {Item_succeeded, Item_failed})"

lemma settled_sql_update:
  assumes "settled rid d" and "run_items d' = sql_update p f (run_items d)" and "\<And>r. ri_id (f r) = ri_id r"
    and "\<And>r. ri_id r = rid \<Longrightarrow> p r \<Longrightarrow> ri_status r \<in> {Item_succeeded, Item_failed} \<Longrightarrow>
      ri_status (f r) \<in> {Item_succeeded, Item_failed}"
  shows "settled rid d'"
proof -
  from assms(1) obtain r where r: "fetch ri_id rid (run_items d) = Some r"
      "ri_status r \<in> {Item_succeeded, Item_failed}" by (auto simp: settled_def split: option.splits)
  then have "ri_id r = rid" by (auto dest: fetch_SomeD)
  with r assms(4) show ?thesis
    by (simp add: settled_def assms(2) fetch_sql_update [where pk = ri_id, OF assms(3)])
qed

definition graded :: "uuid \<Rightarrow> 'a db_scheme \<Rightarrow> bool" where
  "graded rid d \<longleftrightarrow> rid \<in> set (map gr_run_item_id (grades d))"

definition graded_settled :: "'a db_scheme \<Rightarrow> bool" where
  "graded_settled d \<longleftrightarrow> list_all (\<lambda>g. settled (gr_run_item_id g) d) (grades d)"

definition unique_inv :: "'a db_scheme \<Rightarrow> bool" where
  "unique_inv d \<longleftrightarrow> grades_unique d \<and> reviews_unique d \<and> graded_settled d"

lemma graded_settled_iff: "graded_settled d \<longleftrightarrow> (\<forall>rid. graded rid d \<longrightarrow> settled rid d)"
  by (auto simp: graded_settled_def graded_def list_all_iff)

text \<open>A step that inserts nothing and unsettles at most the item it owns.\<close>

definition stays :: "uuid option \<Rightarrow> 'a db_scheme \<Rightarrow> 'a db_scheme \<Rightarrow> bool" where
  "stays own d d' \<longleftrightarrow> grades d' = grades d \<and>
     map rv_run_item_id (review_items d') = map rv_run_item_id (review_items d) \<and>
     (\<forall>rid. settled rid d \<longrightarrow> own \<noteq> Some rid \<longrightarrow> settled rid d')"

lemma stays_refl: "stays own d d"
  by (simp add: stays_def)

lemma stays_trans: "stays own a b \<Longrightarrow> stays own b c \<Longrightarrow> stays own a c"
  by (simp add: stays_def)

lemma stays_graded: "stays own d d' \<Longrightarrow> graded rid d' = graded rid d"
  by (simp add: stays_def graded_def)

lemma review_exists_keys: "review_exists rid d \<longleftrightarrow> rid \<in> set (map rv_run_item_id (review_items d))"
  by (auto simp: review_exists_def exists_row_iff)

lemma stays_review: "stays own d d' \<Longrightarrow> review_exists rid d' = review_exists rid d"
  by (simp add: stays_def review_exists_keys)

lemma stays_settled: "stays own d d' \<Longrightarrow> settled rid d \<Longrightarrow> own \<noteq> Some rid \<Longrightarrow> settled rid d'"
  by (simp add: stays_def)

lemma stays_unique:
  assumes "stays own d d'" and "unique_inv d" and "\<And>rid. own = Some rid \<Longrightarrow> \<not> graded rid d"
  shows "unique_inv d'"
proof -
  have same: "graded rid d' = graded rid d" for rid using assms(1) by (rule stays_graded)
  have "settled rid d'" if "graded rid d" for rid
  proof (rule stays_settled [OF assms(1)])
    show "settled rid d" using assms(2) that by (simp add: unique_inv_def graded_settled_iff)
    show "own \<noteq> Some rid" using assms(3) that by blast
  qed
  then have "graded_settled d'"
    by (simp add: graded_settled_iff same)
  with assms(1,2) show ?thesis
    by (simp add: unique_inv_def grades_unique_def reviews_unique_def stays_def)
qed

lemma stays_frame:
  assumes "run_items d' = run_items d" "grades d' = grades d" "review_items d' = review_items d"
  shows "stays own d d'"
  using assms by (simp add: stays_def settled_def)

lemma stays_items_update:
  assumes "\<And>r. ri_id (f r) = ri_id r"
    and "\<And>r. p r \<Longrightarrow> ri_status r \<in> {Item_succeeded, Item_failed} \<Longrightarrow> own \<noteq> Some (ri_id r) \<Longrightarrow>
      ri_status (f r) \<in> {Item_succeeded, Item_failed}"
  shows "stays own d (run_items_update (sql_update p f) d)"
  using settled_sql_update [of _ d "run_items_update (sql_update p f) d" p f] assms by (simp add: stays_def)

lemma stays_runs: "stays own d (eval_runs_update h d)"
  by (rule stays_frame) simp_all

lemma stays_marks:
  "stays (Some rid) d (mark_running rid d)" "stays (Some rid) d (mark_dead_lettered rid err d)"
  "stays None d (mark_failed rid err d)" "stays None d (mark_cancelled rid d)"
  unfolding mark_defs by (rule stays_items_update; simp)+

lemma stays_abort: "abort_over_budget k l t d = (b, d') \<Longrightarrow> stays None d d'"
  unfolding abort_over_budget_def Let_def
  by (auto split: if_splits intro!: stays_trans [OF stays_runs stays_items_update] stays_runs)

lemma stays_sys:
  "stays own s (inc_eval_items st m s)" "stays own s (inc_dead_letters s)"
  "stays own s (publish_dead_letter rid s)" "stays own s (enqueue_run_item rid s)"
  "stays own s (s\<lparr>provider_calls := n\<rparr>)" "stays own s (s\<lparr>provider_calls := n, sleeps := ds\<rparr>)"
  "stays own s (s\<lparr>redis := h\<rparr>)" "stays own s (s\<lparr>uuid_next := m'\<rparr>)"
  by (rule stays_frame; simp add: inc_eval_items_def inc_dead_letters_def publish_dead_letter_def
      enqueue_run_item_def Let_def)+

lemma stays_count: "stays own s s' \<Longrightarrow> stays own s (count_failed sn s')"
  unfolding count_failed_def by (rule stays_trans [OF _ stays_sys(1)])

lemma stays_complete: "stays own d (complete_updates k d)"
  by (rule stays_frame) (simp_all add: complete_updates_def Let_def)

lemma stays_report: "stays own s (snd (report_end sn rep s))"
  by (simp add: report_end_def stays_refl stays_sys)

lemma finalize_settles:
  assumes "finalize_item rid k lat pt ct cost akey dc dt d = Inr (b, d')"
    and "distinct (map ri_id (run_items d))"
  shows "stays None d d'" and "b \<Longrightarrow> settled rid d'"
proof -
  show "stays None d d'"
    using assms(1)
  proof (cases rule: finalize_item_cases)
    case skipped
    then show ?thesis by (simp add: stays_refl)
  next
    case written
    then show ?thesis using settled_sql_update [OF _ written(7)] by (simp add: stays_def)
  qed
  assume b
  with assms(1) show "settled rid d'"
  proof (cases rule: finalize_item_cases)
    case written
    then show ?thesis
      using rowcount_rid [OF assms(2), of rid "\<lambda>r. ri_status r = Item_running"]
      by (auto simp: settled_def fetch_sql_update dest: fetch_SomeD)
  qed simp
qed

subsection \<open>The processes\<close>

text \<open>What a process that has not committed its grades knows about its item.\<close>

fun ungraded :: "'a db_scheme \<Rightarrow> proc \<Rightarrow> bool" where
  "ungraded d (P_try sn _ _) \<longleftrightarrow> \<not> graded (sn_rid sn) d"
| "ungraded d (P_call sn _ _) \<longleftrightarrow> \<not> graded (sn_rid sn) d"
| "ungraded d (P_exhausted sn _) \<longleftrightarrow> \<not> graded (sn_rid sn) d"
| "ungraded d (P_check sn _) \<longleftrightarrow> \<not> graded (sn_rid sn) d"
| "ungraded d (P_store sn _) \<longleftrightarrow> \<not> graded (sn_rid sn) d"
| "ungraded d (P_finalize sn _ _) \<longleftrightarrow> \<not> graded (sn_rid sn) d"
| "ungraded d (P_budget sn _) \<longleftrightarrow> \<not> graded (sn_rid sn) d \<and> settled (sn_rid sn) d"
| "ungraded d (P_grade sn _) \<longleftrightarrow> \<not> graded (sn_rid sn) d \<and> settled (sn_rid sn) d"
| "ungraded d (P_judge sn _ _ _) \<longleftrightarrow> \<not> graded (sn_rid sn) d \<and> settled (sn_rid sn) d"
| "ungraded d (P_review sn _ _ _) \<longleftrightarrow> \<not> graded (sn_rid sn) d \<and> settled (sn_rid sn) d"
| "ungraded d (P_insert sn _ _ _ already) \<longleftrightarrow> \<not> graded (sn_rid sn) d \<and> settled (sn_rid sn) d \<and>
     (already \<or> \<not> review_exists (sn_rid sn) d)"
| "ungraded d _ \<longleftrightarrow> True"

text \<open>What one process does to what another knows about another item.\<close>

definition leaves :: "uuid option \<Rightarrow> 'a db_scheme \<Rightarrow> 'a db_scheme \<Rightarrow> bool" where
  "leaves own d d' \<longleftrightarrow> (\<forall>rid. own \<noteq> Some rid \<longrightarrow>
     graded rid d' = graded rid d \<and> (settled rid d \<longrightarrow> settled rid d') \<and>
     review_exists rid d' = review_exists rid d)"

lemma stays_leaves: "stays own d d' \<Longrightarrow> leaves own d d'"
  by (simp add: leaves_def stays_graded stays_review stays_settled)

lemma stays_weaken: "stays None d d' \<Longrightarrow> stays own d d'"
  by (simp add: stays_def)

lemma ungraded_kept:
  assumes "leaves own d d'" and "ungraded d q" and "handled_rid q \<noteq> own \<or> own = None"
  shows "ungraded d' q"
  using assms by (cases q) (auto simp: leaves_def)

definition unique_step :: "sys \<Rightarrow> proc \<Rightarrow> proc \<Rightarrow> sys \<Rightarrow> bool" where
  "unique_step s p p' s' \<longleftrightarrow> unique_inv s' \<and> ungraded s' p' \<and> leaves (handled_rid p) s s' \<and>
     (handled_rid p' = None \<or> handled_rid p' = handled_rid p)"

lemma stays_step:
  assumes "stays None s s'" and "unique_inv s" and "ungraded s' p'"
    and "handled_rid p' = None \<or> handled_rid p' = handled_rid p"
  shows "unique_step s p p' s'"
  using assms stays_unique [OF assms(1,2)] stays_leaves [OF stays_weaken [OF assms(1)]]
  by (simp add: unique_step_def)

lemma own_step:
  assumes "stays (Some rid) s s'" and "unique_inv s" and "\<not> graded rid s" and "ungraded s' p'"
    and "handled_rid p = Some rid" and "handled_rid p' = None \<or> handled_rid p' = Some rid"
  shows "unique_step s p p' s'"
  using assms stays_unique [OF assms(1,2)] stays_leaves [OF assms(1)] by (simp add: unique_step_def)

lemma insert_step:
  assumes "grading_commit env now rid det judge already s = (rows, s')" and "unique_inv s"
    and "\<not> graded rid s" and "settled rid s" and "already \<or> \<not> review_exists rid s"
  shows "unique_inv s' \<and> leaves (Some rid) s s'"
proof -
  let ?r = "insert_review now rid (review_wanted (ge_settings env) det judge) already s"
  have grades: "grades s' = grades s @ grade_rows (uuid_next s) now rid det judge"
    and reviews: "review_items s' = review_items ?r" and items: "run_items s' = run_items s"
    using assms(1) by (auto simp: grading_commit_def Let_def insert_review_frame)
  have keys: "map rv_run_item_id (review_items ?r) = map rv_run_item_id (review_items s) \<or>
      \<not> already \<and> map rv_run_item_id (review_items ?r) = map rv_run_item_id (review_items s) @ [rid]"
    by (cases "review_wanted (ge_settings env) det judge") (auto simp: insert_review_def new_review_item_def)
  have rows: "gr_run_item_id g = rid" if "g \<in> set (grade_rows (uuid_next s) now rid det judge)" for g
    using that by (rule grade_rows_run_item)
  have settled: "settled i s' = settled i s" for i by (simp add: settled_def items)
  have "grades_unique s'"
    using assms(2,3) grade_rows_distinct [of "uuid_next s" now rid det judge]
    by (auto simp: grades unique_inv_def grades_unique_def graded_def) (metis imageI rows)
  moreover have "reviews_unique s'"
    using assms(2,5) keys by (auto simp: reviews unique_inv_def reviews_unique_def review_exists_keys)
  moreover have "graded_settled s'"
    using assms(2,4) by (auto simp: graded_settled_def settled grades unique_inv_def list_all_iff dest: rows)
  moreover have "leaves (Some rid) s s'"
  proof -
    have "graded i s' = graded i s" if "i \<noteq> rid" for i
      using that rows by (auto simp: graded_def grades)
    moreover have "review_exists i s' = review_exists i s" if "i \<noteq> rid" for i
      using that keys unfolding review_exists_keys reviews by (elim disjE conjE) (simp_all del: set_map)
    ultimately show ?thesis by (simp add: leaves_def settled)
  qed
  ultimately show ?thesis by (simp add: unique_inv_def)
qed

text \<open>Only an item that is not settled is executed, so a process that starts one finds no grades.\<close>

lemma start_ungraded:
  assumes "unique_inv s"
  shows "ungraded s (step_start rid s)"
proof (cases "load_item rid s")
  case None
  then show ?thesis by (simp add: step_start_def)
next
  case (Some sn)
  then have "fetch ri_id (sn_rid sn) (run_items s) = Some (sn_item sn)" by (auto elim!: load_item_Some)
  then have "\<not> graded (sn_rid sn) s" if "ri_status (sn_item sn) \<in> {Item_queued, Item_dead_lettered}"
    using that assms by (auto simp: unique_inv_def graded_settled_iff settled_def)
  then show ?thesis by (simp add: step_start_def Some)
qed

lemma unique_proc:
  assumes st: "proc_step env w p s = (p', s')" and inv: "unique_inv s" and known: "ungraded s p"
    and dist: "distinct (map ri_id (run_items s))"
  shows "unique_step s p p' s'"
proof (cases p)
  case (P_start rid)
  then have "p' = step_start rid s" "s' = s" using st by auto
  moreover have "handled_rid (step_start rid s) \<in> {None, Some rid}"
    by (auto simp: step_start_def dest: load_item_row(3) split: option.split)
  ultimately show ?thesis
    using start_ungraded [OF inv, of rid] by (intro stays_step [OF _ inv]) (auto simp: P_start stays_refl)
next
  case (P_try sn a m)
  show ?thesis
  proof (cases "a \<le> max_attempts (we_retry w)")
    case True
    then have new: "p' = P_call sn a m" "s' = mark_running (sn_rid sn) s" using st P_try by auto
    have "stays (Some (sn_rid sn)) s s'" unfolding new(2) by (rule stays_marks)
    moreover from this have "ungraded s' p'" using known P_try by (simp add: new(1) stays_graded)
    ultimately show ?thesis using known P_try by (intro own_step [OF _ inv]) (simp_all add: new(1))
  next
    case False
    then show ?thesis using st known P_try by (intro stays_step [OF _ inv]) (auto simp: stays_refl)
  qed
next
  case (P_call sn a m)
  have same: "stays None s s'"
    using st P_call stays_sys(5,6) by (auto simp: step_call_def call_provider_def Let_def
        split: sum.splits exn.splits if_splits)
  have "(\<exists>a' m'. p' = P_try sn a' m') \<or> (\<exists>c. p' = P_check sn c) \<or> (\<exists>m'. p' = P_refused sn m') \<or>
      (\<exists>r. p' = P_done r)"
    using st P_call by (auto simp: step_call_def Let_def split: sum.splits prod.splits exn.splits)
  moreover have "\<not> graded (sn_rid sn) s'" using known P_call by (simp add: stays_graded [OF same])
  ultimately show ?thesis by (intro stays_step [OF same inv]) (auto simp: P_call)
next
  case (P_exhausted sn m)
  then have new: "p' = P_publish sn" and s': "s' = mark_dead_lettered (sn_rid sn)
      (''exhausted '' @ show_int (max_attempts (we_retry w)) @ '' attempts: '' @ m) s" using st by auto
  have "stays (Some (sn_rid sn)) s s'" unfolding s' by (rule stays_marks)
  then show ?thesis using known P_exhausted by (intro own_step [OF _ inv]) (simp_all add: new)
next
  case (P_publish sn)
  have "stays None s s'"
    using st P_publish by (auto intro: stays_trans [OF stays_sys(3) stays_trans [OF stays_sys(2) stays_sys(1)]])
  then show ?thesis using st P_publish by (intro stays_step [OF _ inv]) auto
next
  case (P_store sn c)
  have same: "stays None s s'" using st P_store by (auto simp: set_artifact_def Let_def stays_sys)
  show ?thesis
    using st known P_store stays_graded [OF same]
    by (intro stays_step [OF same inv]) (auto simp: set_artifact_def Let_def)
next
  case (P_finalize sn c akey)
  show ?thesis
  proof (cases "finalize_completion sn c akey s")
    case (Inl e)
    then show ?thesis using st P_finalize by (intro stays_step [OF _ inv]) (auto simp: step_finalize_def stays_refl)
  next
    case (Inr bd)
    obtain b d where bd: "bd = (b, d)" by fastforce
    note fin = finalize_settles [OF Inr [unfolded bd finalize_completion_def Let_def] dist]
    have new: "s' = d" "p' = (if b then P_budget sn c else P_done (Inr (report_of ''skipped'' ''already-finalized'')))"
      using st by (auto simp: P_finalize step_finalize_def Inr bd split: bool.splits)
    have "stays None s s'" unfolding new(1) by (rule fin(1))
    moreover from this have "ungraded s' p'"
      using known P_finalize fin(2) by (simp add: new stays_graded)
    ultimately show ?thesis using P_finalize by (intro stays_step [OF _ inv]) (simp_all add: new)
  qed
next
  case (P_budget sn c)
  obtain b d where ab: "abort_over_budget (sn_run_id sn) (we_spend_limit w) (we_spend_text w) s = (b, d)"
    by fastforce
  have same: "stays None s s'"
    using st stays_abort [OF ab]
    by (auto simp: P_budget step_budget_def ab intro: stays_trans [OF _ stays_sys(1)] split: if_splits)
  show ?thesis
    using st known P_budget stays_graded [OF same] stays_settled [OF same]
    by (intro stays_step [OF same inv]) (auto simp: step_budget_def ab split: if_splits)
next
  case (P_grade sn c)
  then show ?thesis
    using st known by (intro stays_step [OF _ inv]) (auto simp: step_grade_def stays_refl split: grading_start.splits)
next
  case (P_judge sn c now det)
  obtain k where "snd (run_judge env (we_provider w) (sn_task sn) (cr_text c) s) =
      s\<lparr>provider_calls := provider_calls s + k\<rparr>" using run_judge_frame by blast
  then have same: "stays None s s'"
    using st P_judge stays_sys(5) by (auto simp: step_judge_def split: prod.splits sum.splits)
  show ?thesis
    using st known P_judge stays_graded [OF same] stays_settled [OF same]
    by (intro stays_step [OF same inv]) (auto simp: step_judge_def split: prod.splits sum.splits)
next
  case (P_insert sn now det judge already)
  obtain rows d where commit: "grading_commit env now (sn_rid sn) det judge already s = (rows, d)" by fastforce
  then have new: "s' = d" "p' = P_complete sn rep_succeeded" using st by (simp_all add: P_insert step_insert_def)
  have "unique_inv d \<and> leaves (Some (sn_rid sn)) s d"
    using known P_insert by (intro insert_step [OF commit inv]) simp_all
  then show ?thesis by (simp add: unique_step_def new P_insert)
next
  case (P_complete sn rep)
  have "stays None s s'"
    using st stays_report [of None s sn rep]
    by (auto simp: P_complete step_complete_def report_end_def stays_refl split: if_splits)
  then show ?thesis
    using st P_complete by (intro stays_step [OF _ inv]) (auto simp: step_complete_def report_end_def split: if_splits)
next
  case (P_ending sn rep)
  have "stays None s (snd (report_end sn rep (complete_updates (sn_run_id sn) s)))"
    by (rule stays_trans [OF stays_complete stays_report])
  then show ?thesis using st P_ending by (intro stays_step [OF _ inv]) (auto simp: report_end_def)
qed ((rule stays_step [OF _ inv]; use st known in \<open>auto intro!: stays_count stays_marks stays_refl
    split: if_splits\<close>)+)

subsection \<open>The requests\<close>

lemma stays_create: "stays None s (snd (create_eval_run k ids s))"
proof -
  have "\<exists>items. run_items (snd (create_eval_run k ids s)) = run_items s @ items"
    unfolding create_eval_run_eq Let_def by (auto split: option.split)
  then have "settled rid (snd (create_eval_run k ids s))" if "settled rid s" for rid
    using that by (auto simp: settled_def fetch_append split: option.splits)
  moreover have "grades (snd (create_eval_run k ids s)) = grades s"
    "review_items (snd (create_eval_run k ids s)) = review_items s"
    unfolding create_eval_run_eq Let_def by (auto split: option.split)
  ultimately show ?thesis by (simp add: stays_def)
qed

lemma stays_cancel: "stays None d (cancel_updates k d)"
  unfolding cancel_updates_def by (rule stays_trans [OF stays_runs stays_items_update]) simp_all

lemma stays_replay: "stays None s (enqueue_run_item rid (replay_updates rid k s))"
  unfolding replay_updates_def
  by (rule stays_trans [OF stays_trans [OF stays_items_update stays_runs] stays_sys(4)]) simp_all

lemma stays_review_step: "stays None d (review_step op d)"
proof -
  have "run_items (review_step op d) = run_items d" "grades (review_step op d) = grades d"
    by (cases rule: review_step_cases [of op d]; simp)+
  then show ?thesis by (simp add: stays_def settled_def review_step_keys)
qed

lemma stays_api: "stays None s (api_step op s)"
proof (cases op)
  case (Op_cancel k)
  then show ?thesis
    by (simp add: api_step_def cancel_eval_run_def Let_def stays_cancel stays_refl split: option.split)
next
  case (Op_replay rid)
  then show ?thesis
    by (simp add: api_step_def replay_run_item_def stays_replay stays_refl split: option.split)
next
  case (Op_catalogue h cop)
  then show ?thesis by (intro stays_frame) (simp_all add: api_step_def catalogue_step_frame)
qed (simp_all add: api_step_def stays_create stays_cancel stays_replay stays_review_step stays_sys)

subsection \<open>Worlds\<close>

definition tables_ok :: "'a db_scheme \<Rightarrow> bool" where
  "tables_ok d \<longleftrightarrow> schema_inv d \<and> rows_inv d \<and> unique_inv d"

definition proc_ok :: "grading_env \<Rightarrow> worker_env \<Rightarrow> 'a db_scheme \<Rightarrow> proc \<Rightarrow> bool" where
  "proc_ok env w d p \<longleftrightarrow> proc_in_order env w d p \<and> ungraded d p"

lemma schema_inv_items: "schema_inv d \<Longrightarrow> distinct (map ri_id (run_items d))"
  by (simp add: schema_inv_def schema_ok_def run_item_table_def)

interpretation tables: owned_invariant env w handled_rid tables_ok "proc_ok env w"
proof
  show "handled_rid (P_start rid) = None \<or> handled_rid (P_start rid) = Some rid" for rid by simp
  show "proc_ok env w s (P_start rid)" for s :: sys and rid
    using schema.start by (simp add: proc_ok_def)
next
  fix s s' :: sys and p p'
  assume ok: "tables_ok s" "proc_ok env w s p" and st: "proc_step env w p s = (p', s')"
  then have inv: "schema_inv s" "unique_inv s" "rows_inv s" and known: "proc_in_order env w s p" "ungraded s p"
    by (simp_all add: tables_ok_def proc_ok_def)
  have sch: "schema_inv s'" "proc_in_order env w s' p'"
    using schema.own [OF inv(1) known(1) st] by simp_all
  have uniq: "unique_step s p p' s'" by (rule unique_proc [OF st inv(2) known(2) schema_inv_items [OF inv(1)]])
  have "rows_inv s'"
    using keeps_rows_proc [OF st] known(1) inv(3) by (simp add: keeps_rows_def proc_in_order_def)
  with sch uniq show "tables_ok s' \<and> proc_ok env w s' p' \<and> (handled_rid p' = None \<or> handled_rid p' = handled_rid p)"
    by (simp add: tables_ok_def proc_ok_def unique_step_def)
  fix q assume q: "proc_ok env w s q" "handled_rid q = None \<or> handled_rid q \<noteq> handled_rid p"
  have "ungraded s' q"
  proof (cases "handled_rid q")
    case None
    then show ?thesis by (cases q) simp_all
  next
    case (Some rid)
    have "leaves (handled_rid p) s s'" using uniq by (simp add: unique_step_def)
    moreover have "ungraded s q" using q(1) by (simp add: proc_ok_def)
    moreover have "handled_rid q \<noteq> handled_rid p \<or> handled_rid p = None" using q(2) Some by auto
    ultimately show ?thesis by (rule ungraded_kept)
  qed
  moreover have "proc_in_order env w s' q"
    using q(1) schema.others [OF inv(1) known(1) st] by (simp add: proc_ok_def)
  ultimately show "proc_ok env w s' q" by (simp add: proc_ok_def)
next
  fix s :: sys and op assume ok: "tables_ok s"
  note same = stays_api [of s op]
  show "tables_ok (api_step op s)"
    using ok schema.api [of s op] keeps_rows_api [of s op] stays_unique [OF same]
    by (simp add: tables_ok_def keeps_rows_def)
  fix q assume "proc_ok env w s q"
  then show "proc_ok env w (api_step op s) q"
    using schema.api_others [of s env w q op] ok ungraded_kept [OF stays_leaves [OF same]]
    by (simp add: proc_ok_def tables_ok_def)
next
  fix s :: sys and ms
  have same: "stays None s (s\<lparr>evals_queue := ms\<rparr>)" by (rule stays_frame) simp_all
  have "keeps_rows s (s\<lparr>evals_queue := ms\<rparr>)" by (rule keeps_rows_frame) simp_all
  then show "tables_ok s \<Longrightarrow> tables_ok (s\<lparr>evals_queue := ms\<rparr>)"
    using schema.unsent [of s ms] stays_unique [OF same] by (simp add: tables_ok_def keeps_rows_def)
  show "proc_ok env w s q \<Longrightarrow> proc_ok env w (s\<lparr>evals_queue := ms\<rparr>) q" for q
    using schema.unsent_others [of env w s q ms] ungraded_kept [OF stays_leaves [OF same]]
    by (simp add: proc_ok_def)
qed

text \<open>The rows alone need no policy.\<close>

definition rows_ok :: "'a db_scheme \<Rightarrow> bool" where
  "rows_ok d \<longleftrightarrow> schema_inv d \<and> rows_inv d"

interpretation rows: owned_invariant env w "\<lambda>_. None" rows_ok "proc_in_order env w"
proof
  show "proc_in_order env w s (P_start rid)" for s :: sys and rid by (rule schema.start)
next
  fix s s' :: sys and p p'
  assume ok: "rows_ok s" "proc_in_order env w s p" and st: "proc_step env w p s = (p', s')"
  then have inv: "schema_inv s" and rows: "rows_inv s'"
    using keeps_rows_proc [OF st] by (auto simp: rows_ok_def keeps_rows_def proc_in_order_def)
  from schema.own [OF inv ok(2) st] rows
  show "rows_ok s' \<and> proc_in_order env w s' p' \<and> ((None :: uuid option) = None \<or> (None :: uuid option) = None)"
    by (simp add: rows_ok_def)
  fix q assume "proc_in_order env w s q"
  then show "proc_in_order env w s' q" using schema.others [OF inv ok(2) st] by simp
next
  fix s :: sys and op assume ok: "rows_ok s"
  then show "rows_ok (api_step op s)"
    using schema.api [of s op] keeps_rows_api [of s op] by (simp add: rows_ok_def keeps_rows_def)
  fix q assume "proc_in_order env w s q"
  then show "proc_in_order env w (api_step op s) q"
    using schema.api_others [of s env w q op] ok by (simp add: rows_ok_def)
next
  fix s :: sys and ms
  have "keeps_rows s (s\<lparr>evals_queue := ms\<rparr>)" by (rule keeps_rows_frame) simp_all
  then show "rows_ok s \<Longrightarrow> rows_ok (s\<lparr>evals_queue := ms\<rparr>)"
    using schema.unsent [of s ms] by (simp add: rows_ok_def keeps_rows_def)
  show "proc_in_order env w s q \<Longrightarrow> proc_in_order env w (s\<lparr>evals_queue := ms\<rparr>) q" for q
    by (rule schema.unsent_others)
qed simp_all

lemma reachable_rows:
  assumes "reachable policy env w s0 (s, ps)" and "schema_inv s0" and "rows_inv s0"
  shows "rows_inv s"
  using rows.reachable_state [OF reachable_unowned [OF assms(1)]] assms(2,3) by (simp add: rows_ok_def)

text \<open>
  C16. As long as no message is delivered again before its previous delivery is finished, whatever
  workers, crashes and requests interleave: in every reachable world there is at most one grade per
  item and grader and one review item per item, scores and labels are in range, every succeeded item
  has a cost, and the leaderboard of that world is computed without an error, for every filter.
\<close>

theorem reachable_tables_and_leaderboard:
  assumes "tables_inv s0" and "schema_ok s0" and "drawn_ids s0" and "graded_settled s0"
    and "reachable unacknowledged env w s0 (s, ps)"
  shows "tables_inv s \<and> graded_settled s \<and> \<not> isl (get_leaderboard ck task_set_id capability s)"
proof -
  have "tables_ok s0"
    using assms(1-4) by (simp add: tables_ok_def tables_inv_def unique_inv_def schema_inv_def)
  with tables.reachable_state assms(5) have ok: "tables_ok s" unfolding unacknowledged_unowned .
  then have inv: "tables_inv s \<and> graded_settled s" by (simp add: tables_ok_def tables_inv_def unique_inv_def)
  have "scores_ok s"
    using ok by (simp add: tables_ok_def scores_ok_def grading_inv_def rows_inv_def unique_inv_def
        schema_inv_def schema_ok_def task_table_def model_endpoint_table_def)
  then have "\<not> isl (get_leaderboard ck task_set_id capability s)" by (simp add: leaderboard_values)
  with inv show ?thesis by simp
qed

text \<open>
  Item 40 is delivered and executed to its end, with a redelivery after the end and one that is
  refused because the first is not finished; the run is cancelled while item 41 is being graded.
\<close>

definition fx_graded :: world where
  "fx_graded = fold (perform unacknowledged fx_env (fx_worker (fx_provider ''V'')))
     ([Deliver 40, Deliver 40] @ replicate 14 (Work 0) @ [Deliver 40, Work 1, Deliver 41] @
      replicate 10 (Work 2) @ [Api (Op_cancel 30)] @ replicate 3 (Work 2)) (fx_schema, [])"

lemma fx_schema_ok: "schema_ok fx_schema" "drawn_ids fx_schema"
  by (simp add: schema_ok_def table_defs fx_schema_def fx_sys_def fx_task_def fx_endpoint_def fx_run_def
      fx_item_def refers_def eval_run_columns_def run_item_columns_def nullable_def zero_columns)
     (simp add: drawn_ids_def all_ids_def fx_schema_def fx_sys_def fx_task_def fx_endpoint_def fx_run_def
      fx_item_def)

theorem reachable_tables_and_leaderboard_witness:
  "tables_inv (fst fx_graded) \<and> graded_settled (fst fx_graded) \<and>
   \<not> isl (get_leaderboard id None (Some ''geo'') (fst fx_graded))"
proof (rule reachable_tables_and_leaderboard [where ?s0.0 = fx_schema and env = fx_env and ps = "snd fx_graded"
      and w = "fx_worker (fx_provider ''V'')"])
  show "reachable unacknowledged fx_env (fx_worker (fx_provider ''V'')) fx_schema (fst fx_graded, snd fx_graded)"
    unfolding fx_graded_def prod.collapse by (rule perform_reachable [OF reachable.start])
  show "tables_inv fx_schema" by code_simp
  show "graded_settled fx_schema" by code_simp
qed (rule fx_schema_ok)+

subsection \<open>Overlapping gradings\<close>

text \<open>Both executions finalize item 40, and both look for its grades before either has committed.\<close>

definition fx_two_gradings :: world where
  "fx_two_gradings = fold (perform (\<lambda>_ _. True) fx_env (fx_worker (fx_provider ''V'')))
     (fx_overlap @ [Work 0, Work 1, Work 0, Work 1] @ replicate 3 (Work 0) @ replicate 3 (Work 1)) (fx_schema, [])"

text \<open>
  C17. The grade table has no constraint that would keep two gradings of one item apart: when a
  message is delivered again while its first execution goes on, both executions find no grades and
  both insert theirs, the item has two grades of the same grader, and the leaderboard counts its
  one succeeded item twice.
\<close>

theorem overlapping_gradings_count_twice:
  "reachable (\<lambda>_ _. True) fx_env (fx_worker (fx_provider ''V'')) fx_schema fx_two_gradings \<and>
   tables_inv fx_schema \<and> graded_settled fx_schema \<and>
   map ri_id (filter (\<lambda>r. ri_status r = Item_succeeded) (run_items (fst fx_two_gradings))) = [40] \<and>
   map (\<lambda>g. (gr_run_item_id g, gr_grader g)) (grades (fst fx_two_gradings)) =
     [(40, GK_deterministic), (40, GK_deterministic)] \<and>
   map_sum id (map lb_n) (get_leaderboard id None None (fst fx_two_gradings)) = Inr [2]"
proof (intro conjI)
  show "reachable (\<lambda>_ _. True) fx_env (fx_worker (fx_provider ''V'')) fx_schema fx_two_gradings"
    unfolding fx_two_gradings_def by (rule perform_reachable [OF reachable.start])
  show "tables_inv fx_schema" by code_simp
  show "graded_settled fx_schema" by code_simp
  show "map ri_id (filter (\<lambda>r. ri_status r = Item_succeeded) (run_items (fst fx_two_gradings))) = [40]"
    by code_simp
  show "map (\<lambda>g. (gr_run_item_id g, gr_grader g)) (grades (fst fx_two_gradings)) =
      [(40, GK_deterministic), (40, GK_deterministic)]" by code_simp
  show "map_sum id (map lb_n) (get_leaderboard id None None (fst fx_two_gradings)) = Inr [2]"
    by code_simp
qed

end
