(* ===== verification/World_Life.thy ===== *)
theory World_Life
  imports World_Runs
begin

text \<open>
  The status of a run in a running system follows its life cycle, of which completed and cancelled
  are the ends, however messages are delivered and requests interleave with the workers.
\<close>

subsection \<open>The life cycle of a run\<close>

fun run_move :: "eval_run_status \<Rightarrow> eval_run_status \<Rightarrow> bool" where
  "run_move Run_pending Run_cancelled = True"
| "run_move Run_running Run_completed = True"
| "run_move Run_running Run_failed = True"
| "run_move Run_running Run_cancelled = True"
| "run_move Run_failed Run_running = True"
| "run_move a b = (a = b)"

lemma run_move_refl [simp]: "run_move a a"
  by (cases a) simp_all

lemma run_move_terminal: "run_move a b \<Longrightarrow> a \<in> {Run_completed, Run_cancelled} \<Longrightarrow> b = a"
  by (cases a; cases b) simp_all

definition moves_runs :: "'a db_scheme \<Rightarrow> 'a db_scheme \<Rightarrow> bool" where
  "moves_runs d d' \<longleftrightarrow> (\<forall>k e. fetch er_id k (eval_runs d) = Some e \<longrightarrow>
     (\<exists>e'. fetch er_id k (eval_runs d') = Some e' \<and> run_move (er_status e) (er_status e')))"

lemma moves_runs_same: "eval_runs d' = eval_runs d \<Longrightarrow> moves_runs d d'"
  by (simp add: moves_runs_def)

lemma moves_runs_update:
  assumes "eval_runs d' = sql_update p f (eval_runs d)" and "\<And>e. er_id (f e) = er_id e"
    and "\<And>e. p e \<Longrightarrow> run_move (er_status e) (er_status (f e))"
  shows "moves_runs d d'"
  using assms(3) by (simp add: moves_runs_def assms(1) fetch_sql_update assms(2))

lemma moves_runs_complete: "moves_runs d (complete_updates k d)"
  by (auto simp: moves_runs_def complete_updates_def Let_def fetch_sql_update)

lemma moves_runs_abort: "abort_over_budget k l t d = (b, d') \<Longrightarrow> moves_runs d d'"
  unfolding abort_over_budget_def Let_def
  by (auto split: if_splits intro!: moves_runs_update)

lemma moves_runs_finalize:
  assumes "finalize_item rid k lat pt ct cost akey dc dt d = Inr (b, d')"
  shows "moves_runs d d'"
  using assms
proof (cases rule: finalize_item_cases)
  case skipped
  then show ?thesis by (simp add: moves_runs_same)
next
  case written
  from written(6) show ?thesis by (rule moves_runs_update) simp_all
qed

lemma moves_runs_cancel: "moves_runs d (cancel_updates k d)"
  by (rule moves_runs_update [where p = "\<lambda>e. er_id e = k \<and> er_status e \<in> {Run_pending, Run_running}"
        and f = "\<lambda>e. e\<lparr>er_status := Run_cancelled, er_completed_at := Some (db_now d)\<rparr>"])
     (auto simp: cancel_updates_def)

lemma moves_runs_replay: "moves_runs s (enqueue_run_item rid (replay_updates rid k s))"
  by (rule moves_runs_update [where p = "\<lambda>e. er_id e = k \<and> er_status e = Run_failed"
        and f = "\<lambda>e. e\<lparr>er_status := Run_running, er_completed_at := None, er_error := None\<rparr>"])
     (auto simp: replay_updates_def enqueue_run_item_def)

lemma moves_runs_api: "moves_runs s (api_step op s)"
proof (cases op)
  case (Op_create k ids)
  have "\<exists>e. eval_runs (snd (create_eval_run k ids s)) = eval_runs s @ e"
    unfolding create_eval_run_eq Let_def by (auto split: option.split)
  then show ?thesis
    by (auto simp: Op_create api_step_def moves_runs_def fetch_append split: option.split)
next
  case (Op_cancel k)
  then show ?thesis
    by (simp add: api_step_def cancel_eval_run_def Let_def moves_runs_same moves_runs_cancel split: option.split)
next
  case (Op_replay rid)
  then show ?thesis
    by (simp add: api_step_def replay_run_item_def moves_runs_same moves_runs_replay split: option.split)
next
  case (Op_cancel_late k)
  then show ?thesis by (simp add: api_step_def moves_runs_cancel)
next
  case (Op_replay_late rid k)
  then show ?thesis by (simp add: api_step_def moves_runs_replay)
next
  case (Op_review rop)
  have "eval_runs (review_step rop s) = eval_runs s" by (cases rule: review_step_cases [of rop s]) simp_all
  then show ?thesis by (simp add: Op_review api_step_def moves_runs_same)
next
  case (Op_catalogue h cop)
  then show ?thesis by (simp add: api_step_def moves_runs_same catalogue_step_frame)
next
  case Op_request_id
  then show ?thesis by (simp add: api_step_def moves_runs_same)
qed

lemma moves_runs_trans_same: "moves_runs d d' \<Longrightarrow> eval_runs d'' = eval_runs d' \<Longrightarrow> moves_runs d d''"
  by (simp add: moves_runs_def)

lemma runs_of_work [simp]:
  "eval_runs (mark_running rid s) = eval_runs s" "eval_runs (mark_failed rid err s) = eval_runs s"
  "eval_runs (mark_dead_lettered rid err s) = eval_runs s" "eval_runs (mark_cancelled rid s) = eval_runs s"
  "eval_runs (inc_eval_items st m s) = eval_runs s" "eval_runs (inc_dead_letters s) = eval_runs s"
  "eval_runs (publish_dead_letter rid s) = eval_runs s" "eval_runs (count_failed sn s) = eval_runs s"
  by (simp_all add: mark_defs inc_eval_items_def inc_dead_letters_def publish_dead_letter_def count_failed_def
      Let_def)

lemma moves_runs_proc:
  assumes "proc_step env w p s = (p', s')"
  shows "moves_runs s s'"
proof (cases p)
  case (P_call sn a le)
  with assms show ?thesis
    by (auto simp: step_call_def call_provider_def Let_def intro!: moves_runs_same
        split: sum.splits exn.splits if_splits)
next
  case (P_store sn c)
  with assms show ?thesis by (auto simp: set_artifact_def Let_def intro!: moves_runs_same)
next
  case (P_finalize sn c akey)
  with assms show ?thesis
    by (auto simp: step_finalize_def finalize_completion_def Let_def moves_runs_same
        split: sum.splits bool.splits dest: moves_runs_finalize)
next
  case (P_budget sn c)
  with assms show ?thesis
    by (auto simp: step_budget_def split: prod.splits if_splits
        dest: moves_runs_abort intro: moves_runs_trans_same)
next
  case (P_judge sn c now det)
  obtain k where "snd (run_judge env (we_provider w) (sn_task sn) (cr_text c) s) =
      s\<lparr>provider_calls := provider_calls s + k\<rparr>" using run_judge_frame by blast
  with P_judge assms show ?thesis
    by (auto simp: step_judge_def intro!: moves_runs_same split: prod.splits sum.splits)
next
  case (P_insert sn now det judge already)
  with assms show ?thesis
    by (auto simp: step_insert_def grading_commit_def Let_def insert_review_frame intro!: moves_runs_same)
next
  case (P_complete sn rep)
  with assms show ?thesis
    by (auto simp: step_complete_def report_end_def intro!: moves_runs_same split: if_splits)
next
  case (P_ending sn rep)
  with assms show ?thesis
    by (auto simp: report_end_def intro: moves_runs_trans_same [OF moves_runs_complete])
qed (use assms in \<open>auto intro!: moves_runs_same split: if_splits\<close>)

lemma moves_runs_world:
  assumes "world_step policy env w W W'"
  shows "moves_runs (fst W) (fst W')"
  using assms
  by (cases rule: world_step.cases)
     (auto simp: cut_sends_def intro: moves_runs_same moves_runs_api moves_runs_proc
       moves_runs_trans_same [OF moves_runs_api])

text \<open>
  C6. However the system goes on from a world, a run that exists stays, its status moves only
  along the life cycle (pending to cancelled; running to completed, failed or cancelled; failed
  back to running by a replay), and a completed or cancelled run keeps its status for ever.
\<close>

theorem run_life_cycle:
  assumes "(world_step policy env w)\<^sup>*\<^sup>* W W'"
    and "fetch er_id k (eval_runs (fst W)) = Some e"
  shows "\<exists>e'. fetch er_id k (eval_runs (fst W')) = Some e' \<and> run_move\<^sup>*\<^sup>* (er_status e) (er_status e') \<and>
    (er_status e \<in> {Run_completed, Run_cancelled} \<longrightarrow> er_status e' = er_status e)"
  using assms(1)
proof (induction rule: rtranclp_induct)
  case base
  then show ?case using assms(2) by auto
next
  case (step W1 W2)
  then obtain e1 where e1: "fetch er_id k (eval_runs (fst W1)) = Some e1"
    "run_move\<^sup>*\<^sup>* (er_status e) (er_status e1)"
    "er_status e \<in> {Run_completed, Run_cancelled} \<longrightarrow> er_status e1 = er_status e" by blast
  from moves_runs_world [OF step.hyps(2)] e1(1) obtain e2
    where "fetch er_id k (eval_runs (fst W2)) = Some e2" "run_move (er_status e1) (er_status e2)"
    unfolding moves_runs_def by blast
  with e1(2,3) run_move_terminal show ?case by (metis rtranclp.rtrancl_into_rtrancl)
qed

theorem run_life_cycle_witness:
  "\<exists>e'. fetch er_id 30 (eval_runs (api_step (Op_cancel 30) fx_sys)) = Some e' \<and>
     run_move\<^sup>*\<^sup>* Run_running (er_status e') \<and>
     (Run_running \<in> {Run_completed, Run_cancelled} \<longrightarrow> er_status e' = Run_running)"
proof -
  let ?w = "fx_worker (fx_provider ''V'')"
  have step: "(world_step (\<lambda>_ _. True) fx_env ?w)\<^sup>*\<^sup>* (fx_sys, [])
      (api_step (Op_cancel 30) fx_sys, [])"
    by (rule r_into_rtranclp) (rule world_step.api)
  have e: "fetch er_id 30 (eval_runs (fst (fx_sys, []::proc list))) = Some (hd (eval_runs fx_sys))"
    by code_simp
  have st: "er_status (hd (eval_runs fx_sys)) = Run_running" by code_simp
  from run_life_cycle [OF step e] show ?thesis by (simp only: fst_conv st)
qed

end
