(* ===== verification/Service.thy ===== *)
theory Service
  imports World_Tables World_Life
begin

text \<open>
  The HTTP service: \<open>app/main.py\<close> with the routers of \<open>app/api/v1/router.py\<close>, the role dependency of
  each, and the two middlewares around them. \<open>ApiKeyMiddleware\<close> is added last, so it runs first.

  Here the \<open>route\<close> of a request, with its parameters and body read, is an argument next to the request,
  unrelated to its path: what is shown holds whatever the matching does. \<open>Routing\<close> reads the route from
  the method and the path. A body or parameter outside its schema is answered 422 after the router's
  dependencies ran. An exception no handler catches becomes the server's 500.
\<close>

subsection \<open>Health and readiness\<close>

record check_status =
  ck_status :: string
  ck_error :: "string option"

record ready_status =
  rdy_status :: string
  rdy_checks :: "(string \<times> check_status) list"

text \<open>What the probe of the database and the ping of Redis do: an exception's text or nothing.\<close>

record probes =
  postgres_probe :: "string option"
  redis_probe :: "string option"

definition check_of :: "string option \<Rightarrow> check_status" where
  "check_of err =
     (case err of None \<Rightarrow> \<lparr>ck_status = ''ok'', ck_error = None\<rparr>
      | Some text \<Rightarrow> \<lparr>ck_status = ''down'', ck_error = Some text\<rparr>)"

definition readiness_checks :: "probes \<Rightarrow> (string \<times> check_status) list" where
  "readiness_checks p =
     [(''postgres'', check_of (postgres_probe p)),
      (''redis'', check_of (redis_probe p)), (''broker'', check_of (redis_probe p))]"

definition readyz :: "probes \<Rightarrow> int \<times> ready_status" where
  "readyz p =
     (let checks = readiness_checks p;
          st = (if list_all (\<lambda>(_, c). ck_status c = ''ok'') checks then ''ok'' else ''degraded'')
      in (if st = ''ok'' then 200 else 503, \<lparr>rdy_status = st, rdy_checks = checks\<rparr>))"

subsection \<open>Routes\<close>

datatype route =
    Create_task_set task_set_create | List_task_sets | Get_task_set uuid | Create_task uuid task_create
  | Create_model model_endpoint_create | List_models | Get_model uuid
  | Create_run uuid "uuid list" | Get_run uuid | Cancel_run uuid | List_dead_letters uuid | Replay uuid
  | List_queue review_status "string option" int | Queue_stats | Claim_item uuid
  | Resolve_item uuid resolve_request
  | Leaderboard "uuid option" "string option" | History string | Capabilities uuid
  | Create_key bytes string api_key_create | List_keys | Remove_key uuid
  | Healthz | Readyz | Metrics | No_route

datatype answer =
    A_task_set task_set | A_task_sets "task_set list" | A_task task
  | A_model model_endpoint | A_models "model_endpoint list"
  | A_accepted uuid eval_run_status | A_run eval_run_read | A_dead_letters "dead_letter_read list"
  | A_replayed uuid run_item_status
  | A_queue "review_queue_item list" | A_stats review_stats | A_review review_item_read
  | A_leaderboard "leaderboard_row list" | A_history "history_point list" | A_capabilities "capability_row list"
  | A_key api_key_created | A_keys "api_key_read list" | A_none
  | A_health string | A_ready ready_status | A_metrics

text \<open>The dependency of the router a route belongs to; None for the routes of the application itself.\<close>

fun route_roles :: "route \<Rightarrow> api_key_role list option" where
  "route_roles (List_queue _ _ _) = Some [Role_admin, Role_reviewer]"
| "route_roles Queue_stats = Some [Role_admin, Role_reviewer]"
| "route_roles (Claim_item _) = Some [Role_admin, Role_reviewer]"
| "route_roles (Resolve_item _ _) = Some [Role_admin, Role_reviewer]"
| "route_roles (Leaderboard _ _) = Some [Role_admin, Role_reviewer]"
| "route_roles (History _) = Some [Role_admin, Role_reviewer]"
| "route_roles (Capabilities _) = Some [Role_admin, Role_reviewer]"
| "route_roles Healthz = None"
| "route_roles Readyz = None"
| "route_roles Metrics = None"
| "route_roles No_route = None"
| "route_roles _ = Some [Role_admin]"

text \<open>The schemas of bodies and query parameters.\<close>

definition eval_run_create_ok :: "uuid list \<Rightarrow> bool" where
  "eval_run_create_ok model_endpoint_ids \<longleftrightarrow> model_endpoint_ids \<noteq> []"

definition queue_limit_ok :: "int \<Rightarrow> bool" where
  "queue_limit_ok limit \<longleftrightarrow> 1 \<le> limit \<and> limit \<le> 500"

definition model_name_ok :: "string \<Rightarrow> bool" where
  "model_name_ok model_name \<longleftrightarrow> model_name \<noteq> []"

fun valid_route :: "route \<Rightarrow> bool" where
  "valid_route (Create_task_set p) = task_set_create_ok p"
| "valid_route (Create_task _ p) = task_create_ok p"
| "valid_route (Create_model p) = model_endpoint_create_ok p"
| "valid_route (Create_run _ ids) = eval_run_create_ok ids"
| "valid_route (List_queue _ _ limit) = queue_limit_ok limit"
| "valid_route (Resolve_item _ q) = resolve_request_ok q"
| "valid_route (History model_name) = model_name_ok model_name"
| "valid_route (Create_key _ _ p) = api_key_create_ok p"
| "valid_route _ = True"

text \<open>
  What the service runs with: the hash functions, the collation of the database, the state of the
  services it depends on, and how the framework reads a UUID from text.
\<close>

record service_env =
  se_crypto :: crypto
  se_collation :: "string \<Rightarrow> string"
  se_uuid :: "string \<Rightarrow> uuid option"
  se_probes :: probes

type_synonym handled = "(exn + answer http_response) \<times> sys"

definition ok :: "int \<Rightarrow> answer \<Rightarrow> answer http_response" where
  "ok code a = \<lparr>rs_status = code, rs_body = Answer a, rs_request_id = None\<rparr>"

text \<open>A handler that answers or raises an \<open>HTTPException\<close>; one whose conversions may raise.\<close>

definition http_reply :: "int \<Rightarrow> ('x \<Rightarrow> answer) \<Rightarrow> (http_error + 'x) \<times> sys \<Rightarrow> handled" where
  "http_reply code f = (\<lambda>(r, s). (case r of
       Inl (HTTPException c detail) \<Rightarrow> (Inr (json_detail c detail), s)
     | Inr x \<Rightarrow> (Inr (ok code (f x)), s)))"

definition raw_reply :: "int \<Rightarrow> ('x \<Rightarrow> answer) \<Rightarrow> (exn + 'x) \<times> sys \<Rightarrow> handled" where
  "raw_reply code f = (\<lambda>(r, s). (case r of Inl e \<Rightarrow> (Inl e, s) | Inr x \<Rightarrow> (Inr (ok code (f x)), s)))"

fun handle :: "service_env \<Rightarrow> route \<Rightarrow> sys \<Rightarrow> handled" where
  "handle env (Create_task_set p) s = (let (x, s') = create_task_set p s in (Inr (ok 201 (A_task_set x)), s'))"
| "handle env List_task_sets s = (Inr (ok 200 (A_task_sets (list_task_sets s))), s)"
| "handle env (Get_task_set k) s = http_reply 200 A_task_set (get_task_set k s, s)"
| "handle env (Create_task k p) s = http_reply 201 A_task (create_task k p s)"
| "handle env (Create_model p) s = (let (x, s') = create_model_endpoint p s in (Inr (ok 201 (A_model x)), s'))"
| "handle env List_models s = (Inr (ok 200 (A_models (list_model_endpoints s))), s)"
| "handle env (Get_model k) s = http_reply 200 A_model (get_model_endpoint k s, s)"
| "handle env (Create_run k ids) s = http_reply 202 (\<lambda>(i, st). A_accepted i st) (create_eval_run k ids s)"
| "handle env (Get_run k) s = http_reply 200 A_run (get_eval_run k s, s)"
| "handle env (Cancel_run k) s = http_reply 200 A_run (cancel_eval_run k s)"
| "handle env (List_dead_letters k) s = http_reply 200 A_dead_letters (list_dead_letters k s, s)"
| "handle env (Replay rid) s = http_reply 202 (\<lambda>(i, st). A_replayed i st) (replay_run_item rid s)"
| "handle env (List_queue st c limit) s = raw_reply 200 A_queue (list_review_queue st c (nat limit) s, s)"
| "handle env Queue_stats s = (Inr (ok 200 (A_stats (review_queue_stats s))), s)"
| "handle env (Claim_item i) s = http_reply 200 A_review (claim_review_item i s)"
| "handle env (Resolve_item i q) s = http_reply 200 A_review (resolve_review_item i q s)"
| "handle env (Leaderboard k c) s = raw_reply 200 A_leaderboard (get_leaderboard (se_collation env) k c s, s)"
| "handle env (History name) s = (Inr (ok 200 (A_history (get_leaderboard_history (se_collation env) name s))), s)"
| "handle env (Capabilities k) s =
     (Inr (ok 200 (A_capabilities (get_capability_breakdown (se_collation env) k s))), s)"
| "handle env (Create_key salt raw p) s = raw_reply 201 A_key (create_api_key (se_crypto env) salt raw p s)"
| "handle env List_keys s = (Inr (ok 200 (A_keys (list_api_keys s))), s)"
| "handle env (Remove_key k) s = http_reply 204 (\<lambda>_. A_none) (delete_api_key k s)"
| "handle env Healthz s = (Inr (ok 200 (A_health ''ok'')), s)"
| "handle env Readyz s = (let (code, body) = readyz (se_probes env) in (Inr (ok code (A_ready body)), s))"
| "handle env Metrics s = (Inr (ok 200 A_metrics), s)"
| "handle env No_route s = (Inr (json_detail 404 ''Not Found''), s)"

subsection \<open>The application\<close>

definition dispatch_route :: "service_env \<Rightarrow> route \<Rightarrow> auth_context option \<Rightarrow> sys \<Rightarrow> handled" where
  "dispatch_route env r ctx s =
     (case (case route_roles r of None \<Rightarrow> Inr () | Some roles \<Rightarrow> require_role roles ctx) of
        Inl (HTTPException code detail) \<Rightarrow> (Inr (json_detail code detail), s)
      | Inr _ \<Rightarrow> if valid_route r then handle env r s else (Inr (json_detail 422 ''Unprocessable Entity''), s))"

definition application :: "service_env \<Rightarrow> http_request \<Rightarrow> route \<Rightarrow> sys \<Rightarrow> handled" where
  "application env q r =
     api_key_dispatch (se_crypto env) (request_context_dispatch (dispatch_route env r) q) q"

definition serve :: "service_env \<Rightarrow> http_request \<Rightarrow> route \<Rightarrow> sys \<Rightarrow> answer http_response \<times> sys" where
  "serve env q r s =
     (case application env q r s of
        (Inl _, s') \<Rightarrow> (json_detail 500 ''Internal Server Error'', s')
      | (Inr response, s') \<Rightarrow> (response, s'))"

end
