(* ===== verification/Service_Facts.thy ===== *)
theory Service_Facts
  imports Service
begin

text \<open>
  What the service guarantees at its boundary: a served request is a sequence of steps of the world,
  so every invariant of the world holds for it; a request without a key of the right role changes
  nothing and gets no data; a reviewer's key reaches the review items only; which responses carry a
  request id; and what readiness means.
\<close>

subsection \<open>What a handler does to the state\<close>

fun route_op :: "crypto \<Rightarrow> route \<Rightarrow> api_op option" where
  "route_op h (Create_task_set p) = Some (Op_catalogue h (New_task_set p))"
| "route_op h (Create_task k p) = Some (Op_catalogue h (New_task k p))"
| "route_op h (Create_model p) = Some (Op_catalogue h (New_endpoint p))"
| "route_op h (Create_run k ids) = Some (Op_create k ids)"
| "route_op h (Cancel_run k) = Some (Op_cancel k)"
| "route_op h (Replay rid) = Some (Op_replay rid)"
| "route_op h (Claim_item i) = Some (Op_review (Claim i))"
| "route_op h (Resolve_item i q) = Some (Op_review (Resolve i q))"
| "route_op h (Create_key salt raw p) = Some (Op_catalogue h (New_key salt raw p))"
| "route_op h (Remove_key k) = Some (Op_catalogue h (Delete_key k))"
| "route_op h _ = None"

lemma snd_reply [simp]:
  "snd (http_reply code f x) = snd x" "snd (raw_reply code g y) = snd y"
  by (auto simp: http_reply_def raw_reply_def split: prod.split sum.split http_error.split)

lemma handle_state:
  "valid_route r \<Longrightarrow> snd (handle env r s) =
    (case route_op (se_crypto env) r of None \<Rightarrow> s | Some op \<Rightarrow> api_step op s)"
  by (cases r) (simp_all add: api_step_def catalogue_step_def review_step_def case_prod_unfold Let_def)

lemma dispatch_state:
  "snd (dispatch_route env r ctx s) = s \<or>
   (\<exists>op. route_op (se_crypto env) r = Some op \<and> snd (dispatch_route env r ctx s) = api_step op s)"
  by (auto simp: dispatch_route_def handle_state split: sum.split http_error.split option.split)

lemma dispatch_refused:
  assumes "route_roles r = Some roles" and "isl (require_role roles ctx)"
  shows "\<exists>code t. code \<in> {401, 403} \<and> dispatch_route env r ctx s = (Inr (json_detail code t), s)"
  using assms by (auto simp: dispatch_route_def require_role_def split: option.splits if_splits)

text \<open>The state in which the route is dispatched: the request id may have been drawn.\<close>

definition with_request_id :: "http_request \<Rightarrow> sys \<Rightarrow> string \<times> sys" where
  "with_request_id q s =
     (case hr_x_request_id q of
        Some (c # cs) \<Rightarrow> (c # cs, s)
      | _ \<Rightarrow> (hex32 (uuid_next s), s\<lparr>uuid_next := uuid_next s + 1\<rparr>))"

lemma request_context_eq:
  "request_context_dispatch next q ctx s =
    (case next ctx (snd (with_request_id q s)) of
       (Inl e, s') \<Rightarrow> (Inl e, s')
     | (Inr response, s') \<Rightarrow> (Inr (response\<lparr>rs_request_id := Some (fst (with_request_id q s))\<rparr>), s'))"
proof -
  have "request_context_dispatch next q ctx s =
      (let (request_id, d1) = with_request_id q s in
       case next ctx d1 of
         (Inl e, d2) \<Rightarrow> (Inl e, d2)
       | (Inr response, d2) \<Rightarrow> (Inr (response\<lparr>rs_request_id := Some request_id\<rparr>), d2))"
    unfolding request_context_dispatch_def with_request_id_def ..
  then show ?thesis by (simp add: Let_def case_prod_unfold)
qed

lemma snd_request_context: "snd (request_context_dispatch next q ctx s) = snd (next ctx (snd (with_request_id q s)))"
  by (simp add: request_context_eq split: prod.split sum.split)

lemma with_request_id_step: "snd (with_request_id q s) = s \<or> snd (with_request_id q s) = api_step Op_request_id s"
  by (simp add: with_request_id_def api_step_def split: option.split list.split)

text \<open>The key check: what the request is allowed to be dispatched with.\<close>

definition exempt :: "http_request \<Rightarrow> bool" where
  "exempt q \<longleftrightarrow> hr_method q = ''OPTIONS'' \<or> hr_path q \<in> set EXEMPT_PATHS"

definition context_of :: "crypto \<Rightarrow> http_request \<Rightarrow> sys \<Rightarrow> exn + auth_context option" where
  "context_of h q s = (case extract_key q of None \<Rightarrow> Inr None | Some raw \<Rightarrow> authenticate h raw s)"

lemma api_key_cases:
  obtains (exempt) "exempt q" "api_key_dispatch h next q s = next None s"
  | (missing) "\<not> exempt q" "extract_key q = None"
      "api_key_dispatch h next q s = (Inr (json_detail 401 ''Missing API key''), s)"
  | (raised) e raw where "\<not> exempt q" "extract_key q = Some raw" "authenticate h raw s = Inl e"
      "api_key_dispatch h next q s = (Inl e, s)"
  | (invalid) raw where "\<not> exempt q" "extract_key q = Some raw" "authenticate h raw s = Inr None"
      "api_key_dispatch h next q s = (Inr (json_detail 401 ''Invalid API key''), s)"
  | (known) raw ctx where "\<not> exempt q" "extract_key q = Some raw" "authenticate h raw s = Inr (Some ctx)"
      "api_key_dispatch h next q s = next (Some ctx) s"
proof (cases "exempt q")
  case True
  with exempt show thesis by (simp add: exempt_def api_key_dispatch_def)
next
  case False
  show thesis
  proof (cases "extract_key q")
    case None
    with False missing show thesis by (simp add: exempt_def api_key_dispatch_def)
  next
    case (Some raw)
    show thesis
    proof (cases "authenticate h raw s")
      case (Inl e)
      with False Some raised show thesis by (simp add: exempt_def api_key_dispatch_def)
    next
      case (Inr c)
      with False Some invalid known show thesis by (cases c) (simp_all add: exempt_def api_key_dispatch_def)
    qed
  qed
qed

lemma application_cases:
  obtains (exempt) "exempt q" "application env q r s = request_context_dispatch (dispatch_route env r) q None s"
  | (missing) "\<not> exempt q" "extract_key q = None"
      "application env q r s = (Inr (json_detail 401 ''Missing API key''), s)"
  | (raised) e raw where "\<not> exempt q" "extract_key q = Some raw" "authenticate (se_crypto env) raw s = Inl e"
      "application env q r s = (Inl e, s)"
  | (invalid) raw where "\<not> exempt q" "extract_key q = Some raw" "authenticate (se_crypto env) raw s = Inr None"
      "application env q r s = (Inr (json_detail 401 ''Invalid API key''), s)"
  | (known) raw ctx where "\<not> exempt q" "extract_key q = Some raw"
      "authenticate (se_crypto env) raw s = Inr (Some ctx)"
      "application env q r s = request_context_dispatch (dispatch_route env r) q (Some ctx) s"
  by (cases rule: api_key_cases [of q "se_crypto env" "request_context_dispatch (dispatch_route env r) q" s])
     (use that in \<open>simp_all add: application_def\<close>)

lemma snd_serve: "snd (serve env q r s) = snd (application env q r s)"
  by (simp add: serve_def split: prod.split sum.split)

subsection \<open>Requests as steps of the world\<close>

lemma dispatched_world:
  "(world_step policy g w)\<^sup>*\<^sup>* (s, ps) (snd (request_context_dispatch (dispatch_route env r) q ctx s), ps)"
proof -
  let ?s1 = "snd (with_request_id q s)"
  have step: "(world_step policy g w)\<^sup>*\<^sup>* (s', ps) (api_step op s', ps)" for op s'
    by (rule r_into_rtranclp) (rule world_step.api)
  have "(world_step policy g w)\<^sup>*\<^sup>* (s, ps) (?s1, ps)"
    using with_request_id_step [of q s] step [of s Op_request_id] by auto
  moreover have "(world_step policy g w)\<^sup>*\<^sup>* (?s1, ps) (snd (dispatch_route env r ctx ?s1), ps)"
    using dispatch_state [of env r ctx ?s1] step [of ?s1] by auto
  ultimately show ?thesis by (simp add: snd_request_context)
qed

lemma served_world: "(world_step policy g w)\<^sup>*\<^sup>* (s, ps) (snd (serve env q r s), ps)"
  unfolding snd_serve
  by (cases rule: application_cases [of q env r s]) (simp_all add: dispatched_world)

text \<open>
  Serving requests stays inside the world: whatever requests are served one after another, with
  whatever keys, routes and bodies, the state they leave is reachable from the state before by
  steps of the world with the same processes. So what is shown of all worlds holds for the service.
\<close>

theorem requests_are_world_steps:
  "(world_step policy g w)\<^sup>*\<^sup>* (s, ps) (fold (\<lambda>(q, r) s. snd (serve env q r s)) requests s, ps)"
proof (induction requests arbitrary: s)
  case (Cons x requests)
  obtain q r where "x = (q, r)" by fastforce
  with served_world [of policy g w s ps env q r] Cons [of "snd (serve env q r s)"] show ?case by simp
qed simp

subsection \<open>Who may do what\<close>

text \<open>A stored key that the request presents and whose role the route's router allows.\<close>

definition authorised :: "crypto \<Rightarrow> http_request \<Rightarrow> api_key_role list \<Rightarrow> sys \<Rightarrow> bool" where
  "authorised h q roles s \<longleftrightarrow>
     (case extract_key q of
        None \<Rightarrow> False
      | Some raw \<Rightarrow> list_ex (\<lambda>row. ak_key_prefix row = key_prefix h raw \<and>
          verify_api_key h raw (ak_key_hash row) = Inr True \<and> ak_role row \<in> set roles) (api_keys s))"

text \<open>
  Without a stored key of a permitted role nothing happens: a request to any route behind a role
  that presents no such key leaves the database, the queues and the counters as they were (at most
  its request id was drawn) and gets 401 or 403 with a fixed text, never data; 500 only when a
  stored hash is not one the program wrote.
\<close>

theorem denied_routes_change_nothing:
  assumes "route_roles r = Some roles" and "\<not> authorised (se_crypto env) q roles s"
  shows "let (resp, s') = serve env q r s in
    (s' = s \<or> s' = s\<lparr>uuid_next := uuid_next s + 1\<rparr>) \<and>
    rs_status resp \<in> {401, 403, 500} \<and> (\<exists>t. rs_body resp = Detail t) \<and>
    (keys_ready s \<longrightarrow> rs_status resp \<noteq> 500)"
proof -
  let ?s1 = "snd (with_request_id q s)"
  have s1: "?s1 = s \<or> ?s1 = s\<lparr>uuid_next := uuid_next s + 1\<rparr>"
    using with_request_id_step [of q s] by (simp add: api_step_def)
  have refused: "\<exists>code t i. code \<in> {401, 403} \<and> request_context_dispatch (dispatch_route env r) q ctx s =
      (Inr ((json_detail code t)\<lparr>rs_request_id := i\<rparr>), ?s1)" if deny: "isl (require_role roles ctx)" for ctx
  proof -
    obtain code t where d: "code \<in> {401, 403}" "dispatch_route env r ctx ?s1 = (Inr (json_detail code t), ?s1)"
      using dispatch_refused [OF assms(1) deny, of env ?s1] by blast
    have "request_context_dispatch (dispatch_route env r) q ctx s =
        (Inr ((json_detail code t)\<lparr>rs_request_id := Some (fst (with_request_id q s))\<rparr>), ?s1)"
      by (simp add: request_context_eq d(2))
    with d(1) show ?thesis by blast
  qed
  show ?thesis
  proof (cases rule: application_cases [of q env r s])
    case exempt
    have "isl (require_role roles None)" by (simp add: require_role_def)
    from refused [OF this] exempt s1 show ?thesis by (auto simp: serve_def json_detail_def)
  next
    case missing
    then show ?thesis by (simp add: serve_def json_detail_def)
  next
    case (raised e raw)
    then show ?thesis using authenticate_total [of s] by (auto simp: serve_def json_detail_def) (metis sum.disc(1))
  next
    case invalid
    then show ?thesis by (simp add: serve_def json_detail_def)
  next
    case (known raw ctx)
    from authenticate_sound [OF known(3)] assms(2) known(2) have "ac_role ctx \<notin> set roles"
      by (auto simp: authorised_def list_ex_iff)
    then have "isl (require_role roles (Some ctx))" by (simp add: require_role_def)
    from refused [OF this] known(4) s1 show ?thesis by (auto simp: serve_def json_detail_def)
  qed
qed

definition fx_request :: "string \<Rightarrow> http_request" where
  "fx_request key = \<lparr>hr_method = ''POST'', hr_path = ''/v1/eval-runs/30/cancel'', hr_x_api_key = Some key,
     hr_authorization = None, hr_x_request_id = Some ''r1''\<rparr>"

text \<open>Reading back what \<open>str\<close> makes of a UUID.\<close>

definition fx_read_uuid :: "string \<Rightarrow> uuid option" where
  "fx_read_uuid t = (let u = hex_val (filter (\<lambda>c. c \<noteq> CHR ''-'') t) in if uuid_str u = t then Some u else None)"

definition fx_service :: service_env where
  "fx_service = \<lparr>se_crypto = fx_crypto, se_collation = id, se_uuid = fx_read_uuid,
     se_probes = \<lparr>postgres_probe = None, redis_probe = Some ''down''\<rparr>\<rparr>"

text \<open>One reviewer key, \<open>K\<close>.\<close>

definition fx_keyed :: sys where
  "fx_keyed = fx_sys\<lparr>api_keys := [\<lparr>ak_id = 3, ak_name = ''rev'', ak_role = Role_reviewer, ak_key_prefix = [],
     ak_key_hash = hash_api_key fx_crypto [1] ''K'', ak_created_at = 1\<rparr>]\<rparr>"

lemma fx_keyed_authenticate:
  "authenticate fx_crypto ''K'' fx_keyed = Inr (Some \<lparr>ac_api_key_id = 3, ac_name = ''rev'', ac_role = Role_reviewer\<rparr>)"
  by (simp add: authenticate_def fx_keyed_def key_prefix_def fx_crypto_def bytes_hex_def verify_hash)

lemma fx_request_key: "extract_key (fx_request ''K'') = Some ''K''" "\<not> exempt (fx_request ''K'')"
  by (simp_all add: extract_key_def fx_request_def strip_def is_space_def exempt_def EXEMPT_PATHS_def)

theorem denied_routes_change_nothing_witness:
  "let (resp, s') = serve fx_service (fx_request ''K'') (Cancel_run 30) fx_keyed in
    (s' = fx_keyed \<or> s' = fx_keyed\<lparr>uuid_next := uuid_next fx_keyed + 1\<rparr>) \<and>
    rs_status resp \<in> {401, 403, 500} \<and> (\<exists>t. rs_body resp = Detail t) \<and>
    (keys_ready fx_keyed \<longrightarrow> rs_status resp \<noteq> 500)"
proof (rule denied_routes_change_nothing)
  show "route_roles (Cancel_run 30) = Some [Role_admin]" by simp
  show "\<not> authorised (se_crypto fx_service) (fx_request ''K'') [Role_admin] fx_keyed"
    by (simp add: authorised_def fx_request_key fx_service_def fx_keyed_def)
qed

text \<open>
  A reviewer's key reaches the review items and nothing else: whatever route and body, a request
  authenticated as a reviewer leaves the catalogue, the keys, the runs, the items, the grades, the
  artifacts and the queues as they were, and on a route for administrators only it is answered 403.
\<close>

theorem reviewers_only_review:
  assumes "\<not> exempt q" and "extract_key q = Some raw" and "authenticate (se_crypto env) raw s = Inr (Some ctx)"
    and "ac_role ctx = Role_reviewer"
  shows "let (resp, s') = serve env q r s in
    task_sets s' = task_sets s \<and> tasks s' = tasks s \<and> model_endpoints s' = model_endpoints s \<and>
    eval_runs s' = eval_runs s \<and> run_items s' = run_items s \<and> grades s' = grades s \<and>
    api_keys s' = api_keys s \<and> redis s' = redis s \<and> evals_queue s' = evals_queue s \<and> dlq s' = dlq s \<and>
    map rv_id (review_items s') = map rv_id (review_items s) \<and>
    (route_roles r = Some [Role_admin] \<longrightarrow> rs_status resp = 403 \<and> review_items s' = review_items s)"
proof -
  let ?s1 = "snd (with_request_id q s)"
  have app: "application env q r s = request_context_dispatch (dispatch_route env r) q (Some ctx) s"
    using assms(1-3) by (cases rule: application_cases [of q env r s]) auto
  have s': "snd (serve env q r s) = snd (dispatch_route env r (Some ctx) ?s1)"
    by (simp add: snd_serve app snd_request_context)
  have denied: "dispatch_route env r (Some ctx) ?s1 = (Inr (json_detail 403 ''requires role in {admin}''), ?s1)"
    if "route_roles r = Some [Role_admin]"
    using that assms(4) by (simp add: dispatch_route_def require_role_def)
  have s1: "?s1 = s \<or> ?s1 = s\<lparr>uuid_next := uuid_next s + 1\<rparr>"
    using with_request_id_step [of q s] by (simp add: api_step_def)
  have admin: "rs_status (fst (serve env q r s)) = 403 \<and> snd (serve env q r s) = ?s1"
    if "route_roles r = Some [Role_admin]"
    using denied [OF that] by (simp add: serve_def app request_context_eq json_detail_def)
  have "snd (dispatch_route env r (Some ctx) ?s1) = ?s1 \<or>
      (\<exists>rop. snd (dispatch_route env r (Some ctx) ?s1) = review_step rop ?s1)"
  proof (cases "route_roles r = Some [Role_admin]")
    case True
    with denied show ?thesis by simp
  next
    case False
    then have "route_op (se_crypto env) r = None \<or> (\<exists>rop. route_op (se_crypto env) r = Some (Op_review rop))"
      by (cases r) simp_all
    with dispatch_state [of env r "Some ctx" ?s1] show ?thesis by (fastforce simp: api_step_def)
  qed
  moreover have "task_sets (review_step rop t) = task_sets t \<and> tasks (review_step rop t) = tasks t \<and>
      model_endpoints (review_step rop t) = model_endpoints t \<and> eval_runs (review_step rop t) = eval_runs t \<and>
      run_items (review_step rop t) = run_items t \<and> grades (review_step rop t) = grades t \<and>
      api_keys (review_step rop t) = api_keys t \<and> redis (review_step rop t) = redis t \<and>
      evals_queue (review_step rop t) = evals_queue t \<and> dlq (review_step rop t) = dlq t \<and>
      map rv_id (review_items (review_step rop t)) = map rv_id (review_items t)" for rop and t :: sys
    by (cases rule: review_step_cases [of rop t]) (simp_all add: map_sql_update)
  ultimately show ?thesis
    using s1 admin s' by (auto simp: case_prod_unfold Let_def)
qed

theorem reviewers_only_review_witness:
  "let (resp, s') = serve fx_service (fx_request ''K'') (Cancel_run 30) fx_keyed in
    eval_runs s' = eval_runs fx_keyed \<and> run_items s' = run_items fx_keyed \<and> rs_status resp = 403"
proof -
  have "authenticate (se_crypto fx_service) ''K'' fx_keyed =
      Inr (Some \<lparr>ac_api_key_id = 3, ac_name = ''rev'', ac_role = Role_reviewer\<rparr>)"
    using fx_keyed_authenticate by (simp add: fx_service_def)
  from reviewers_only_review [OF fx_request_key(2,1) this, of "Cancel_run 30"] show ?thesis
    by (simp add: case_prod_unfold Let_def)
qed

subsection \<open>The response\<close>

text \<open>
  A request whose key is known and has the role gets exactly the answer of its handler, or 422
  when its body is outside the schema, or 500 when the handler raises, and the answer carries the
  caller's request id or a fresh one. A request the key check turns away gets 401 without any
  request id, also when the caller sent one.
\<close>

theorem served_response:
  assumes "\<not> exempt q"
  shows "let ctx = context_of (se_crypto env) q s; (i, s1) = with_request_id q s in
    (ctx = Inr None \<longrightarrow> (\<exists>t. serve env q r s = (json_detail 401 t, s)) \<and>
       rs_request_id (fst (serve env q r s)) = None) \<and>
    (\<forall>c. ctx = Inr (Some c) \<and> (case route_roles r of None \<Rightarrow> True | Some roles \<Rightarrow> ac_role c \<in> set roles) \<longrightarrow>
       serve env q r s =
         (if \<not> valid_route r
          then ((json_detail 422 ''Unprocessable Entity'')\<lparr>rs_request_id := Some i\<rparr>, s1)
          else case handle env r s1 of
            (Inl e, s') \<Rightarrow> (json_detail 500 ''Internal Server Error'', s')
          | (Inr a, s') \<Rightarrow> (a\<lparr>rs_request_id := Some i\<rparr>, s')))"
proof -
  obtain i s1 where i: "with_request_id q s = (i, s1)" by fastforce
  have none: "(\<exists>t. serve env q r s = (json_detail 401 t, s)) \<and> rs_request_id (fst (serve env q r s)) = None"
    if "context_of (se_crypto env) q s = Inr None"
    using assms that
    by (cases rule: application_cases [of q env r s]) (auto simp: context_of_def serve_def json_detail_def)
  have known: "serve env q r s =
         (if \<not> valid_route r
          then ((json_detail 422 ''Unprocessable Entity'')\<lparr>rs_request_id := Some i\<rparr>, s1)
          else case handle env r s1 of
            (Inl e, s') \<Rightarrow> (json_detail 500 ''Internal Server Error'', s')
          | (Inr a, s') \<Rightarrow> (a\<lparr>rs_request_id := Some i\<rparr>, s'))"
    if c: "context_of (se_crypto env) q s = Inr (Some c)"
      and role: "case route_roles r of None \<Rightarrow> True | Some roles \<Rightarrow> ac_role c \<in> set roles" for c
  proof -
    have app: "application env q r s = request_context_dispatch (dispatch_route env r) q (Some c) s"
      using assms c by (cases rule: application_cases [of q env r s]) (auto simp: context_of_def)
    have "dispatch_route env r (Some c) s1 =
        (if valid_route r then handle env r s1 else (Inr (json_detail 422 ''Unprocessable Entity''), s1))"
      using role by (simp add: dispatch_route_def require_role_def split: option.splits)
    then show ?thesis
      by (simp add: serve_def app request_context_eq i split: prod.split sum.split)
  qed
  show ?thesis unfolding Let_def i case_prod_conv using none known by blast
qed

theorem served_response_witness:
  "serve fx_service (fx_request ''K'') Queue_stats fx_keyed =
     (\<lparr>rs_status = 200, rs_body = Answer (A_stats (review_queue_stats fx_keyed)), rs_request_id = Some ''r1''\<rparr>, fx_keyed)"
proof -
  have c: "context_of (se_crypto fx_service) (fx_request ''K'') fx_keyed =
      Inr (Some \<lparr>ac_api_key_id = 3, ac_name = ''rev'', ac_role = Role_reviewer\<rparr>)"
    using fx_keyed_authenticate by (simp add: context_of_def fx_request_key) (simp add: fx_service_def)
  have i: "with_request_id (fx_request ''K'') fx_keyed = (''r1'', fx_keyed)"
    by (simp add: with_request_id_def fx_request_def)
  from served_response [OF fx_request_key(2), of fx_service fx_keyed Queue_stats] show ?thesis
    by (simp add: c i ok_def)
qed

text \<open>
  Readiness: 200 with status ok exactly when the database probe and the Redis ping both succeed,
  503 degraded otherwise; the broker is reported as Redis is, and a failed check carries the text
  of its exception.
\<close>

theorem readiness_reports:
  "let (code, body) = readyz p in
    (code = 200 \<longleftrightarrow> postgres_probe p = None \<and> redis_probe p = None) \<and> code \<in> {200, 503} \<and>
    (rdy_status body = ''ok'' \<longleftrightarrow> code = 200) \<and> map fst (rdy_checks body) = [''postgres'', ''redis'', ''broker''] \<and>
    map_of (rdy_checks body) ''broker'' = map_of (rdy_checks body) ''redis'' \<and>
    list_all (\<lambda>(_, c). (ck_status c = ''ok'') = (ck_error c = None)) (rdy_checks body)"
  by (cases "postgres_probe p"; cases "redis_probe p")
     (simp_all add: readyz_def readiness_checks_def check_of_def Let_def)

end
