(* ===== verification/Routing.thy ===== *)
theory Routing
  imports Service_Facts
begin

text \<open>
  From the method and the path of a request to the handler: the decorators of \<open>app/api/v1\<close>, the prefixes
  of \<open>app/api/v1/router.py\<close> and \<open>app/main.py\<close>, and what each handler's signature takes from path, query
  and body. Matching is what FastAPI and Starlette document: routes are tried in the order of their
  registration, a parameter stands for one non-empty segment, a path that fits only with another method
  is answered 405, one that fits only with or without its last slash is redirected. The framework's own
  pages (\<open>/docs\<close> and the like) come first; what they answer is an argument, as is what pydantic reads
  from query and body (\<open>request_data\<close>, None where a value is not of its type).
\<close>

subsection \<open>The routers\<close>

datatype endpoint =
    E_create_task_set | E_list_task_sets | E_get_task_set | E_create_task
  | E_create_model | E_list_models | E_get_model
  | E_create_run | E_get_run | E_cancel_run | E_list_dead_letters | E_replay
  | E_list_queue | E_queue_stats | E_claim | E_resolve
  | E_leaderboard | E_history | E_capabilities
  | E_create_key | E_list_keys | E_delete_key
  | E_healthz | E_readyz | E_metrics

record route_decl =
  rd_method :: string
  rd_path :: string
  rd_endpoint :: endpoint
  rd_status :: int
  rd_roles :: "api_key_role list option"

definition api_route :: "api_key_role list \<Rightarrow> string \<Rightarrow> string \<Rightarrow> endpoint \<Rightarrow> int \<Rightarrow> route_decl" where
  "api_route roles m path e status =
     \<lparr>rd_method = m, rd_path = path, rd_endpoint = e, rd_status = status, rd_roles = Some roles\<rparr>"

definition task_sets_router :: "route_decl list" where
  "task_sets_router =
     (let route = api_route [Role_admin] in
      [route ''POST'' '''' E_create_task_set 201,
       route ''GET'' '''' E_list_task_sets 200,
       route ''GET'' ''/{task_set_id}'' E_get_task_set 200,
       route ''POST'' ''/{task_set_id}/tasks'' E_create_task 201])"

definition model_endpoints_router :: "route_decl list" where
  "model_endpoints_router =
     (let route = api_route [Role_admin] in
      [route ''POST'' '''' E_create_model 201,
       route ''GET'' '''' E_list_models 200,
       route ''GET'' ''/{endpoint_id}'' E_get_model 200])"

definition eval_runs_router :: "route_decl list" where
  "eval_runs_router =
     (let route = api_route [Role_admin] in
      [route ''POST'' '''' E_create_run 202,
       route ''GET'' ''/{eval_run_id}'' E_get_run 200,
       route ''POST'' ''/{eval_run_id}/cancel'' E_cancel_run 200,
       route ''GET'' ''/{eval_run_id}/dead-letters'' E_list_dead_letters 200])"

definition dead_letters_router :: "route_decl list" where
  "dead_letters_router = [api_route [Role_admin] ''POST'' ''/{run_item_id}/replay'' E_replay 202]"

definition review_queue_router :: "route_decl list" where
  "review_queue_router =
     (let route = api_route [Role_admin, Role_reviewer] in
      [route ''GET'' '''' E_list_queue 200,
       route ''GET'' ''/stats'' E_queue_stats 200,
       route ''POST'' ''/{review_item_id}/claim'' E_claim 200,
       route ''POST'' ''/{review_item_id}/resolve'' E_resolve 200])"

definition leaderboard_router :: "route_decl list" where
  "leaderboard_router =
     (let route = api_route [Role_admin, Role_reviewer] in
      [route ''GET'' '''' E_leaderboard 200,
       route ''GET'' ''/history'' E_history 200,
       route ''GET'' ''/capabilities'' E_capabilities 200])"

definition api_keys_router :: "route_decl list" where
  "api_keys_router =
     (let route = api_route [Role_admin] in
      [route ''POST'' '''' E_create_key 201,
       route ''GET'' '''' E_list_keys 200,
       route ''DELETE'' ''/{api_key_id}'' E_delete_key 204])"

definition include_router :: "string \<Rightarrow> route_decl list \<Rightarrow> route_decl list" where
  "include_router prefix routes = map (\<lambda>d. d\<lparr>rd_path := prefix @ rd_path d\<rparr>) routes"

definition api_router :: "route_decl list" where
  "api_router =
     include_router ''/task-sets'' task_sets_router @
     include_router ''/models'' model_endpoints_router @
     include_router ''/eval-runs'' eval_runs_router @
     include_router ''/dead-letters'' dead_letters_router @
     include_router ''/review-queue'' review_queue_router @
     include_router ''/leaderboard'' leaderboard_router @
     include_router ''/api-keys'' api_keys_router"

definition app_route :: "string \<Rightarrow> endpoint \<Rightarrow> route_decl" where
  "app_route path e = \<lparr>rd_method = ''GET'', rd_path = path, rd_endpoint = e, rd_status = 200, rd_roles = None\<rparr>"

definition app_routes :: "route_decl list" where
  "app_routes = include_router ''/v1'' api_router @
     [app_route ''/healthz'' E_healthz, app_route ''/readyz'' E_readyz, app_route ''/metrics'' E_metrics]"

subsection \<open>Matching\<close>

definition is_param :: "string \<Rightarrow> bool" where
  "is_param seg \<longleftrightarrow> (case seg of [] \<Rightarrow> False | c # _ \<Rightarrow> c = CHR ''{'')"

fun match_segments :: "string list \<Rightarrow> string list \<Rightarrow> string list option" where
  "match_segments [] [] = Some []"
| "match_segments (t # ts) (p # ps) =
     (if is_param t then (if p = [] then None else map_option (Cons p) (match_segments ts ps))
      else if t = p then match_segments ts ps else None)"
| "match_segments _ _ = None"

definition path_match :: "string \<Rightarrow> string \<Rightarrow> string list option" where
  "path_match template path = match_segments (split_on CHR ''/'' template) (split_on CHR ''/'' path)"

datatype resolution =
    Matched route_decl "string list" | Own_page | Method_not_allowed | Slash_redirect | No_match

definition FRAMEWORK_PATHS :: "string list" where
  "FRAMEWORK_PATHS = [''/openapi.json'', ''/docs'', ''/docs/oauth2-redirect'', ''/redoc'']"

definition other_slash :: "string \<Rightarrow> string" where
  "other_slash path =
     (if path \<noteq> [] \<and> last path = CHR ''/'' then rev (dropWhile (\<lambda>c. c = CHR ''/'') (rev path)) else path @ ''/'')"

definition known_path :: "string \<Rightarrow> bool" where
  "known_path path \<longleftrightarrow> path \<in> set FRAMEWORK_PATHS \<or> list_ex (\<lambda>d. path_match (rd_path d) path \<noteq> None) app_routes"

definition find_route :: "string \<Rightarrow> string \<Rightarrow> resolution" where
  "find_route m path =
     (if path \<in> set FRAMEWORK_PATHS
      then (if m \<in> {''GET'', ''HEAD''} then Own_page else Method_not_allowed)
      else case find (\<lambda>d. rd_method d = m \<and> path_match (rd_path d) path \<noteq> None) app_routes of
        Some d \<Rightarrow> Matched d (the (path_match (rd_path d) path))
      | None \<Rightarrow>
          if known_path path then Method_not_allowed
          else if path \<noteq> ''/'' \<and> known_path (other_slash path) then Slash_redirect
          else No_match)"

subsection \<open>Parameters\<close>

text \<open>
  Ids arrive as text. \<open>rq_salt\<close> and \<open>rq_raw\<close> are what \<open>secrets\<close> draws if the request creates a key;
  \<open>rq_bad_json\<close> says that the body is not JSON at all, which is answered before any dependency runs.
\<close>

record request_data =
  rq_bad_json :: bool
  rq_task_set :: "task_set_create option"
  rq_task :: "task_create option"
  rq_model :: "model_endpoint_create option"
  rq_run :: "(string \<times> string list) option"
  rq_resolve :: "resolve_request option"
  rq_key :: "api_key_create option"
  rq_queue :: "(review_status option \<times> string option \<times> int option) option"
  rq_leaderboard :: "(string option \<times> string option) option"
  rq_model_name :: "string option"
  rq_model_endpoint_id :: "string option"
  rq_salt :: bytes
  rq_raw :: string
  rq_page :: "answer http_response"

text \<open>A request without query and body.\<close>

definition no_data :: request_data where
  "no_data = \<lparr>rq_bad_json = False, rq_task_set = None, rq_task = None, rq_model = None, rq_run = None,
     rq_resolve = None, rq_key = None, rq_queue = None, rq_leaderboard = None, rq_model_name = None,
     rq_model_endpoint_id = None, rq_salt = [], rq_raw = [], rq_page = json_detail 200 []\<rparr>"

definition with_default :: "'c \<Rightarrow> 'c option \<Rightarrow> 'c" where
  "with_default d x = (case x of None \<Rightarrow> d | Some v \<Rightarrow> v)"

definition optional_uuid :: "service_env \<Rightarrow> string option \<Rightarrow> uuid option option" where
  "optional_uuid env x = (case x of None \<Rightarrow> Some None | Some t \<Rightarrow> map_option Some (se_uuid env t))"

definition both :: "('x \<Rightarrow> 'y \<Rightarrow> 'z) \<Rightarrow> 'x option \<Rightarrow> 'y option \<Rightarrow> 'z option" where
  "both f x y = (case (x, y) of (Some a, Some b) \<Rightarrow> Some (f a b) | _ \<Rightarrow> None)"

text \<open>The signatures of the handlers; None is a parameter or body that cannot be read.\<close>

fun bind_route :: "service_env \<Rightarrow> request_data \<Rightarrow> endpoint \<Rightarrow> string list \<Rightarrow> route option" where
  "bind_route env rq E_create_task_set [] = map_option Create_task_set (rq_task_set rq)"
| "bind_route env rq E_list_task_sets [] = Some List_task_sets"
| "bind_route env rq E_get_task_set [task_set_id] = map_option Get_task_set (se_uuid env task_set_id)"
| "bind_route env rq E_create_task [task_set_id] = both Create_task (se_uuid env task_set_id) (rq_task rq)"
| "bind_route env rq E_create_model [] = map_option Create_model (rq_model rq)"
| "bind_route env rq E_list_models [] = Some List_models"
| "bind_route env rq E_get_model [endpoint_id] = map_option Get_model (se_uuid env endpoint_id)"
| "bind_route env rq E_create_run [] =
     (case rq_run rq of
        None \<Rightarrow> None
      | Some (task_set_id, ids) \<Rightarrow> both Create_run (se_uuid env task_set_id) (those (map (se_uuid env) ids)))"
| "bind_route env rq E_get_run [eval_run_id] = map_option Get_run (se_uuid env eval_run_id)"
| "bind_route env rq E_cancel_run [eval_run_id] = map_option Cancel_run (se_uuid env eval_run_id)"
| "bind_route env rq E_list_dead_letters [eval_run_id] = map_option List_dead_letters (se_uuid env eval_run_id)"
| "bind_route env rq E_replay [run_item_id] = map_option Replay (se_uuid env run_item_id)"
| "bind_route env rq E_list_queue [] =
     map_option (\<lambda>(st, capability, limit). List_queue (with_default RS_open st) capability (with_default 50 limit))
       (rq_queue rq)"
| "bind_route env rq E_queue_stats [] = Some Queue_stats"
| "bind_route env rq E_claim [review_item_id] = map_option Claim_item (se_uuid env review_item_id)"
| "bind_route env rq E_resolve [review_item_id] = both Resolve_item (se_uuid env review_item_id) (rq_resolve rq)"
| "bind_route env rq E_leaderboard [] =
     (case rq_leaderboard rq of
        None \<Rightarrow> None
      | Some (task_set_id, capability) \<Rightarrow>
          map_option (\<lambda>k. Leaderboard k capability) (optional_uuid env task_set_id))"
| "bind_route env rq E_history [] = map_option History (rq_model_name rq)"
| "bind_route env rq E_capabilities [] =
     (case rq_model_endpoint_id rq of None \<Rightarrow> None | Some t \<Rightarrow> map_option Capabilities (se_uuid env t))"
| "bind_route env rq E_create_key [] = map_option (Create_key (rq_salt rq) (rq_raw rq)) (rq_key rq)"
| "bind_route env rq E_list_keys [] = Some List_keys"
| "bind_route env rq E_delete_key [api_key_id] = map_option Remove_key (se_uuid env api_key_id)"
| "bind_route env rq E_healthz [] = Some Healthz"
| "bind_route env rq E_readyz [] = Some Readyz"
| "bind_route env rq E_metrics [] = Some Metrics"
| "bind_route env rq _ _ = None"

definition reads_body :: "endpoint \<Rightarrow> bool" where
  "reads_body e \<longleftrightarrow> e \<in> {E_create_task_set, E_create_task, E_create_model, E_create_run, E_resolve, E_create_key}"

subsection \<open>The service over HTTP\<close>

definition unprocessable :: "answer http_response" where
  "unprocessable = json_detail 422 ''Unprocessable Entity''"

definition route_request :: "service_env \<Rightarrow> request_data \<Rightarrow> http_request \<Rightarrow> auth_context option \<Rightarrow> sys \<Rightarrow> handled" where
  "route_request env rq q ctx s =
     (case find_route (hr_method q) (hr_path q) of
        Own_page \<Rightarrow> (Inr (rq_page rq), s)
      | Method_not_allowed \<Rightarrow> (Inr (json_detail 405 ''Method Not Allowed''), s)
      | Slash_redirect \<Rightarrow> (Inr (json_detail 307 ''''), s)
      | No_match \<Rightarrow> (Inr (json_detail 404 ''Not Found''), s)
      | Matched d ps \<Rightarrow>
          if reads_body (rd_endpoint d) \<and> rq_bad_json rq then (Inr unprocessable, s)
          else case bind_route env rq (rd_endpoint d) ps of
            Some r \<Rightarrow> dispatch_route env r ctx s
          | None \<Rightarrow>
              (case (case rd_roles d of None \<Rightarrow> Inr () | Some roles \<Rightarrow> require_role roles ctx) of
                 Inl (HTTPException code detail) \<Rightarrow> (Inr (json_detail code detail), s)
               | Inr _ \<Rightarrow> (Inr unprocessable, s)))"

definition create_app :: "service_env \<Rightarrow> request_data \<Rightarrow> http_request \<Rightarrow> sys \<Rightarrow> handled" where
  "create_app env rq q =
     api_key_dispatch (se_crypto env) (request_context_dispatch (route_request env rq q) q) q"

definition serve_http :: "service_env \<Rightarrow> request_data \<Rightarrow> http_request \<Rightarrow> sys \<Rightarrow> answer http_response \<times> sys" where
  "serve_http env rq q s =
     (case create_app env rq q s of
        (Inl _, s') \<Rightarrow> (json_detail 500 ''Internal Server Error'', s')
      | (Inr response, s') \<Rightarrow> (response, s'))"

subsection \<open>One request, one route\<close>

text \<open>Two templates clash in some segment when no path fits both.\<close>

fun segments_clash :: "string list \<Rightarrow> string list \<Rightarrow> bool" where
  "segments_clash [] [] \<longleftrightarrow> False"
| "segments_clash (t # ts) (u # us) \<longleftrightarrow> (\<not> is_param t \<and> \<not> is_param u \<and> t \<noteq> u) \<or> segments_clash ts us"
| "segments_clash _ _ \<longleftrightarrow> True"

lemma match_clash:
  "match_segments ts ps \<noteq> None \<Longrightarrow> match_segments us ps \<noteq> None \<Longrightarrow> \<not> segments_clash ts us"
proof (induction ps arbitrary: ts us)
  case Nil
  then show ?case by (cases ts; cases us) auto
next
  case (Cons p ps)
  then show ?case by (cases ts; cases us) (auto split: if_splits)
qed

definition segments :: "string \<Rightarrow> string list" where
  "segments template = split_on CHR ''/'' template"

lemma routes_clash:
  "list_all (\<lambda>d. list_all (\<lambda>e. d = e \<or> rd_method d \<noteq> rd_method e \<or>
     segments_clash (segments (rd_path d)) (segments (rd_path e))) app_routes) app_routes"
  by code_simp

lemma routes_apart_from_pages:
  "list_all (\<lambda>p. list_all (\<lambda>d. match_segments (segments (rd_path d)) (segments p) = None) app_routes) FRAMEWORK_PATHS"
  by code_simp

lemma one_route:
  assumes "d \<in> set app_routes" and "e \<in> set app_routes" and "rd_method d = rd_method e"
    and "path_match (rd_path d) path \<noteq> None" and "path_match (rd_path e) path \<noteq> None"
  shows "d = e"
  using routes_clash match_clash [OF assms(4,5) [unfolded path_match_def]] assms(1-3)
  by (simp add: list_all_iff segments_def) blast

lemma own_page_unmatched: "path \<in> set FRAMEWORK_PATHS \<Longrightarrow> d \<in> set app_routes \<Longrightarrow> path_match (rd_path d) path = None"
  using routes_apart_from_pages by (simp add: list_all_iff segments_def path_match_def)

lemma find_route_Matched:
  assumes "find_route m path = Matched d ps"
  shows "d \<in> set app_routes \<and> rd_method d = m \<and> path_match (rd_path d) path = Some ps"
  using assms by (auto simp: find_route_def find_Some_iff split: if_splits option.splits)

lemma declared_route_taken:
  assumes "d \<in> set app_routes" and "rd_method d = m" and "path_match (rd_path d) path = Some ps"
  shows "find_route m path = Matched d ps"
proof -
  let ?P = "\<lambda>d. rd_method d = m \<and> path_match (rd_path d) path \<noteq> None"
  have "path \<notin> set FRAMEWORK_PATHS" using own_page_unmatched assms by fastforce
  moreover obtain e where e: "find ?P app_routes = Some e"
    using assms by (cases "find ?P app_routes") (auto simp: find_None_iff)
  moreover from e have "e \<in> set app_routes" "?P e" by (auto simp: find_Some_iff)
  then have "e = d" using one_route assms by fastforce
  ultimately show ?thesis using assms by (simp add: find_route_def)
qed

text \<open>
  C13. A request has one route: whatever declared route fits the method and the path of a request is the
  one that is taken, with the parameters that its template names, so the order in which the routers are
  included is immaterial, no parameter captures a fixed word such as \<open>stats\<close>, and none of the
  framework's own pages hides a route. What fits no route gets none.
\<close>

theorem requests_have_one_route:
  "find_route m path = Matched d ps \<longleftrightarrow>
   d \<in> set app_routes \<and> rd_method d = m \<and> path_match (rd_path d) path = Some ps"
  using find_route_Matched declared_route_taken by blast

subsection \<open>Paths with an id\<close>

lemma digit_char_above: "d < 16 \<Longrightarrow> 47 < (of_char (digit_char d) :: nat)"
  by (auto simp: digit_char_def)

lemma hex_nat_above: "c \<in> set (hex_nat n) \<Longrightarrow> 47 < (of_char c :: nat)"
proof (induction n rule: hex_nat.induct)
  case (1 n)
  then show ?case
    using digit_char_above [of n] digit_char_above [of "n mod 16"]
    by (cases "n < 16") (auto simp: hex_nat.simps [of n])
qed

lemma uuid_str_no_slash: "CHR ''/'' \<notin> set (uuid_str u)"
proof
  assume "CHR ''/'' \<in> set (uuid_str u)"
  then have "CHR ''/'' \<in> set (filter (\<lambda>c. c \<noteq> CHR ''-'') (uuid_str u))" by simp
  then have "CHR ''/'' \<in> set (hex32 u)" by (simp only: undash_uuid_str)
  then show False using hex_nat_above [of "CHR ''/''" u] by (auto simp: hex32_def Let_def split: if_splits)
qed

lemma uuid_str_not_Nil [simp]: "uuid_str u \<noteq> []"
  by (simp add: uuid_str_def Let_def)

lemma path_match_join:
  assumes "ws \<noteq> []" and "list_all (\<lambda>w. CHR ''/'' \<notin> set w) ws"
  shows "path_match template (join ''/'' ws) = match_segments (segments template) ws"
  using split_on_join [OF assms] by (simp add: path_match_def segments_def)

subsection \<open>Without a key\<close>

text \<open>The role dependency that the routers declare is the one of the handler's route.\<close>

fun endpoint_roles :: "endpoint \<Rightarrow> api_key_role list option" where
  "endpoint_roles E_healthz = None"
| "endpoint_roles E_readyz = None"
| "endpoint_roles E_metrics = None"
| "endpoint_roles e =
     Some (if e \<in> {E_list_queue, E_queue_stats, E_claim, E_resolve, E_leaderboard, E_history, E_capabilities}
       then [Role_admin, Role_reviewer] else [Role_admin])"

lemma declared_roles: "list_all (\<lambda>d. rd_roles d = endpoint_roles (rd_endpoint d)) app_routes"
  by code_simp

lemma bound_roles:
  assumes "bind_route env rq e ps = Some r"
  shows "route_roles r = endpoint_roles e"
  using assms
  by (cases "(env, rq, e, ps)" rule: bind_route.cases) (simp_all add: both_def split: option.splits prod.splits, auto)

lemma bind_route_roles:
  assumes "bind_route env rq (rd_endpoint d) ps = Some r" and "d \<in> set app_routes"
  shows "route_roles r = rd_roles d"
  using declared_roles bound_roles [OF assms(1)] assms(2) by (simp add: list_all_iff)

lemma exempt_routes:
  "list_all (\<lambda>p. list_all (\<lambda>d. match_segments (segments (rd_path d)) (segments p) = None \<or> rd_roles d = None) app_routes)
    EXEMPT_PATHS"
  by code_simp

lemma no_options_route: "list_all (\<lambda>d. rd_method d \<noteq> ''OPTIONS'') app_routes"
  by code_simp

lemma open_routes: "list_all (\<lambda>d. rd_roles d = None \<longrightarrow> rd_path d \<in> set EXEMPT_PATHS) app_routes"
  by code_simp

text \<open>What anyone may see: error texts, health, readiness and metrics.\<close>

fun public_body :: "answer body \<Rightarrow> bool" where
  "public_body (Detail t) \<longleftrightarrow> True"
| "public_body (Answer (A_health t)) \<longleftrightarrow> True"
| "public_body (Answer (A_ready x)) \<longleftrightarrow> True"
| "public_body (Answer A_metrics) \<longleftrightarrow> True"
| "public_body _ \<longleftrightarrow> False"

definition public_response :: "request_data \<Rightarrow> http_request \<Rightarrow> answer body \<Rightarrow> bool" where
  "public_response rq q b \<longleftrightarrow> public_body b \<or> (hr_path q \<in> set FRAMEWORK_PATHS \<and> b = rs_body (rq_page rq))"

lemma public_detail [simp]: "public_response rq q (Detail t)" "public_response rq q (rs_body (json_detail c t))"
  by (simp_all add: public_response_def json_detail_def)

text \<open>An exempt request finds no route with a role, so its handler changes nothing.\<close>

lemma open_handler:
  assumes "route_roles r = None"
  shows "\<exists>resp. dispatch_route env r None s = (Inr resp, s) \<and> public_body (rs_body resp)"
  using assms
  by (cases r) (auto simp: dispatch_route_def readyz_def Let_def ok_def json_detail_def split: prod.splits)

lemma exempt_request:
  assumes "exempt q"
  shows "\<exists>resp. route_request env rq q None s = (Inr resp, s) \<and> public_response rq q (rs_body resp)"
proof (cases "find_route (hr_method q) (hr_path q)")
  case (Matched d ps)
  then have d: "d \<in> set app_routes" "rd_method d = hr_method q" "path_match (rd_path d) (hr_path q) = Some ps"
    using find_route_Matched by blast+
  then have "hr_path q \<in> set EXEMPT_PATHS"
    using assms no_options_route by (auto simp: exempt_def list_all_iff)
  with exempt_routes d have roles: "rd_roles d = None"
    by (fastforce simp: list_all_iff path_match_def segments_def)
  show ?thesis
  proof (cases "bind_route env rq (rd_endpoint d) ps")
    case None
    with roles show ?thesis by (simp add: route_request_def Matched unprocessable_def)
  next
    case (Some r)
    then have "route_roles r = None" using bind_route_roles [OF Some d(1)] roles by simp
    with open_handler [of r env s] Some show ?thesis
      by (auto simp: route_request_def Matched unprocessable_def public_response_def json_detail_def)
  qed
next
  case Own_page
  then have "hr_path q \<in> set FRAMEWORK_PATHS" by (auto simp: find_route_def split: if_splits option.splits)
  then show ?thesis by (simp add: route_request_def Own_page public_response_def)
qed (simp_all add: route_request_def)

text \<open>
  C8. Without a key the service is closed: a request that presents no key stored in the database, and
  any request to a path exempt from the check, leaves the state as it was (at most its request id was
  drawn), whatever its method, path, query and body; and all it can see is an error text, health,
  readiness, the metrics or a page of the framework.
\<close>

theorem keyless_requests_see_nothing:
  assumes "exempt q \<or> \<not> authorised (se_crypto env) q [Role_admin, Role_reviewer] s"
  shows "let (resp, s') = serve_http env rq q s in
    (s' = s \<or> s' = s\<lparr>uuid_next := uuid_next s + 1\<rparr>) \<and> public_response rq q (rs_body resp)"
proof (cases rule: api_key_cases [of q "se_crypto env" "request_context_dispatch (route_request env rq q) q" s])
  case exempt
  let ?s1 = "snd (with_request_id q s)"
  obtain resp where "route_request env rq q None ?s1 = (Inr resp, ?s1)" "public_response rq q (rs_body resp)"
    using exempt_request [OF exempt(1)] by blast
  with exempt(2) with_request_id_step [of q s] show ?thesis
    by (auto simp: serve_http_def create_app_def request_context_eq api_step_def)
next
  case (known raw ctx)
  from authenticate_sound [OF known(3)] assms known(1,2) have "ac_role ctx \<notin> set [Role_admin, Role_reviewer]"
    by (auto simp: authorised_def list_ex_iff)
  then show ?thesis by (cases "ac_role ctx") simp_all
qed (simp_all add: serve_http_def create_app_def)

definition fx_anonymous :: http_request where
  "fx_anonymous = \<lparr>hr_method = ''POST'', hr_path = ''/v1/api-keys'', hr_x_api_key = None,
     hr_authorization = Some ''Basic x'', hr_x_request_id = None\<rparr>"

definition fx_key_data :: request_data where
  "fx_key_data = no_data\<lparr>rq_key := Some \<lparr>akc_name = ''x'', akc_role = Role_admin\<rparr>\<rparr>"

theorem keyless_requests_see_nothing_witness:
  "let (resp, s') = serve_http fx_service fx_key_data fx_anonymous fx_keyed in
    (s' = fx_keyed \<or> s' = fx_keyed\<lparr>uuid_next := uuid_next fx_keyed + 1\<rparr>) \<and>
    public_response fx_key_data fx_anonymous (rs_body resp)"
  by (rule keyless_requests_see_nothing)
     (simp add: authorised_def extract_key_def fx_anonymous_def starts_with_def)

subsection \<open>With the wrong key\<close>

lemma refused_dependency:
  assumes "isl (require_role roles ctx)"
  shows "\<exists>code t. code \<in> {401, 403} \<and> require_role roles ctx = Inl (HTTPException code t)"
  using assms by (auto simp: require_role_def split: option.splits if_splits)

lemma refused_route:
  assumes "find_route (hr_method q) (hr_path q) = Matched d ps" and "rd_roles d = Some roles"
    and "isl (require_role roles ctx)"
  shows "\<exists>code t. code \<in> {401, 403, 422} \<and> (\<not> rq_bad_json rq \<longrightarrow> code \<noteq> 422) \<and>
    route_request env rq q ctx s = (Inr (json_detail code t), s)"
proof -
  obtain code t where refused: "code \<in> {401, 403}" "require_role roles ctx = Inl (HTTPException code t)"
    using refused_dependency [OF assms(3)] by blast
  have "route_roles r = Some roles" if "bind_route env rq (rd_endpoint d) ps = Some r" for r
    using bind_route_roles [OF that] find_route_Matched [OF assms(1)] assms(2) by simp
  then show ?thesis
    using refused assms(1,2)
    by (auto simp: route_request_def dispatch_route_def unprocessable_def split: option.split)
qed



subsection \<open>Requests over HTTP as steps of the world\<close>

text \<open>With its route found and its parameters read, a request is served as before.\<close>

lemma serve_http_route:
  assumes "find_route (hr_method q) (hr_path q) = Matched d ps"
    and "\<not> (reads_body (rd_endpoint d) \<and> rq_bad_json rq)" and "bind_route env rq (rd_endpoint d) ps = Some r"
  shows "serve_http env rq q s = serve env q r s"
proof -
  have "route_request env rq q = dispatch_route env r"
    using assms by (intro ext) (auto simp: route_request_def)
  then show ?thesis by (simp add: serve_http_def create_app_def serve_def application_def)
qed

lemma route_request_state:
  "snd (route_request env rq q ctx s) = s \<or> (\<exists>op. snd (route_request env rq q ctx s) = api_step op s)"
proof (cases "\<exists>r. route_request env rq q ctx s = dispatch_route env r ctx s")
  case True
  then show ?thesis using dispatch_state [of env _ ctx s] by metis
next
  case False
  then show ?thesis by (auto simp: route_request_def split: resolution.split option.split sum.split http_error.split)
qed

lemma serve_http_keeps:
  assumes "\<And>op s. P s \<Longrightarrow> P (api_step op s)" and "P s"
  shows "P (snd (serve_http env rq q s))"
proof -
  have "P (snd (with_request_id q s))"
    using with_request_id_step [of q s] assms(1) [OF assms(2), of Op_request_id] assms(2) by metis
  then have disp: "P (snd (request_context_dispatch (route_request env rq q) q ctx s))" for ctx
    using route_request_state [of env rq q ctx "snd (with_request_id q s)"] assms(1)
    unfolding snd_request_context by metis
  have "snd (serve_http env rq q s) = snd (create_app env rq q s)"
    by (simp add: serve_http_def split: prod.split sum.split)
  then show ?thesis
    unfolding create_app_def
    by (cases rule: api_key_cases [of q "se_crypto env" "request_context_dispatch (route_request env rq q) q" s])
       (simp_all add: assms(2) disp)
qed


end
