(* ===== verification/Providers.thy ===== *)
theory Providers
  imports ProviderBase PyParse
begin

text \<open>
  The adapters of \<open>app/providers\<close>: \<open>openai.py\<close>, \<open>anthropic.py\<close>, \<open>fake.py\<close> and \<open>get_provider\<close>. The HTTP
  client is an argument: for the running number of the call, the URL, the headers and the payload it
  gives the outcome (a timeout, another transport error, or a response with its status, its text and
  what \<open>response.json()\<close> does) and the measured latency. So are the texts of the interpreter's own
  exceptions, \<open>repr\<close> of a container or float, and SHA-256.

  The two HTTP adapters satisfy one contract, the locale \<open>http_adapter\<close>, from which their error
  mapping follows once.
\<close>

datatype http_outcome =
    Timed_out string
  | Transport_error string
  | Response int string "exn + json"

record http_env =
  http_post :: "nat \<Rightarrow> string \<Rightarrow> (string \<times> string) list \<Rightarrow> json \<Rightarrow> http_outcome \<times> int"
  exc_str :: "exn \<Rightarrow> string"
  py_repr :: "json \<Rightarrow> string"

definition RETRYABLE_STATUS :: "int list" where
  "RETRYABLE_STATUS = [429, 500, 502, 503, 504]"

subsection \<open>Reading a response body\<close>

definition andThen :: "'e + 'a \<Rightarrow> ('a \<Rightarrow> 'e + 'b) \<Rightarrow> 'e + 'b" where
  "andThen r f = (case r of Inl e \<Rightarrow> Inl e | Inr x \<Rightarrow> f x)"

text \<open>
  \<open>int(v)\<close> on a JSON value. A float truncates; from \<open>2 ^ 53\<close> on its decimal and its value differ,
  which no token column can hold.
\<close>

definition int_of_json :: "json \<Rightarrow> exn + int" where
  "int_of_json v =
     (case v of
        JInt i \<Rightarrow> Inr i
      | JBool b \<Rightarrow> Inr (if b then 1 else 0)
      | JFloat r \<Rightarrow> Inr (if r < 0 then - \<lfloor>- r\<rfloor> else \<lfloor>r\<rfloor>)
      | JNaN \<Rightarrow> Inl (ValueError ''cannot convert float NaN to integer'')
      | JInfinity _ \<Rightarrow> Inl (OverflowError ''cannot convert float infinity to integer'')
      | JStr s \<Rightarrow> (case py_int s of
            None \<Rightarrow> Inl (ValueError ''invalid literal for int() with base 10'') | Some i \<Rightarrow> Inr i)
      | _ \<Rightarrow> Inl (TypeError ''int() argument must be a string, a bytes-like object or a real number''))"

definition str_of_json :: "http_env \<Rightarrow> json \<Rightarrow> string" where
  "str_of_json env v =
     (case v of
        JStr s \<Rightarrow> s
      | JNull \<Rightarrow> ''None''
      | JBool b \<Rightarrow> if b then ''True'' else ''False''
      | JInt i \<Rightarrow> show_int i
      | _ \<Rightarrow> py_repr env v)"

text \<open>The \<open>try\<close> blocks: the content and the two token counts.\<close>

definition openai_read :: "json \<Rightarrow> exn + json \<times> int \<times> int" where
  "openai_read body =
     andThen (andThen (andThen (andThen (json_key body ''choices'') (\<lambda>v. json_index v 0))
       (\<lambda>v. json_key v ''message'')) (\<lambda>v. json_key v ''content'')) (\<lambda>content.
     andThen (json_key body ''usage'') (\<lambda>usage.
     andThen (andThen (json_key usage ''prompt_tokens'') int_of_json) (\<lambda>prompt_tokens.
     andThen (andThen (json_key usage ''completion_tokens'') int_of_json) (\<lambda>completion_tokens.
     Inr (content, prompt_tokens, completion_tokens)))))"

definition anthropic_read :: "json \<Rightarrow> exn + json \<times> int \<times> int" where
  "anthropic_read body =
     andThen (andThen (andThen (json_key body ''content'') (\<lambda>v. json_index v 0))
       (\<lambda>v. json_key v ''text'')) (\<lambda>content.
     andThen (json_key body ''usage'') (\<lambda>usage.
     andThen (andThen (json_key usage ''input_tokens'') int_of_json) (\<lambda>prompt_tokens.
     andThen (andThen (json_key usage ''output_tokens'') int_of_json) (\<lambda>completion_tokens.
     Inr (content, prompt_tokens, completion_tokens)))))"

definition caught :: "exn \<Rightarrow> bool" where
  "caught e \<longleftrightarrow> (case e of KeyError _ \<Rightarrow> True | IndexError _ \<Rightarrow> True | TypeError _ \<Rightarrow> True | _ \<Rightarrow> False)"

subsection \<open>The HTTP adapters\<close>

definition openai_payload :: "string \<Rightarrow> string \<Rightarrow> json" where
  "openai_payload prompt model_id = JObj
     [(''model'', JStr model_id),
      (''messages'', JArr [JObj [(''role'', JStr ''user''), (''content'', JStr prompt)]])]"

definition openai_provider :: "http_env \<Rightarrow> string \<Rightarrow> provider" where
  "openai_provider env api_key base_url prompt model_id n =
     (if api_key = [] then Inl (NonRetryableProviderError ''OPENAI_API_KEY is not set'')
      else
        let url = rstrip_char CHR ''/'' (case base_url of None \<Rightarrow> ''https://api.openai.com/v1'' | Some u \<Rightarrow> u)
                    @ ''/chat/completions'';
            (outcome, latency_ms) = http_post env n url
              [(''Authorization'', ''Bearer '' @ api_key)] (openai_payload prompt model_id)
        in case outcome of
             Timed_out m \<Rightarrow> Inl (RetryableProviderError (''openai request timed out: '' @ m))
           | Transport_error m \<Rightarrow> Inl (RetryableProviderError (''openai transport error: '' @ m))
           | Response status text parsed \<Rightarrow>
               if status \<noteq> 200 then
                 let message = ''openai HTTP '' @ show_int status @ '': '' @ take 200 text
                 in if status \<in> set RETRYABLE_STATUS then Inl (RetryableProviderError message)
                    else Inl (NonRetryableProviderError message)
               else (case parsed of
                 Inl e \<Rightarrow> Inl e
               | Inr body \<Rightarrow>
                   (case openai_read body of
                      Inl e \<Rightarrow> if caught e
                        then Inl (RetryableProviderError (''unexpected openai response shape: '' @ exc_str env e))
                        else Inl e
                    | Inr (content, prompt_tokens, completion_tokens) \<Rightarrow>
                        Inr \<lparr>cr_text = str_of_json env content, cr_prompt_tokens = prompt_tokens,
                             cr_completion_tokens = completion_tokens, cr_latency_ms = latency_ms\<rparr>)))"

definition anthropic_payload :: "string \<Rightarrow> string \<Rightarrow> json" where
  "anthropic_payload prompt model_id = JObj
     [(''model'', JStr model_id), (''max_tokens'', JInt 1024),
      (''messages'', JArr [JObj [(''role'', JStr ''user''), (''content'', JStr prompt)]])]"

definition anthropic_provider :: "http_env \<Rightarrow> string \<Rightarrow> provider" where
  "anthropic_provider env api_key base_url prompt model_id n =
     (if api_key = [] then Inl (NonRetryableProviderError ''ANTHROPIC_API_KEY is not set'')
      else
        let url = rstrip_char CHR ''/'' (case base_url of None \<Rightarrow> ''https://api.anthropic.com'' | Some u \<Rightarrow> u)
                    @ ''/v1/messages'';
            (outcome, latency_ms) = http_post env n url
              [(''x-api-key'', api_key), (''anthropic-version'', ''2023-06-01''),
               (''content-type'', ''application/json'')] (anthropic_payload prompt model_id)
        in case outcome of
             Timed_out m \<Rightarrow> Inl (RetryableProviderError (''anthropic request timed out: '' @ m))
           | Transport_error m \<Rightarrow> Inl (RetryableProviderError (''anthropic transport error: '' @ m))
           | Response status text parsed \<Rightarrow>
               if status \<noteq> 200 then
                 let message = ''anthropic HTTP '' @ show_int status @ '': '' @ take 200 text
                 in if status \<in> set RETRYABLE_STATUS then Inl (RetryableProviderError message)
                    else Inl (NonRetryableProviderError message)
               else (case parsed of
                 Inl e \<Rightarrow> Inl e
               | Inr body \<Rightarrow>
                   (case anthropic_read body of
                      Inl e \<Rightarrow> if caught e
                        then Inl (RetryableProviderError (''unexpected anthropic response shape: '' @ exc_str env e))
                        else Inl e
                    | Inr (content, prompt_tokens, completion_tokens) \<Rightarrow>
                        Inr \<lparr>cr_text = str_of_json env content, cr_prompt_tokens = prompt_tokens,
                             cr_completion_tokens = completion_tokens, cr_latency_ms = latency_ms\<rparr>)))"

subsection \<open>The fake provider\<close>

text \<open>\<open>int.from_bytes(digest[:4], "big")\<close>.\<close>

definition fake_seed :: "bytes \<Rightarrow> nat" where
  "fake_seed digest = foldl (\<lambda>a b. 256 * a + unat b) 0 (take 4 digest)"

definition fake_provider :: "(bytes \<Rightarrow> bytes) \<Rightarrow> provider" where
  "fake_provider sha base_url prompt model_id n =
     (let seed = fake_seed (sha (utf8 (model_id @ '':'' @ prompt))) in
      Inr \<lparr>cr_text = ''[fake:'' @ model_id @ ''] '' @ take 100 prompt,
           cr_prompt_tokens = max 1 (int (length (split_ws prompt))),
           cr_completion_tokens = 10 + int (seed mod 41), cr_latency_ms = 5 + int (seed mod 16)\<rparr>)"

subsection \<open>The configured provider\<close>

datatype eval_provider = EP_fake | EP_openai | EP_anthropic

record provider_settings =
  ps_eval_provider :: eval_provider
  ps_openai_api_key :: "string option"
  ps_anthropic_api_key :: "string option"

definition or_blank :: "string option \<Rightarrow> string" where
  "or_blank x = (case x of None \<Rightarrow> [] | Some s \<Rightarrow> s)"

definition get_provider :: "(bytes \<Rightarrow> bytes) \<Rightarrow> http_env \<Rightarrow> provider_settings \<Rightarrow> provider" where
  "get_provider sha env st =
     (case ps_eval_provider st of
        EP_fake \<Rightarrow> fake_provider sha
      | EP_openai \<Rightarrow> openai_provider env (or_blank (ps_openai_api_key st))
      | EP_anthropic \<Rightarrow> anthropic_provider env (or_blank (ps_anthropic_api_key st)))"

end
