(* ===== verification/Provider_Facts.thy ===== *)
theory Provider_Facts
  imports Worker_Success Providers
begin

text \<open>
  What the provider adapters promise the worker, and what a run item goes through for each way an
  HTTP request can end. The contract \<open>http_adapter\<close> maps the outcome of a request to the exception
  or the result; both HTTP adapters are interpretations of it.
\<close>

subsection \<open>The ways a request can end\<close>

fun transient :: "(json \<Rightarrow> exn + json \<times> int \<times> int) \<Rightarrow> http_outcome \<Rightarrow> bool" where
  "transient rd (Timed_out _) = True"
| "transient rd (Transport_error _) = True"
| "transient rd (Response st _ parsed) =
     (if st = 200
      then (case parsed of Inl _ \<Rightarrow> False | Inr body \<Rightarrow>
              (case rd body of Inl e \<Rightarrow> caught e | Inr _ \<Rightarrow> False))
      else st \<in> {429, 500, 502, 503, 504})"

fun permanent :: "http_outcome \<Rightarrow> bool" where
  "permanent (Response st _ _) \<longleftrightarrow> st \<notin> {200, 429, 500, 502, 503, 504}"
| "permanent _ \<longleftrightarrow> False"

text \<open>A 200 whose body is not JSON or has a token count \<open>int\<close> cannot convert, and a usable 200.\<close>

fun unreadable :: "(json \<Rightarrow> exn + json \<times> int \<times> int) \<Rightarrow> http_outcome \<Rightarrow> exn option" where
  "unreadable rd (Response st _ parsed) =
     (if st = 200
      then (case parsed of Inl e \<Rightarrow> Some e | Inr body \<Rightarrow>
              (case rd body of Inl e \<Rightarrow> if caught e then None else Some e | Inr _ \<Rightarrow> None))
      else None)"
| "unreadable rd _ = None"

fun usable :: "(json \<Rightarrow> exn + json \<times> int \<times> int) \<Rightarrow> http_outcome \<Rightarrow> (int \<times> int) option" where
  "usable rd (Response st _ parsed) =
     (if st = 200
      then (case parsed of Inl e \<Rightarrow> None | Inr body \<Rightarrow>
              (case rd body of Inl e \<Rightarrow> None | Inr (_, pt, ct) \<Rightarrow> Some (pt, ct)))
      else None)"
| "usable rd _ = None"

definition provider_error :: "exn \<Rightarrow> bool" where
  "provider_error e \<longleftrightarrow>
     (case e of RetryableProviderError _ \<Rightarrow> True | NonRetryableProviderError _ \<Rightarrow> True | _ \<Rightarrow> False)"

locale http_adapter =
  fixes complete :: provider
    and outcome :: "string option \<Rightarrow> string \<Rightarrow> string \<Rightarrow> nat \<Rightarrow> http_outcome"
    and rd :: "json \<Rightarrow> exn + json \<times> int \<times> int"
  assumes retries: "transient rd (outcome b p m n) \<Longrightarrow>
      \<exists>t. complete b p m n = Inl (RetryableProviderError t)"
    and refuses: "permanent (outcome b p m n) \<Longrightarrow>
      \<exists>t. complete b p m n = Inl (NonRetryableProviderError t)"
    and escapes: "unreadable rd (outcome b p m n) = Some e \<Longrightarrow> complete b p m n = Inl e"
    and answers: "usable rd (outcome b p m n) = Some (pt, ct) \<Longrightarrow>
      \<exists>r. complete b p m n = Inr r \<and> cr_prompt_tokens r = pt \<and> cr_completion_tokens r = ct"

text \<open>The request an adapter sends for one call.\<close>

definition openai_outcome ::
  "http_env \<Rightarrow> string \<Rightarrow> string option \<Rightarrow> string \<Rightarrow> string \<Rightarrow> nat \<Rightarrow> http_outcome" where
  "openai_outcome env api_key b prompt model_id n =
     fst (http_post env n
       (rstrip_char CHR ''/'' (case b of None \<Rightarrow> ''https://api.openai.com/v1'' | Some u \<Rightarrow> u) @ ''/chat/completions'')
       [(''Authorization'', ''Bearer '' @ api_key)] (openai_payload prompt model_id))"

definition anthropic_outcome ::
  "http_env \<Rightarrow> string \<Rightarrow> string option \<Rightarrow> string \<Rightarrow> string \<Rightarrow> nat \<Rightarrow> http_outcome" where
  "anthropic_outcome env api_key b prompt model_id n =
     fst (http_post env n
       (rstrip_char CHR ''/'' (case b of None \<Rightarrow> ''https://api.anthropic.com'' | Some u \<Rightarrow> u) @ ''/v1/messages'')
       [(''x-api-key'', api_key), (''anthropic-version'', ''2023-06-01''),
        (''content-type'', ''application/json'')] (anthropic_payload prompt model_id))"

interpretation openai: http_adapter "openai_provider env (c # cs)" "openai_outcome env (c # cs)" openai_read
  by unfold_locales
    (auto simp: openai_provider_def openai_outcome_def RETRYABLE_STATUS_def Let_def case_prod_unfold
      elim!: transient.elims permanent.elims unreadable.elims usable.elims
      split: if_splits sum.splits prod.splits http_outcome.splits)

interpretation anthropic: http_adapter "anthropic_provider env (c # cs)" "anthropic_outcome env (c # cs)"
    anthropic_read
  by unfold_locales
    (auto simp: anthropic_provider_def anthropic_outcome_def RETRYABLE_STATUS_def Let_def case_prod_unfold
      elim!: transient.elims permanent.elims unreadable.elims usable.elims
      split: if_splits sum.splits prod.splits http_outcome.splits)

subsection \<open>The attempts over HTTP\<close>

definition base_of :: "model_endpoint \<Rightarrow> string option" where
  "base_of ep = (case me_base_url ep of None \<Rightarrow> None | Some u \<Rightarrow> if u = [] then None else Some u)"

lemma answer_base:
  "answer w sn n = we_provider w (base_of (sn_endpoint sn)) (tk_prompt (sn_task sn)) (me_model_id (sn_endpoint sn)) n"
  by (simp add: answer_def effective_provider_def base_of_def with_base_url_def split: option.split)

text \<open>The outcome the worker sees for an item at one call.\<close>

definition seen :: "(string option \<Rightarrow> string \<Rightarrow> string \<Rightarrow> nat \<Rightarrow> http_outcome) \<Rightarrow> snapshot \<Rightarrow> nat \<Rightarrow> http_outcome" where
  "seen oc sn n = oc (base_of (sn_endpoint sn)) (tk_prompt (sn_task sn)) (me_model_id (sn_endpoint sn)) n"

lemma run_attempts_raised:
  assumes "j < nat (max_attempts (we_retry w))"
    and "\<And>i. i < j \<Longrightarrow> answer w sn (provider_calls s + i) = Inl (RetryableProviderError (m i))"
    and "answer w sn (provider_calls s + j) = Inl e" and "\<not> provider_error e"
  shows "run_attempts w sn s = (Raised e, tried (sn_rid sn) (Suc j) (delays w [1..int j]) s)"
proof -
  obtain xs where xs: "drop j [1..max_attempts (we_retry w)] = (1 + int j) # xs"
    using drop_upto [OF assms(1)] by blast
  have eq: "run_attempts w sn s = attempt_loop w sn ((1 + int j) # xs) (last_message ''None'' m j)
      (tried (sn_rid sn) j (delays w [1..int j]) s)"
    unfolding run_attempts_def
    by (subst attempt_loop_retry [where j = j and m = m]) (use assms in \<open>auto simp: xs take_upto\<close>)
  have st: "(mark_running (sn_rid sn) s')\<lparr>provider_calls := Suc (provider_calls s')\<rparr> =
      tried (sn_rid sn) (Suc j) (delays w [1..int j]) s"
    if "s' = tried (sn_rid sn) j (delays w [1..int j]) s" for s'
    using mark_tried [where rid = "sn_rid sn" and s = s'] tried_compose [of "sn_rid sn" 1 "[]" j "delays w [1..int j]" s]
    by (simp add: that)
  show ?thesis
    using assms(3,4) st [OF refl]
    by (simp add: eq attempt_loop_step Let_def provider_error_def split: exn.splits del: attempt_loop.simps)
qed

context http_adapter
begin

lemma retried:
  assumes "we_provider w = complete" and "\<And>i. i < j \<Longrightarrow> transient rd (seen outcome sn (k + i))"
  obtains m where "\<And>i. i < j \<Longrightarrow> answer w sn (k + i) = Inl (RetryableProviderError (m i))"
proof -
  have "\<exists>t. answer w sn (k + i) = Inl (RetryableProviderError t)" if "i < j" for i
    using retries assms(2) [OF that] unfolding answer_base assms(1) seen_def by blast
  then show thesis using that by metis
qed

text \<open>The first request that does not fail transiently decides the item.\<close>

lemma attempts_by_outcome:
  assumes "we_provider w = complete" and "j < nat (max_attempts (we_retry w))"
    and "\<And>i. i < j \<Longrightarrow> transient rd (seen outcome sn (provider_calls s + i))"
  shows "permanent (seen outcome sn (provider_calls s + j)) \<Longrightarrow>
      \<exists>t. run_attempts w sn s = (Refused t, tried (sn_rid sn) (Suc j) (delays w [1..int j]) s)"
    and "usable rd (seen outcome sn (provider_calls s + j)) = Some (pt, ct) \<Longrightarrow>
      \<exists>r. run_attempts w sn s = (Completed r, tried (sn_rid sn) (Suc j) (delays w [1..int j]) s) \<and>
        cr_prompt_tokens r = pt \<and> cr_completion_tokens r = ct"
    and "unreadable rd (seen outcome sn (provider_calls s + j)) = Some e \<Longrightarrow> \<not> provider_error e \<Longrightarrow>
      run_attempts w sn s = (Raised e, tried (sn_rid sn) (Suc j) (delays w [1..int j]) s)"
proof -
  obtain m where m: "\<And>i. i < j \<Longrightarrow> answer w sn (provider_calls s + i) = Inl (RetryableProviderError (m i))"
    using retried [OF assms(1,3)] by blast
  show "\<exists>t. run_attempts w sn s = (Refused t, tried (sn_rid sn) (Suc j) (delays w [1..int j]) s)"
    if "permanent (seen outcome sn (provider_calls s + j))"
    using refuses [OF that [unfolded seen_def]] run_attempts_answered(2) [OF assms(2) m]
    unfolding answer_base assms(1) by blast
  show "\<exists>r. run_attempts w sn s = (Completed r, tried (sn_rid sn) (Suc j) (delays w [1..int j]) s) \<and>
        cr_prompt_tokens r = pt \<and> cr_completion_tokens r = ct"
    if "usable rd (seen outcome sn (provider_calls s + j)) = Some (pt, ct)"
    using answers [OF that [unfolded seen_def]] run_attempts_answered(1) [OF assms(2) m]
    unfolding answer_base assms(1) by blast
  show "run_attempts w sn s = (Raised e, tried (sn_rid sn) (Suc j) (delays w [1..int j]) s)"
    if "unreadable rd (seen outcome sn (provider_calls s + j)) = Some e" "\<not> provider_error e"
    using run_attempts_raised [OF assms(2) m _ that(2)] escapes [OF that(1) [unfolded seen_def]]
    unfolding answer_base assms(1) by blast
qed

text \<open>An answer that cannot be read leaves the function as an exception: the item stays running.\<close>

lemma unreadable_strands:
  assumes "we_provider w = complete" and "load_item rid s = Some sn" and "executable sn"
    and "j < nat (max_attempts (we_retry w))"
    and "\<And>i. i < j \<Longrightarrow> transient rd (seen outcome sn (provider_calls s + i))"
    and "unreadable rd (seen outcome sn (provider_calls s + j)) = Some e" and "\<not> provider_error e"
  shows "let (r, s') = execute_run_item env w rid s in
    r = Inl e \<and> provider_calls s' = provider_calls s + Suc j \<and>
    map_option ri_status (fetch ri_id rid (run_items s')) = Some Item_running \<and>
    evals_queue s' = evals_queue s \<and> eval_runs s' = eval_runs s \<and>
    (sn_run_status sn = Run_running \<longrightarrow> ((\<lambda>s. snd (execute_run_item env w rid s)) ^^ n) s' = s')"
proof -
  note row = load_item_row [OF assms(2)]
  let ?s = "tried rid (Suc j) (delays w [1..int j]) s"
  have exe: "execute_run_item env w rid s = (Inl e, ?s)"
    using attempts_by_outcome(3) [OF assms(1,4-7)] row
    by (simp add: execute_run_item_def execute_executable [OF assms(2,3)] execute_loaded_def)
  have item: "fetch ri_id rid (run_items ?s) = Some ((sn_item sn)\<lparr>ri_status := Item_running,
      ri_attempt_count := ri_attempt_count (sn_item sn) + int (Suc j), ri_updated_at := db_now s\<rparr>)"
    using row by (simp add: fetch_bump)
  have again: "execute_run_item env w rid ?s = (Inr (report_of ''running'' ''not-executable''), ?s)"
    if "sn_run_status sn = Run_running"
    using that item assms(2)
    by (auto simp: execute_run_item_def execute_with_def load_item_def split: option.splits)
  have "((\<lambda>s. snd (execute_run_item env w rid s)) ^^ n) ?s = ?s" if "sn_run_status sn = Run_running"
    by (induction n) (simp_all add: again [OF that])
  with item show ?thesis by (simp add: exe)
qed

end

text \<open>An adapter with a key: the provider, the requests it sends, and its reader.\<close>

definition http_adapters :: "http_env \<Rightarrow> string \<Rightarrow>
    (provider \<times> (string option \<Rightarrow> string \<Rightarrow> string \<Rightarrow> nat \<Rightarrow> http_outcome) \<times> (json \<Rightarrow> exn + json \<times> int \<times> int)) list" where
  "http_adapters h key =
     [(openai_provider h key, openai_outcome h key, openai_read),
      (anthropic_provider h key, anthropic_outcome h key, anthropic_read)]"

text \<open>
  C21. The retry policy over HTTP, for the OpenAI and the Anthropic adapter: when the first \<open>j\<close>
  requests fail transiently (timeout, transport error, 429, 500, 502, 503, 504, or a 200 of
  unexpected shape) and the next one does not, the attempts end there, after \<open>j + 1\<close> requests: refused
  on every other status but 200, completed with the token counts of the body on a usable 200. When
  all \<open>max_attempts\<close> requests fail transiently they are exhausted after exactly that many.
\<close>

theorem http_retry_policy:
  assumes "(we_provider w, oc, rd) \<in> set (http_adapters h (c # cs))"
    and "j \<le> nat (max_attempts (we_retry w))"
    and "\<And>i. i < j \<Longrightarrow> transient rd (seen oc sn (provider_calls s + i))"
  shows "let (r, s') = run_attempts w sn s; next = seen oc sn (provider_calls s + j) in
    (j < nat (max_attempts (we_retry w)) \<and> permanent next \<longrightarrow>
       (\<exists>t. r = Refused t) \<and> provider_calls s' = provider_calls s + j + 1) \<and>
    (j < nat (max_attempts (we_retry w)) \<and> usable rd next = Some (pt, ct) \<longrightarrow>
       (\<exists>a. r = Completed a \<and> cr_prompt_tokens a = pt \<and> cr_completion_tokens a = ct) \<and>
       provider_calls s' = provider_calls s + j + 1) \<and>
    (j = nat (max_attempts (we_retry w)) \<longrightarrow> (\<exists>t. r = Exhausted t) \<and> provider_calls s' = provider_calls s + j)"
proof -
  have adapter: "http_adapter (we_provider w) oc rd"
    using assms(1) openai.http_adapter_axioms anthropic.http_adapter_axioms by (auto simp: http_adapters_def)
  show ?thesis
  proof (cases "j < nat (max_attempts (we_retry w))")
    case True
    note ends = http_adapter.attempts_by_outcome [OF adapter refl True assms(3)]
    show ?thesis using True ends(1) ends(2) [of pt ct] by (auto split: prod.split)
  next
    case False
    then have j: "j = nat (max_attempts (we_retry w))" using assms(2) by simp
    obtain m where "\<And>i. i < j \<Longrightarrow> answer w sn (provider_calls s + i) = Inl (RetryableProviderError (m i))"
      using http_adapter.retried [OF adapter refl assms(3)] by blast
    then have "run_attempts w sn s = (Exhausted (last_message ''None'' m j),
        tried (sn_rid sn) j (delays w [1..max_attempts (we_retry w)]) s)"
      unfolding j by (rule run_attempts_exhausted)
    with False show ?thesis by (simp add: j)
  qed
qed

text \<open>A server that is rate limited twice and then answers.\<close>

definition fx_body :: json where
  "fx_body = JObj [(''choices'', JArr [JObj [(''message'', JObj [(''content'', JStr ''V'')])]]),
     (''usage'', JObj [(''prompt_tokens'', JInt 1000), (''completion_tokens'', JInt 500)])]"

definition fx_http :: "http_outcome list \<Rightarrow> http_env" where
  "fx_http os = \<lparr>http_post = (\<lambda>n _ _ _. (os ! n, 12)), exc_str = exn_text, py_repr = (\<lambda>_. [])\<rparr>"

definition fx_flaky_http :: http_env where
  "fx_flaky_http = fx_http [Response 429 ''slow down'' (Inl (JSONDecodeError ''x'')), Timed_out ''t'',
     Response 200 ''{}'' (Inr fx_body)]"

theorem http_retry_policy_witness:
  "let (r, s') = run_attempts (fx_worker (openai_provider fx_flaky_http ''k'')) (fx_snapshot Run_running (fx_item 40)) fx_sys in
     (\<exists>a. r = Completed a \<and> cr_prompt_tokens a = 1000 \<and> cr_completion_tokens a = 500) \<and>
     provider_calls s' = provider_calls fx_sys + 2 + 1"
proof -
  let ?sn = "fx_snapshot Run_running (fx_item 40)"
  have first: "transient openai_read (seen (openai_outcome fx_flaky_http ''k'') ?sn (provider_calls fx_sys + i))"
    if "i < 2" for i
  proof -
    have "i = 0 \<or> i = 1" using that by linarith
    then show ?thesis by (auto simp: seen_def openai_outcome_def fx_flaky_http_def fx_http_def fx_sys_def)
  qed
  have last: "usable openai_read (seen (openai_outcome fx_flaky_http ''k'') ?sn (provider_calls fx_sys + 2)) = Some (1000, 500)"
    by (simp add: seen_def openai_outcome_def fx_flaky_http_def fx_http_def fx_sys_def fx_body_def openai_read_def
        andThen_def json_key_def json_index_def int_of_json_def)
  let ?w = "fx_worker (openai_provider fx_flaky_http ''k'')"
  have five: "max_attempts (we_retry ?w) = 5" by code_simp
  have mem: "(we_provider (fx_worker (openai_provider fx_flaky_http ''k'')), openai_outcome fx_flaky_http ''k'', openai_read)
      \<in> set (http_adapters fx_flaky_http ''k'')"
    by (simp add: http_adapters_def fx_worker_def)
  have "2 \<le> nat (max_attempts (we_retry ?w))" by (simp add: five)
  from http_retry_policy [OF mem this first, of 1000 500] last five
  show ?thesis by (simp add: Let_def split: prod.splits)
qed

text \<open>
  C35. A 200 whose body is not JSON, or whose token counts \<open>int\<close> cannot convert, is neither retried
  nor recorded: the exception leaves the execution with the item in status running and attempts
  left, nothing is queued, the run keeps waiting for the item, and every redelivery of the message
  changes nothing.
\<close>

theorem unreadable_answer_strands_item:
  assumes "(we_provider w, oc, rd) \<in> set (http_adapters h (c # cs))"
    and "load_item rid s = Some sn" and "executable sn" and "sn_run_status sn = Run_running"
    and "j < nat (max_attempts (we_retry w))"
    and "\<And>i. i < j \<Longrightarrow> transient rd (seen oc sn (provider_calls s + i))"
    and "unreadable rd (seen oc sn (provider_calls s + j)) = Some e" and "\<not> provider_error e"
  shows "let (r, s') = execute_run_item env w rid s in
    r = Inl e \<and> provider_calls s' = provider_calls s + Suc j \<and>
    map_option ri_status (fetch ri_id rid (run_items s')) = Some Item_running \<and>
    evals_queue s' = evals_queue s \<and> eval_runs s' = eval_runs s \<and>
    ((\<lambda>s. snd (execute_run_item env w rid s)) ^^ n) s' = s'"
proof -
  have "http_adapter (we_provider w) oc rd"
    using assms(1) openai.http_adapter_axioms anthropic.http_adapter_axioms by (auto simp: http_adapters_def)
  from http_adapter.unreadable_strands [OF this refl assms(2,3,5-8), of env n] assms(4)
  show ?thesis by (simp add: case_prod_unfold Let_def)
qed

definition fx_html :: http_env where
  "fx_html = fx_http [Response 200 ''<html>'' (Inl (JSONDecodeError ''Expecting value''))]"

theorem unreadable_answer_strands_item_witness:
  "let (r, s') = execute_run_item fx_env (fx_worker (anthropic_provider fx_html ''k'')) 40 fx_sys in
    r = Inl (JSONDecodeError ''Expecting value'') \<and> provider_calls s' = provider_calls fx_sys + Suc 0 \<and>
    map_option ri_status (fetch ri_id 40 (run_items s')) = Some Item_running \<and>
    evals_queue s' = evals_queue fx_sys \<and> eval_runs s' = eval_runs fx_sys \<and>
    ((\<lambda>s. snd (execute_run_item fx_env (fx_worker (anthropic_provider fx_html ''k'')) 40 s)) ^^ 9) s' = s'"
proof (rule unreadable_answer_strands_item [where sn = "fx_snapshot Run_running (fx_item 40)" and j = 0])
  show "(we_provider (fx_worker (anthropic_provider fx_html ''k'')), anthropic_outcome fx_html ''k'', anthropic_read)
      \<in> set (http_adapters fx_html ''k'')"
    by (simp add: http_adapters_def fx_worker_def)
  show "load_item 40 fx_sys = Some (fx_snapshot Run_running (fx_item 40))" by code_simp
  show "executable (fx_snapshot Run_running (fx_item 40))" by code_simp
  show "sn_run_status (fx_snapshot Run_running (fx_item 40)) = Run_running" by code_simp
  show "0 < nat (max_attempts (we_retry (fx_worker (anthropic_provider fx_html ''k''))))" by code_simp
  show "unreadable anthropic_read (seen (anthropic_outcome fx_html ''k'') (fx_snapshot Run_running (fx_item 40))
      (provider_calls fx_sys + 0)) = Some (JSONDecodeError ''Expecting value'')"
    by (simp add: seen_def anthropic_outcome_def fx_html_def fx_http_def fx_sys_def)
qed (simp_all add: provider_error_def)

subsection \<open>The fake provider\<close>

lemma fake_tokens:
  assumes "fake_provider sha b p m n = Inr r"
  shows "1 \<le> cr_prompt_tokens r" "cr_prompt_tokens r \<le> max 1 (int (length p))"
    "10 \<le> cr_completion_tokens r" "cr_completion_tokens r \<le> 50" "5 \<le> cr_latency_ms r" "cr_latency_ms r \<le> 20"
proof -
  have words: "length (split_ws p) \<le> length p"
  proof (induction p rule: split_ws.induct)
    case (1 s)
    show ?case
    proof (cases "dropWhile is_space s")
      case Nil
      then have "list_all is_space s" by (simp add: list_all_iff)
      then show ?thesis by (simp add: split_ws_blank)
    next
      case (Cons c cs)
      then have "\<not> is_space c" by (metis hd_dropWhile list.discI list.sel(1))
      then have "length (dropWhile (\<lambda>c. \<not> is_space c) (c # cs)) \<le> length cs" by (simp add: length_dropWhile_le)
      also have "\<dots> < length s" using length_dropWhile_le [of is_space s] by (simp add: Cons)
      finally show ?thesis using "1.IH" [OF Cons] by (simp add: split_ws.simps [of s] Cons)
    qed
  qed
  have "fake_seed x mod 41 < 41" "fake_seed x mod 16 < 16" for x by simp_all
  then have "int (fake_seed x mod 41) \<le> 40" "int (fake_seed x mod 16) \<le> 15" for x
    by (simp_all add: less_Suc_eq_le [symmetric])
  with assms words show "1 \<le> cr_prompt_tokens r" "cr_prompt_tokens r \<le> max 1 (int (length p))"
    "10 \<le> cr_completion_tokens r" "cr_completion_tokens r \<le> 50" "5 \<le> cr_latency_ms r" "cr_latency_ms r \<le> 20"
    by (auto simp: fake_provider_def Let_def)
qed

text \<open>
  The fake provider never fails, and answers the same prompt and model id the same way at every
  call and under every base URL, whatever SHA-256 is: with at least one prompt token and at most
  one per character, 10 to 50 completion tokens and 5 to 20 milliseconds.
\<close>

theorem fake_provider_bounds:
  "\<exists>r. (\<forall>b n. fake_provider sha b prompt model_id n = Inr r) \<and>
     1 \<le> cr_prompt_tokens r \<and> cr_prompt_tokens r \<le> max 1 (int (length prompt)) \<and>
     10 \<le> cr_completion_tokens r \<and> cr_completion_tokens r \<le> 50 \<and>
     5 \<le> cr_latency_ms r \<and> cr_latency_ms r \<le> 20"
proof -
  obtain r where r: "fake_provider sha None prompt model_id 0 = Inr r" by (simp add: fake_provider_def Let_def)
  then have "fake_provider sha b prompt model_id n = Inr r" for b n by (simp add: fake_provider_def Let_def)
  with fake_tokens [OF r] show ?thesis by blast
qed

end
