(* ===== verification/Drain.thy ===== *)
theory Drain
  imports Provider_Facts
begin

text \<open>
  A run comes to its end: when every queued item of a running run is executed, one after the other
  and at least once, by a worker whose provider answers within bounds, refuses or fails transiently,
  then no item is left open and the run is completed or failed. The bounds (100000 items, 10000
  tokens per prompt and per completion) keep every total inside its column.
\<close>

subsection \<open>What one execution can touch\<close>

definition item_small :: "run_item \<Rightarrow> bool" where
  "item_small r \<longleftrightarrow> 0 \<le> item_cost r \<and> item_cost r \<le> 3 / 2 \<and> 0 \<le> item_tokens r \<and> item_tokens r \<le> 20000"

definition same_refs :: "run_item \<Rightarrow> run_item \<Rightarrow> bool" where
  "same_refs r r' \<longleftrightarrow> ri_eval_run_id r' = ri_eval_run_id r \<and> ri_task_id r' = ri_task_id r \<and>
     ri_model_endpoint_id r' = ri_model_endpoint_id r"

text \<open>Only the item itself, queued items of its run (which fail), and the status of its run (which ends).\<close>

definition touches :: "uuid \<Rightarrow> uuid \<Rightarrow> 'a db_scheme \<Rightarrow> 'a db_scheme \<Rightarrow> bool" where
  "touches k rid d d' \<longleftrightarrow>
     map ri_id (run_items d') = map ri_id (run_items d) \<and>
     map er_id (eval_runs d') = map er_id (eval_runs d) \<and>
     tasks d' = tasks d \<and> model_endpoints d' = model_endpoints d \<and>
     (\<forall>i r. fetch ri_id i (run_items d) = Some r \<longrightarrow>
        (\<exists>r'. fetch ri_id i (run_items d') = Some r' \<and> same_refs r r' \<and> (item_small r \<longrightarrow> item_small r') \<and>
          (i = rid \<or> ri_status r' = ri_status r \<or> ri_eval_run_id r = k \<and> ri_status r' = Item_failed))) \<and>
     (\<forall>j. run_status_of j d' = run_status_of j d \<or>
        j = k \<and> run_status_of j d' \<in> {Some Run_completed, Some Run_failed})"

lemma same_refs_refl [simp]: "same_refs r r"
  by (simp add: same_refs_def)

lemma touches_same:
  assumes "run_items d' = run_items d" "eval_runs d' = eval_runs d" "tasks d' = tasks d"
    and "model_endpoints d' = model_endpoints d"
  shows "touches k rid d d'"
  using assms by (simp add: touches_def run_status_of_def)

lemma touches_refl: "touches k rid d d"
  by (rule touches_same) simp_all

lemma touches_trans:
  assumes ab: "touches k rid a b" and bc: "touches k rid b c"
  shows "touches k rid a c"
proof -
  have items: "\<exists>r'. fetch ri_id i (run_items c) = Some r' \<and> same_refs r r' \<and> (item_small r \<longrightarrow> item_small r') \<and>
      (i = rid \<or> ri_status r' = ri_status r \<or> ri_eval_run_id r = k \<and> ri_status r' = Item_failed)"
    if r: "fetch ri_id i (run_items a) = Some r" for i r
  proof -
    obtain r1 where r1: "fetch ri_id i (run_items b) = Some r1" "same_refs r r1" "item_small r \<longrightarrow> item_small r1"
        "i = rid \<or> ri_status r1 = ri_status r \<or> ri_eval_run_id r = k \<and> ri_status r1 = Item_failed"
      using ab r unfolding touches_def by blast
    obtain r2 where r2: "fetch ri_id i (run_items c) = Some r2" "same_refs r1 r2" "item_small r1 \<longrightarrow> item_small r2"
        "i = rid \<or> ri_status r2 = ri_status r1 \<or> ri_eval_run_id r1 = k \<and> ri_status r2 = Item_failed"
      using bc r1(1) unfolding touches_def by blast
    have "same_refs r r2" using r1(2) r2(2) by (simp add: same_refs_def)
    with r1 r2 show ?thesis by (auto simp: same_refs_def)
  qed
  have runs: "run_status_of j c = run_status_of j a \<or>
      j = k \<and> run_status_of j c \<in> {Some Run_completed, Some Run_failed}" for j
  proof -
    have "run_status_of j b = run_status_of j a \<or>
        j = k \<and> run_status_of j b \<in> {Some Run_completed, Some Run_failed}"
      "run_status_of j c = run_status_of j b \<or>
        j = k \<and> run_status_of j c \<in> {Some Run_completed, Some Run_failed}"
      using ab bc unfolding touches_def by blast+
    then show ?thesis by auto
  qed
  show ?thesis using ab bc items runs unfolding touches_def by simp
qed

lemma touches_items:
  assumes "\<And>r. ri_id (f r) = ri_id r" "\<And>r. same_refs r (f r)"
    and "\<And>r. p r \<Longrightarrow> item_small r \<Longrightarrow> item_small (f r)"
    and "\<And>r. p r \<Longrightarrow> ri_id r = rid \<or> ri_eval_run_id r = k \<and> ri_status (f r) = Item_failed"
  shows "touches k rid d (run_items_update (sql_update p f) d)"
proof -
  have "\<exists>r'. fetch ri_id i (sql_update p f (run_items d)) = Some r' \<and> same_refs r r' \<and>
      (item_small r \<longrightarrow> item_small r') \<and>
      (i = rid \<or> ri_status r' = ri_status r \<or> ri_eval_run_id r = k \<and> ri_status r' = Item_failed)"
    if "fetch ri_id i (run_items d) = Some r" for i r
    using that assms(2-4) fetch_SomeD [OF that] by (auto simp: fetch_sql_update assms(1))
  then show ?thesis by (simp add: touches_def run_status_of_def map_sql_update assms(1))
qed

lemma touches_runs:
  assumes "\<And>e. er_id (f e) = er_id e"
    and "\<And>e. p e \<Longrightarrow> er_status (f e) = er_status e \<or> er_id e = k \<and> er_status (f e) \<in> {Run_completed, Run_failed}"
  shows "touches k rid d (eval_runs_update (sql_update p f) d)"
proof -
  have "run_status_of j (eval_runs_update (sql_update p f) d) = run_status_of j d \<or>
      j = k \<and> run_status_of j (eval_runs_update (sql_update p f) d) \<in> {Some Run_completed, Some Run_failed}" for j
    using assms(2) fetch_SomeD [of er_id j "eval_runs d"]
    by (cases "fetch er_id j (eval_runs d)") (auto simp: run_status_of_def fetch_sql_update assms(1))
  then show ?thesis by (simp add: touches_def map_sql_update assms(1))
qed

lemma touches_marks:
  "touches k rid d (mark_failed rid err d)" "touches k rid d (mark_dead_lettered rid err d)"
  "touches k rid d (mark_cancelled rid d)"
  unfolding mark_defs
  by (rule touches_items; simp add: same_refs_def item_small_def item_cost_def item_tokens_def)+

lemma touches_sys:
  "touches k rid s (inc_eval_items st m s)" "touches k rid s (inc_dead_letters s)"
  "touches k rid s (publish_dead_letter i s)" "touches k rid s (s\<lparr>redis := h\<rparr>)"
  by (rule touches_same; simp add: inc_eval_items_def inc_dead_letters_def publish_dead_letter_def Let_def)+

lemma touches_tried: "touches k rid s (tried rid n ds s)"
proof -
  have "touches k rid s (bump rid n s)"
    unfolding bump_def
    by (auto intro!: touches_refl touches_items simp: same_refs_def item_small_def item_cost_def item_tokens_def)
  then show ?thesis by (rule touches_trans) (rule touches_same; simp add: tried_def)
qed

lemma touches_complete: "touches k rid d (maybe_complete_run k d)"
proof (cases "rowcount (unfinished k) (run_items d) = 0")
  case True
  show ?thesis
    unfolding complete_run_defs Let_def if_P [OF True]
    by (rule touches_trans [OF touches_runs touches_runs]) simp_all
next
  case False
  then show ?thesis by (simp add: complete_run_defs touches_refl)
qed

lemma touches_abort: "abort_over_budget k l t d = (b, d') \<Longrightarrow> touches k rid d d'"
  unfolding abort_over_budget_def Let_def
  by (auto split: if_splits intro!: touches_trans [OF touches_runs touches_items] touches_runs
      simp: same_refs_def item_small_def item_cost_def item_tokens_def)

lemma touches_finalize:
  assumes "finalize_item rid j lat pt ct cost akey dc dt d = Inr (b, d')"
    and "0 \<le> cost" "cost \<le> 3 / 2" "0 \<le> pt" "0 \<le> ct" "pt + ct \<le> 20000"
  shows "touches k rid d d'"
proof (cases "rowcount (\<lambda>r. ri_id r = rid \<and> ri_status r = Item_running) (run_items d) = 0")
  case True
  with assms(1) show ?thesis by (auto simp: finalize_item_def Let_def touches_refl split: if_splits)
next
  case False
  have "touches k rid d (eval_runs_update (sql_update (\<lambda>e. er_id e = j)
      (\<lambda>e. e\<lparr>er_total_cost_usd := er_total_cost_usd e + dc, er_total_tokens := er_total_tokens e + dt\<rparr>))
      (run_items_update (sql_update (\<lambda>r. ri_id r = rid \<and> ri_status r = Item_running)
        (\<lambda>r. r\<lparr>ri_status := Item_succeeded, ri_latency_ms := Some lat, ri_prompt_tokens := Some pt,
          ri_completion_tokens := Some ct, ri_cost_usd := Some cost, ri_error := None,
          ri_artifact_key := Some akey, ri_updated_at := db_now d\<rparr>)) d))"
    by (rule touches_trans [OF touches_items touches_runs])
       (use assms(2-6) in \<open>simp_all add: same_refs_def item_small_def item_cost_def item_tokens_def\<close>)
  with assms(1) False show ?thesis by (auto simp: finalize_item_def Let_def split: if_splits)
qed

lemma touches_then:
  fixes d :: "'a db_scheme" and s s' :: sys
  shows "touches k rid d0 d \<Longrightarrow> touches k rid d0 (mark_failed rid err d)"
    "touches k rid d0 d \<Longrightarrow> touches k rid d0 (mark_dead_lettered rid err d)"
    "touches k rid d0 d \<Longrightarrow> touches k rid d0 (maybe_complete_run k d)"
    "touches k rid s' s \<Longrightarrow> touches k rid s' (inc_eval_items st m s)"
    "touches k rid s' s \<Longrightarrow> touches k rid s' (inc_dead_letters s)"
    "touches k rid s' s \<Longrightarrow> touches k rid s' (publish_dead_letter i s)"
    "touches k rid s' s \<Longrightarrow> touches k rid s' (tried rid n ds s)"
  by (erule touches_trans, rule touches_marks touches_complete touches_sys touches_tried)+

subsection \<open>Answers within bounds\<close>

definition polite_answer :: "exn + completion_result \<Rightarrow> bool" where
  "polite_answer a \<longleftrightarrow>
     (case a of
        Inr r \<Rightarrow> 0 \<le> cr_prompt_tokens r \<and> cr_prompt_tokens r \<le> 10000 \<and> 0 \<le> cr_completion_tokens r \<and>
          cr_completion_tokens r \<le> 10000 \<and> int4 (cr_latency_ms r)
      | Inl (RetryableProviderError _) \<Rightarrow> True
      | Inl (NonRetryableProviderError _) \<Rightarrow> True
      | Inl _ \<Rightarrow> False)"

definition polite :: "provider \<Rightarrow> 'a db_scheme \<Rightarrow> bool" where
  "polite p d \<longleftrightarrow> (\<forall>t \<in> set (tasks d). \<forall>b m n. polite_answer (p b (tk_prompt t) m n))"

lemma polite_attempts:
  assumes "\<And>n. polite_answer (answer w sn n)" and "0 < max_attempts (we_retry w)"
  obtains (completed) j ds r where "run_attempts w sn s = (Completed r, tried (sn_rid sn) (Suc j) ds s)"
      "polite_answer (Inr r)"
  | (refused) j ds t where "run_attempts w sn s = (Refused t, tried (sn_rid sn) (Suc j) ds s)"
  | (exhausted) j ds t where "run_attempts w sn s = (Exhausted t, tried (sn_rid sn) (Suc j) ds s)"
proof -
  let ?N = "nat (max_attempts (we_retry w))"
  let ?ends = "\<lambda>j. \<forall>m. answer w sn (provider_calls s + j) \<noteq> Inl (RetryableProviderError m)"
  have retried: "\<exists>m. \<forall>i<j. answer w sn (provider_calls s + i) = Inl (RetryableProviderError (m i))"
    if "\<And>i. i < j \<Longrightarrow> \<not> ?ends i" for j
    using that by (intro choice) auto
  show thesis
  proof (cases "\<exists>j<?N. ?ends j")
    case False
    then obtain m where "\<forall>i<?N. answer w sn (provider_calls s + i) = Inl (RetryableProviderError (m i))"
      using retried [of ?N] by blast
    then have att: "run_attempts w sn s = (Exhausted (last_message ''None'' m ?N),
        tried (sn_rid sn) ?N (delays w [1..max_attempts (we_retry w)]) s)"
      by (intro run_attempts_exhausted) simp
    obtain j where "?N = Suc j" using assms(2) by (metis gr0_implies_Suc zero_less_nat_eq)
    with att exhausted show thesis by simp
  next
    case True
    define j where "j = (LEAST j. j < ?N \<and> ?ends j)"
    have j: "j < ?N" "?ends j"
      using LeastI_ex [OF True] unfolding j_def by (rule conjunct1, rule conjunct2)
    have "\<not> ?ends i" if "i < j" for i
      using not_less_Least [of i "\<lambda>j. j < ?N \<and> ?ends j"] that less_trans [OF that j(1)]
      unfolding j_def by blast
    then obtain m where m: "\<And>i. i < j \<Longrightarrow> answer w sn (provider_calls s + i) = Inl (RetryableProviderError (m i))"
      using retried [of j] by blast
    note ends = run_attempts_answered [where s = s and m = m, OF j(1) m]
    show thesis
    proof (cases "answer w sn (provider_calls s + j)")
      case (Inr r)
      with ends(1) assms(1) [of "provider_calls s + j"] completed show thesis by metis
    next
      case (Inl e)
      with assms(1) [of "provider_calls s + j"] j(2) obtain t where "e = NonRetryableProviderError t"
        by (cases e) (auto simp: polite_answer_def)
      with Inl ends(2) refused show thesis by blast
    qed
  qed
qed

text \<open>The cost of an answer within bounds.\<close>

lemma polite_cost:
  assumes "polite_answer (Inr r)"
  shows "0 \<le> compute_cost m (cr_prompt_tokens r) (cr_completion_tokens r)"
    "compute_cost m (cr_prompt_tokens r) (cr_completion_tokens r) \<le> 3 / 2"
proof -
  let ?p = "cr_prompt_tokens r" and ?c = "cr_completion_tokens r"
  obtain i q where price: "price_for_model m = (i, q)" by fastforce
  have b: "0 \<le> ?p" "?p \<le> 10000" "0 \<le> ?c" "?c \<le> 10000" using assms by (simp_all add: polite_answer_def)
  have le: "0 \<le> i \<and> i \<le> 75" "0 \<le> q \<and> q \<le> 75"
  proof -
    note cents = price_in_cents [OF price]
    have "x = of_int z / 100 \<and> 0 \<le> z \<and> z \<le> 7500 \<Longrightarrow> 0 \<le> x \<and> x \<le> 75" for x :: rat and z
      by (auto simp: divide_le_eq)
    with cents show "0 \<le> i \<and> i \<le> 75" "0 \<le> q \<and> q \<le> 75" by blast+
  qed
  have up: "of_int z * x \<le> 750000 \<and> 0 \<le> of_int z * x"
    if "0 \<le> z" "z \<le> 10000" "0 \<le> x" "x \<le> 75" for z :: int and x :: rat
  proof -
    have "(of_int z :: rat) \<le> 10000" using that(2) by linarith
    then show ?thesis using mult_mono [of "of_int z" 10000 x 75] that by simp
  qed
  have up: "of_int ?p * i \<le> 750000" "of_int ?c * q \<le> 750000"
    and low: "0 \<le> of_int ?p * i" "0 \<le> of_int ?c * q"
    using up [of ?p i] up [of ?c q] b le by simp_all
  have raw: "0 \<le> raw_cost m ?p ?c" "raw_cost m ?p ?c \<le> 3 / 2"
    using up low by (simp_all add: raw_cost_def price)
  show "0 \<le> compute_cost m ?p ?c" unfolding compute_cost_def by (rule quantize_nonneg) (rule raw(1))
  have "quantize 6 (raw_cost m ?p ?c) \<le> quantize 6 (3 / 2)" by (rule quantize_mono) (rule raw(2))
  also have "quantize 6 (3 / 2) = 3 / 2"
    using he.scaled_multiple [of 6 1500000] by (simp add: quantize_def)
  finally show "compute_cost m ?p ?c \<le> 3 / 2" by (simp add: compute_cost_def)
qed

subsection \<open>States in which executions cannot get stuck\<close>

definition sound :: "'a db_scheme \<Rightarrow> bool" where
  "sound d \<longleftrightarrow> book_inv d \<and> distinct (map er_id (eval_runs d)) \<and> length (run_items d) \<le> 100000 \<and> list_all item_small (run_items d) \<and> refs_ok d"

lemma touched_sound:
  assumes t: "touches k rid d d'" and s: "sound d" and inv: "book_inv d'"
  shows "sound d'"
proof -
  have ids: "map ri_id (run_items d') = map ri_id (run_items d)" "map er_id (eval_runs d') = map er_id (eval_runs d)"
      "tasks d' = tasks d" "model_endpoints d' = model_endpoints d"
    using t by (simp_all add: touches_def)
  have dist: "distinct (map ri_id (run_items d))" using s by (simp add: sound_def book_inv_def)
  have old: "\<exists>r. r \<in> set (run_items d) \<and> same_refs r r' \<and> item_small r'" if r': "r' \<in> set (run_items d')" for r'
  proof -
    have f': "fetch ri_id (ri_id r') (run_items d') = Some r'"
      using fetch_eqI [of ri_id "run_items d'"] r' dist ids(1) by metis
    have "ri_id r' \<in> set (map ri_id (run_items d))" using r' by (simp only: ids(1) [symmetric]) simp
    then obtain r where r: "fetch ri_id (ri_id r') (run_items d) = Some r"
      by (cases "fetch ri_id (ri_id r') (run_items d)") (auto simp: fetch_None_iff)
    then have "item_small r" using s fetch_SomeD [OF r] by (auto simp: sound_def list_all_iff)
    moreover have "same_refs r r' \<and> (item_small r \<longrightarrow> item_small r')"
      using t r f' unfolding touches_def by (metis option.inject)
    ultimately show ?thesis using fetch_SomeD [OF r] by blast
  qed
  have runs: "fetch er_id j (eval_runs d') \<noteq> None \<longleftrightarrow> fetch er_id j (eval_runs d) \<noteq> None" for j
    using ids(2) by (metis fetch_None_iff list.set_map)
  have "refs_ok d'"
    unfolding refs_ok_def
  proof
    fix r' assume "r' \<in> set (run_items d')"
    from old [OF this] obtain r where "r \<in> set (run_items d)" "same_refs r r'" by blast
    then show "fetch er_id (ri_eval_run_id r') (eval_runs d') \<noteq> None \<and>
        fetch tk_id (ri_task_id r') (tasks d') \<noteq> None \<and>
        fetch me_id (ri_model_endpoint_id r') (model_endpoints d') \<noteq> None"
      using s unfolding runs ids(3,4) by (simp add: sound_def refs_ok_def same_refs_def)
  qed
  moreover have "length (run_items d') \<le> 100000"
    using s arg_cong [OF ids(1), of length] by (simp add: sound_def)
  moreover have "list_all item_small (run_items d')" using old by (auto simp: list_all_iff)
  moreover have "distinct (map er_id (eval_runs d'))" using s by (simp add: sound_def ids(2))
  ultimately show ?thesis using inv by (simp add: sound_def)
qed

text \<open>The totals of a run are far inside their columns.\<close>

lemma group_sum_bounds:
  fixes w :: "run_item \<Rightarrow> 'n::linordered_idom"
  assumes "list_all (\<lambda>r. 0 \<le> w r \<and> w r \<le> c) rows" and "0 \<le> c"
  shows "0 \<le> group_sum g w k rows \<and> group_sum g w k rows \<le> of_nat (length rows) * c"
  using assms(1)
proof (induction rows)
  case Nil
  then show ?case by simp
next
  case (Cons r rows)
  then have "0 \<le> group_sum g w k rows" "group_sum g w k rows \<le> of_nat (length rows) * c" "0 \<le> w r" "w r \<le> c"
    by simp_all
  then show ?case using assms(2) by (auto simp: algebra_simps intro: add_mono add_nonneg_nonneg order_trans)
qed

lemma sound_totals:
  assumes "sound d" and "e \<in> set (eval_runs d)"
  shows "0 \<le> er_total_cost_usd e" "er_total_cost_usd e \<le> 150000" "0 \<le> er_total_tokens e"
    "er_total_tokens e \<le> 2000000000"
proof -
  have n: "length (run_items d) \<le> 100000" and small: "list_all item_small (run_items d)"
    and led: "ledger_ok d"
    using assms(1) by (simp_all add: sound_def book_inv_def)
  have tot: "er_total_cost_usd e = cost_book d (er_id e)" "er_total_tokens e = token_book d (er_id e)"
    using led assms(2) by (simp_all add: ledger_ok_iff)
  have "0 \<le> cost_book d (er_id e) \<and> cost_book d (er_id e) \<le> of_nat (length (run_items d)) * (3 / 2)"
    unfolding cost_book_def by (rule group_sum_bounds) (use small in \<open>auto simp: list_all_iff item_small_def\<close>)
  moreover have "(of_nat (length (run_items d)) :: rat) \<le> 100000" using n by linarith
  ultimately show "0 \<le> er_total_cost_usd e" "er_total_cost_usd e \<le> 150000" by (simp_all add: tot)
  have "0 \<le> token_book d (er_id e) \<and> token_book d (er_id e) \<le> of_nat (length (run_items d)) * 20000"
    unfolding token_book_def by (rule group_sum_bounds) (use small in \<open>auto simp: list_all_iff item_small_def\<close>)
  with n show "0 \<le> er_total_tokens e" "er_total_tokens e \<le> 2000000000" by (simp_all add: tot)
qed

lemma sound_fits:
  assumes "sound d" and "load_item rid d = Some sn" and "polite_answer (Inr r)"
  shows "columns_fit sn r d"
proof -
  have b: "0 \<le> cr_prompt_tokens r" "cr_prompt_tokens r \<le> 10000" "0 \<le> cr_completion_tokens r"
      "cr_completion_tokens r \<le> 10000" "int4 (cr_latency_ms r)"
    using assms(3) by (simp_all add: polite_answer_def)
  have "sn_item sn \<in> set (run_items d)"
    using load_item_row [OF assms(2)] by (auto dest: fetch_SomeD)
  then have prev: "0 \<le> prev_cost sn" "prev_cost sn \<le> 3 / 2" "0 \<le> prev_tokens sn" "prev_tokens sn \<le> 20000"
    using assms(1) by (auto simp: sound_def list_all_iff item_small_def prev_cost_def prev_tokens_def)
  note cost = polite_cost [OF assms(3), of "me_model_id (sn_endpoint sn)"]
  have run: "numeric_fits 12 6 (er_total_cost_usd e +
      (compute_cost (me_model_id (sn_endpoint sn)) (cr_prompt_tokens r) (cr_completion_tokens r) - prev_cost sn)) \<and>
      int4 (er_total_tokens e + (cr_prompt_tokens r + cr_completion_tokens r - prev_tokens sn))"
    if "e \<in> set (eval_runs d)" for e
    using sound_totals [OF assms(1) that] cost prev b by (auto simp: numeric_fits_def int4_def abs_less_iff)
  then show ?thesis
    using cost prev b by (auto simp: columns_fit_def Let_def list_all_iff numeric_fits_def int4_def abs_less_iff)
qed

subsection \<open>The end of an execution\<close>

text \<open>
  What an execution of an item of run \<open>k\<close> leaves: the item closed, and the run ended exactly when
  nothing of it is waiting.
\<close>

definition closes :: "uuid \<Rightarrow> uuid \<Rightarrow> 'a db_scheme \<Rightarrow> 'a db_scheme \<Rightarrow> bool" where
  "closes k rid d d' \<longleftrightarrow>
     (\<forall>r. fetch ri_id rid (run_items d') = Some r \<longrightarrow> ri_status r \<notin> {Item_queued, Item_running}) \<and>
     (run_status_of k d' = Some Run_running \<longrightarrow> (\<exists>r \<in> set (run_items d'). unfinished k r)) \<and>
     (run_status_of k d = Some Run_running \<and> run_status_of k d' \<noteq> Some Run_running \<longrightarrow>
        (\<forall>r \<in> set (run_items d'). ri_eval_run_id r = k \<longrightarrow> ri_status r \<noteq> Item_queued))"

lemma run_status_complete:
  "run_status_of k (maybe_complete_run k d) =
     (if rowcount (unfinished k) (run_items d) = 0 \<and> run_status_of k d = Some Run_running
      then Some (if exists_row (\<lambda>r. ri_eval_run_id r = k \<and> ri_status r = Item_dead_lettered) (run_items d)
                 then Run_failed else Run_completed)
      else run_status_of k d)"
  using fetch_SomeD [of er_id k "eval_runs d"]
  by (cases "fetch er_id k (eval_runs d)")
     (auto simp: run_status_of_def complete_run_defs Let_def fetch_sql_update)

lemma closes_complete:
  assumes "run_status_of k d = run_status_of k s"
    and "\<And>r. fetch ri_id rid (run_items d) = Some r \<Longrightarrow> ri_status r \<notin> {Item_queued, Item_running}"
  shows "closes k rid s (maybe_complete_run k d)"
  using assms
  by (auto simp: closes_def run_status_complete tx_simps rowcount_zero_iff unfinished_def split: if_splits)

lemma run_status_frame [simp]:
  "run_status_of k (inc_eval_items st m s) = run_status_of k s"
  "run_status_of k (tried rid n ds s) = run_status_of k s"
  "run_status_of k (mark_failed rid err d) = run_status_of k d"
  "run_status_of k (mark_dead_lettered rid err d) = run_status_of k d"
  "run_status_of k (publish_dead_letter i s) = run_status_of k s"
  "run_status_of k (inc_dead_letters s) = run_status_of k s"
  by (simp_all add: run_status_of_def tx_simps publish_dead_letter_def inc_dead_letters_def)

lemma marked_status:
  "fetch ri_id rid (run_items (mark_failed rid err d)) = Some r \<Longrightarrow> ri_status r = Item_failed"
  "fetch ri_id rid (run_items (mark_dead_lettered rid err d)) = Some r \<Longrightarrow> ri_status r = Item_dead_lettered"
  using fetch_SomeD [of ri_id rid "run_items d"]
  by (cases "fetch ri_id rid (run_items d)"; auto simp: fetch_mark)+

lemma run_status_of_maps:
  assumes "map er_id (eval_runs d') = map er_id (eval_runs d)"
    and "map er_status (eval_runs d') = map er_status (eval_runs d)"
  shows "run_status_of k d' = run_status_of k d"
proof -
  have "map er_id es' = map er_id es \<Longrightarrow> map er_status es' = map er_status es \<Longrightarrow>
      map_option er_status (fetch er_id k es') = map_option er_status (fetch er_id k es)" for es' es
    by (induction es arbitrary: es') auto
  with assms show ?thesis by (simp add: run_status_of_def)
qed

lemma dead_letter_frame [simp]:
  "run_items (inc_dead_letters s) = run_items s" "run_items (publish_dead_letter i s) = run_items s"
  by (simp_all add: inc_dead_letters_def publish_dead_letter_def)

lemma closes_inc [simp]: "closes k rid d (inc_eval_items st m s) = closes k rid d s"
  by (simp add: closes_def)

lemma abort_ends:
  assumes ab: "abort_over_budget k l t d = (b, d')" and dist: "distinct (map er_id (eval_runs d))"
  shows "b \<Longrightarrow> run_status_of k d' = Some Run_failed \<and>
      (\<forall>r \<in> set (run_items d'). ri_eval_run_id r = k \<longrightarrow> ri_status r \<noteq> Item_queued)"
    and "\<not> b \<Longrightarrow> run_status_of k d' = run_status_of k d"
proof -
  let ?p = "\<lambda>e. er_id e = k \<and> er_status e = Run_running \<and> l < er_total_cost_usd e"
  have rc: "rowcount ?p (eval_runs d) = (case fetch er_id k (eval_runs d) of None \<Rightarrow> 0
      | Some e \<Rightarrow> if er_status e = Run_running \<and> l < er_total_cost_usd e then 1 else 0)"
    by (rule rowcount_key) (rule dist)
  show "run_status_of k d' = Some Run_failed \<and>
      (\<forall>r \<in> set (run_items d'). ri_eval_run_id r = k \<longrightarrow> ri_status r \<noteq> Item_queued)" if b
  proof -
    have one: "rowcount ?p (eval_runs d) = 1"
      using ab that by (simp add: abort_over_budget_def Let_def split: if_splits)
    obtain e where e: "fetch er_id k (eval_runs d) = Some e" "er_id e = k"
      using rc fetch_SomeD [of er_id k "eval_runs d"] by (cases "fetch er_id k (eval_runs d)") (simp_all add: one)
    have "?p e" using rc e by (auto simp: one split: if_splits)
    note e = e(1) this
    have d': "d' = snd (abort_over_budget k l t d)" by (simp add: ab)
    have "run_status_of k d' = Some Run_failed"
      using e by (simp add: d' abort_over_budget_def Let_def one run_status_of_def fetch_sql_update)
    moreover have "ri_status r \<noteq> Item_queued" if r: "r \<in> set (run_items d')" "ri_eval_run_id r = k" for r
    proof -
      define f :: "run_item \<Rightarrow> run_item" where "f = (\<lambda>r. r\<lparr>ri_status := Item_failed,
        ri_error := Some ''aborted: eval run spend limit exceeded'', ri_updated_at := db_now d\<rparr>)"
      have items: "run_items d' = sql_update (\<lambda>r. ri_eval_run_id r = k \<and> ri_status r = Item_queued) f (run_items d)"
        by (simp add: d' abort_over_budget_def Let_def one f_def)
      obtain r0 where "r = (if ri_eval_run_id r0 = k \<and> ri_status r0 = Item_queued then f r0 else r0)"
        using r(1) unfolding items set_sql_update by (rule imageE)
      moreover have "ri_status (f x) = Item_failed" for x by (simp add: f_def)
      ultimately show ?thesis using that(2) by (cases "ri_eval_run_id r0 = k \<and> ri_status r0 = Item_queued") auto
    qed
    ultimately show ?thesis by blast
  qed
  show "run_status_of k d' = run_status_of k d" if "\<not> b"
  proof -
    have "rowcount ?p (eval_runs d) \<noteq> 1"
      using ab that by (simp add: abort_over_budget_def Let_def split: if_splits)
    then have z: "rowcount ?p (eval_runs d) = 0"
      using rc by (cases "fetch er_id k (eval_runs d)") (auto split: if_splits)
    have d': "d' = snd (abort_over_budget k l t d)" by (simp add: ab)
    have "eval_runs d' = eval_runs d"
      by (simp add: d' abort_over_budget_def Let_def z sql_update_noop [OF z])
    then show ?thesis by (simp add: run_status_of_def)
  qed
qed

context grading_step
begin

lemma grade_and_complete_closes:
  assumes "grade_and_complete gstep sn c s = (rep, s')" and "touches (sn_run_id sn) (sn_rid sn) s0 s"
    and "run_status_of (sn_run_id sn) s = run_status_of (sn_run_id sn) s0"
    and "fetch ri_id (sn_rid sn) (run_items s) = Some r1" and "ri_status r1 = Item_succeeded"
  shows "touches (sn_run_id sn) (sn_rid sn) s0 s' \<and> closes (sn_run_id sn) (sn_rid sn) s0 s'"
proof -
  obtain g s1 where g: "gstep (sn_rid sn) (sn_task sn) (cr_text c) s = (g, s1)" by fastforce
  have same: "run_items s1 = run_items s" "eval_runs s1 = eval_runs s" "tasks s1 = tasks s"
      "model_endpoints s1 = model_endpoints s"
    using keeps_run_items [of "sn_rid sn" "sn_task sn" "cr_text c" s]
      keeps_eval_runs [of "sn_rid sn" "sn_task sn" "cr_text c" s]
      keeps_tasks [of "sn_rid sn" "sn_task sn" "cr_text c" s]
      keeps_model_endpoints [of "sn_rid sn" "sn_task sn" "cr_text c" s]
    by (simp_all add: g)
  have t1: "touches (sn_run_id sn) (sn_rid sn) s0 s1"
    using assms(2) touches_same [OF same] by (rule touches_trans)
  have st: "run_status_of (sn_run_id sn) s1 = run_status_of (sn_run_id sn) s0"
    using assms(3) by (simp add: run_status_of_def same)
  note go = touches_trans [OF t1] touches_trans [OF touches_trans [OF t1]]
  show ?thesis
  proof (cases g)
    case (Inl e)
    have "s' = maybe_complete_run (sn_run_id sn) (inc_eval_items Item_failed (me_name (sn_endpoint sn))
        (mark_failed (sn_rid sn) (''grading pipeline failed: '' @ exn_text e) s1))"
      using assms(1) by (simp add: grade_and_complete_def g Inl)
    then show ?thesis
      using st t1 by (auto intro!: closes_complete touches_then dest!: marked_status)
  next
    case (Inr gs)
    have "s' = inc_eval_items Item_succeeded (me_name (sn_endpoint sn))
        (maybe_complete_run (sn_run_id sn) s1)"
      using assms(1) by (simp add: grade_and_complete_def g Inr)
    then show ?thesis
      using st t1 assms(4,5) by (auto intro!: closes_complete touches_then simp: same)
  qed
qed

lemma after_completion_closes:
  assumes t: "touches (sn_run_id sn) (sn_rid sn) s0 s" and live: "run_status_of (sn_run_id sn) s \<noteq> Some Run_cancelled"
    and st: "run_status_of (sn_run_id sn) s = run_status_of (sn_run_id sn) s0"
    and keys: "distinct (map ri_id (run_items s))" "distinct (map er_id (eval_runs s))"
    and fit: "columns_fit sn c s" and pol: "polite_answer (Inr c)"
    and row: "fetch ri_id (sn_rid sn) (run_items s) = Some r0" "ri_status r0 = Item_running"
    and out: "after_completion gstep w sn c s = (rep, s')"
  shows "touches (sn_run_id sn) (sn_rid sn) s0 s' \<and> closes (sn_run_id sn) (sn_rid sn) s0 s'"
proof -
  let ?k = "sn_run_id sn" and ?rid = "sn_rid sn"
  define s1 where "s1 = s\<lparr>redis := (redis s)(build_artifact_key ?rid \<mapsto>
    artifact_of (sn_task sn) (sn_endpoint sn) c)\<rparr>"
  have art: "set_artifact ?rid (artifact_of (sn_task sn) (sn_endpoint sn) c) s =
      (build_artifact_key ?rid, s1)"
    by (simp add: set_artifact_def s1_def Let_def)
  obtain s2 where fin: "finalize_completion sn c (build_artifact_key ?rid) s1 = Inr (True, s2)"
      "fetch ri_id ?rid (run_items s2) = Some (finalized sn c (db_now s1) r0)"
    and ids: "map er_id (eval_runs s2) = map er_id (eval_runs s1)"
      "map er_status (eval_runs s2) = map er_status (eval_runs s1)"
    by (rule finalize_completion_written [of sn c s1 r0])
       (use fit keys row in \<open>simp_all add: s1_def columns_fit_def\<close>)
  have t1: "touches ?k ?rid s s1" unfolding s1_def by (rule touches_sys)
  have t12: "touches ?k ?rid s1 s2"
    by (rule touches_finalize [OF fin(1) [unfolded finalize_completion_def Let_def]])
       (use pol polite_cost [OF pol] in \<open>simp_all add: polite_answer_def\<close>)
  have t2: "touches ?k ?rid s0 s2" by (rule touches_trans [OF touches_trans [OF t t1] t12])
  have st2: "run_status_of ?k s2 = run_status_of ?k s0"
    using run_status_of_maps [OF ids] st by (simp add: s1_def run_status_of_def)
  obtain b s3 where ab: "abort_over_budget ?k (we_spend_limit w) (we_spend_text w) s2 = (b, s3)"
    by fastforce
  have t3: "touches ?k ?rid s0 s3" by (rule touches_trans [OF t2 touches_abort [OF ab]])
  have dist: "distinct (map er_id (eval_runs s2))" unfolding ids(1) using keys(2) by (simp add: s1_def)
  have row3: "fetch ri_id ?rid (run_items s3) = Some (finalized sn c (db_now s1) r0)"
    by (rule abort_fetch_succeeded [OF fin(2) _ ab]) (simp add: finalized_def)
  show ?thesis
  proof (cases b)
    case True
    with out live have s': "s' = inc_eval_items Item_succeeded (me_name (sn_endpoint sn)) s3"
      by (simp add: after_completion_def art fin(1) ab)
    have "closes ?k ?rid s0 s3"
      using abort_ends(1) [OF ab dist True] row3 by (auto simp: closes_def finalized_def)
    with t3 show ?thesis by (simp add: s' touches_then(4))
  next
    case False
    then have "grade_and_complete gstep sn c s3 = (rep, s')"
      using out live by (simp add: after_completion_def art fin(1) ab)
    from grade_and_complete_closes [OF this t3 _ row3] show ?thesis
      using abort_ends(2) [OF ab dist False] st2 by (simp add: finalized_def)
  qed
qed

lemma executed_closes:
  assumes s: "sound s" and load: "load_item rid s = Some sn" and ex: "executable sn"
    and pol: "\<And>n. polite_answer (answer w sn n)" and pos: "0 < max_attempts (we_retry w)"
  shows "touches (sn_run_id sn) rid s (snd (execute_with gstep w rid s)) \<and>
    closes (sn_run_id sn) rid s (snd (execute_with gstep w rid s))"
proof -
  note row = load_item_row [OF load]
  let ?k = "sn_run_id sn"
  have exe: "execute_with gstep w rid s = execute_loaded gstep w sn s"
    by (rule execute_executable [OF load ex])
  show ?thesis
    using pol pos
  proof (cases rule: polite_attempts [of w sn s])
    case (refused j ds t)
    let ?d = "inc_eval_items Item_failed (me_name (sn_endpoint sn))
      (mark_failed rid t (tried rid (Suc j) ds s))"
    have "touches ?k rid s (maybe_complete_run ?k ?d)" by (intro touches_then touches_refl)
    moreover have "closes ?k rid s (maybe_complete_run ?k ?d)"
      by (rule closes_complete) (auto dest!: marked_status)
    ultimately show ?thesis
      using refused by (simp add: exe execute_loaded_def after_refused_def row(3))
  next
    case (exhausted j ds t)
    let ?d = "inc_eval_items Item_dead_lettered (me_name (sn_endpoint sn)) (inc_dead_letters
      (publish_dead_letter rid (mark_dead_lettered rid (''exhausted '' @ show_int (max_attempts (we_retry w)) @
        '' attempts: '' @ t) (tried rid (Suc j) ds s))))"
    have "touches ?k rid s (maybe_complete_run ?k ?d)" by (intro touches_then touches_refl)
    moreover have "closes ?k rid s (maybe_complete_run ?k ?d)"
      by (rule closes_complete) (auto dest!: marked_status)
    ultimately show ?thesis
      using exhausted by (simp add: exe execute_loaded_def after_exhausted_def Let_def row(3))
  next
    case (completed j ds c)
    let ?s1 = "tried rid (Suc j) ds s"
    have t1: "touches ?k rid s ?s1" by (rule touches_tried)
    have "book_inv s" "distinct (map er_id (eval_runs s))" using s by (simp_all add: sound_def)
    then have keys: "distinct (map ri_id (run_items ?s1))" "distinct (map er_id (eval_runs ?s1))"
      by (simp_all add: book_inv_def)
    have fit: "columns_fit sn c ?s1" using sound_fits [OF s load completed(2)] by (simp add: columns_fit_def)
    have live: "run_status_of ?k s \<noteq> Some Run_cancelled"
      using load ex by (auto simp: run_status_of_def executable_def elim!: load_item_Some)
    obtain r0 where r0: "fetch ri_id rid (run_items ?s1) = Some r0" "ri_status r0 = Item_running"
      using row by (auto simp: fetch_bump)
    obtain rep s' where out: "after_completion gstep w sn c ?s1 = (rep, s')" by fastforce
    have "touches ?k rid s s' \<and> closes ?k rid s s'"
      using after_completion_closes [OF _ _ _ keys fit completed(2) _ r0(2) out, of s] t1 live r0(1) row(3)
      by simp
    with completed(1) out row(3) show ?thesis by (simp add: exe execute_loaded_def)
  qed
qed

end

subsection \<open>Draining the queue\<close>

definition open_items :: "uuid \<Rightarrow> 'a db_scheme \<Rightarrow> uuid set" where
  "open_items k d = ri_id ` {r \<in> set (run_items d). unfinished k r}"

text \<open>Between two executions nothing of the run is in flight, and the run runs while something waits.\<close>

definition draining :: "uuid \<Rightarrow> 'a db_scheme \<Rightarrow> bool" where
  "draining k d \<longleftrightarrow> sound d \<and>
     (\<forall>r \<in> set (run_items d). ri_eval_run_id r = k \<longrightarrow> ri_status r \<noteq> Item_running) \<and>
     run_status_of k d \<in> {Some Run_running, Some Run_completed, Some Run_failed} \<and>
     (run_status_of k d = Some Run_running \<longleftrightarrow> (\<exists>r \<in> set (run_items d). unfinished k r))"

lemma sound_keys: "sound d \<Longrightarrow> distinct (map ri_id (run_items d))"
  by (simp add: sound_def book_inv_def)

lemma touched_status:
  assumes "touches j rid d d'" and "fetch ri_id i (run_items d) = Some r" and "fetch ri_id i (run_items d') = Some r'"
  shows "ri_eval_run_id r' = ri_eval_run_id r"
    and "i = rid \<or> ri_status r' = ri_status r \<or> ri_eval_run_id r = j \<and> ri_status r' = Item_failed"
  using assms unfolding touches_def same_refs_def by fastforce+

lemma touched_row:
  assumes t: "touches j rid d d'" and s: "sound d" "sound d'"
  shows "r' \<in> set (run_items d') \<Longrightarrow> \<exists>r. fetch ri_id (ri_id r') (run_items d) = Some r \<and>
      fetch ri_id (ri_id r') (run_items d') = Some r'"
    and "r \<in> set (run_items d) \<Longrightarrow> \<exists>r'. fetch ri_id (ri_id r) (run_items d') = Some r' \<and>
      fetch ri_id (ri_id r) (run_items d) = Some r"
proof -
  have "set (map ri_id (run_items d')) = set (map ri_id (run_items d))"
    using t by (simp add: touches_def)
  then have ids: "fetch ri_id i (run_items d') \<noteq> None \<longleftrightarrow> fetch ri_id i (run_items d) \<noteq> None" for i
    by (simp add: fetch_None_iff)
  show "\<exists>r. fetch ri_id (ri_id r') (run_items d) = Some r \<and> fetch ri_id (ri_id r') (run_items d') = Some r'"
    if "r' \<in> set (run_items d')"
    using fetch_eqI [OF sound_keys [OF s(2)] that] ids [of "ri_id r'"] by auto
  show "\<exists>r'. fetch ri_id (ri_id r) (run_items d') = Some r' \<and> fetch ri_id (ri_id r) (run_items d) = Some r"
    if "r \<in> set (run_items d)"
    using fetch_eqI [OF sound_keys [OF s(1)] that] ids [of "ri_id r"] by auto
qed

lemma open_shrinks:
  assumes "\<And>r'. r' \<in> set (run_items d') \<Longrightarrow> unfinished k r' \<Longrightarrow>
      ri_id r' \<noteq> rid \<and> (\<exists>r \<in> set (run_items d). ri_id r = ri_id r' \<and> unfinished k r)"
  shows "open_items k d' \<subseteq> open_items k d - {rid}"
proof
  fix i assume "i \<in> open_items k d'"
  then obtain r' where "r' \<in> set (run_items d')" "unfinished k r'" "i = ri_id r'"
    by (auto simp: open_items_def)
  with assms [OF this(1,2)] show "i \<in> open_items k d - {rid}"
    unfolding open_items_def by (metis (mono_tags, lifting) DiffI image_eqI mem_Collect_eq singletonD)
qed

text \<open>No execution moves an item to another run.\<close>

lemma touched_refs:
  assumes t: "touches j rid d d'" and s: "sound d" "sound d'"
  shows "map ri_eval_run_id (run_items d') = map ri_eval_run_id (run_items d)"
proof -
  have ids: "map ri_id (run_items d') = map ri_id (run_items d)" using t by (simp add: touches_def)
  then have len: "length (run_items d') = length (run_items d)" by (rule map_eq_imp_length_eq)
  have "ri_eval_run_id (run_items d' ! n) = ri_eval_run_id (run_items d ! n)" if n: "n < length (run_items d)" for n
  proof -
    have "ri_id (run_items d' ! n) = ri_id (run_items d ! n)" using ids n len by (metis nth_map)
    then have "fetch ri_id (ri_id (run_items d ! n)) (run_items d') = Some (run_items d' ! n)"
      using fetch_eqI [OF sound_keys [OF s(2)], of "run_items d' ! n"] n len by simp
    moreover have "fetch ri_id (ri_id (run_items d ! n)) (run_items d) = Some (run_items d ! n)"
      using fetch_eqI [OF sound_keys [OF s(1)], of "run_items d ! n"] n by simp
    ultimately show ?thesis using touched_status(1) [OF t] by blast
  qed
  with len show ?thesis by (simp add: list_eq_iff_nth_eq)
qed

text \<open>An execution for the run itself, and one for another run.\<close>

lemma draining_own:
  assumes d: "draining k d" and s: "sound d'" and t: "touches k rid d d'" and c: "closes k rid d d'"
  shows "draining k d' \<and> open_items k d' \<subseteq> open_items k d - {rid}"
proof -
  have sd: "sound d" using d by (simp add: draining_def)
  have both: "(ri_id r' \<noteq> rid \<and> (\<exists>r \<in> set (run_items d). ri_id r = ri_id r' \<and> unfinished k r)) \<and>
      ri_status r' = Item_queued"
    if r': "r' \<in> set (run_items d')" "unfinished k r'" for r'
  proof -
    obtain r where r: "fetch ri_id (ri_id r') (run_items d) = Some r" "fetch ri_id (ri_id r') (run_items d') = Some r'"
      using touched_row(1) [OF t sd s r'(1)] by blast
    have ne: "ri_id r' \<noteq> rid" using c r(2) r'(2) by (auto simp: closes_def unfinished_def)
    then have st: "ri_status r' = ri_status r" "ri_eval_run_id r = k"
      using touched_status [OF t r] r'(2) by (auto simp: unfinished_def)
    then have un: "unfinished k r" using r'(2) by (simp add: unfinished_def)
    have "ri_status r \<noteq> Item_running" using d st(2) fetch_SomeD [OF r(1)] by (auto simp: draining_def)
    with st(1) r'(2) have "ri_status r' = Item_queued" by (auto simp: unfinished_def)
    with ne un fetch_SomeD [OF r(1)] show ?thesis by blast
  qed
  note was = both [THEN conjunct1] and queued = both [THEN conjunct2]
  have no: "ri_status r' \<noteq> Item_running" if "r' \<in> set (run_items d')" "ri_eval_run_id r' = k" for r'
    using queued [OF that(1)] that(2) by (auto simp: unfinished_def)
  have status: "run_status_of k d' \<in> {Some Run_running, Some Run_completed, Some Run_failed}"
  proof -
    have "run_status_of k d' = run_status_of k d \<or> run_status_of k d' \<in> {Some Run_completed, Some Run_failed}"
      using t unfolding touches_def by blast
    moreover have "run_status_of k d \<in> {Some Run_running, Some Run_completed, Some Run_failed}"
      using d unfolding draining_def by (elim conjE)
    ultimately show ?thesis by auto
  qed
  have "run_status_of k d' = Some Run_running" if "r' \<in> set (run_items d')" "unfinished k r'" for r'
  proof -
    have "run_status_of k d = Some Run_running" using was [OF that] d by (auto simp: draining_def)
    with c queued [OF that] that show ?thesis by (auto simp: closes_def unfinished_def)
  qed
  with c s no status have "draining k d'" by (auto simp: draining_def closes_def)
  moreover have "open_items k d' \<subseteq> open_items k d - {rid}"
    using was by (rule open_shrinks)
  ultimately show ?thesis ..
qed

lemma draining_other:
  assumes d: "draining k d" and s: "sound d'" and t: "touches j rid d d'" and jk: "j \<noteq> k"
    and own: "\<And>r. fetch ri_id rid (run_items d) = Some r \<Longrightarrow> ri_eval_run_id r = j"
  shows "draining k d' \<and> open_items k d' \<subseteq> open_items k d - {rid}"
proof -
  have sd: "sound d" using d by (simp add: draining_def)
  have st: "run_status_of k d' = run_status_of k d" using t jk unfolding touches_def by blast
  have same: "ri_id r' \<noteq> rid \<and> (\<exists>r \<in> set (run_items d). ri_id r = ri_id r' \<and> ri_eval_run_id r = k \<and>
      ri_status r = ri_status r')" if r': "r' \<in> set (run_items d')" "ri_eval_run_id r' = k" for r'
  proof -
    obtain r where r: "fetch ri_id (ri_id r') (run_items d) = Some r" "fetch ri_id (ri_id r') (run_items d') = Some r'"
      using touched_row(1) [OF t sd s r'(1)] by blast
    note ts = touched_status [OF t r]
    have "ri_id r' \<noteq> rid" using own r(1) ts(1) r'(2) jk by metis
    with ts r'(2) jk fetch_SomeD [OF r(1)] show ?thesis by auto
  qed
  have fwd: "\<exists>r' \<in> set (run_items d'). unfinished k r'" if r0: "r \<in> set (run_items d)" "unfinished k r" for r
  proof -
    obtain r' where r: "fetch ri_id (ri_id r) (run_items d) = Some r" "fetch ri_id (ri_id r) (run_items d') = Some r'"
      using touched_row(2) [OF t sd s r0(1)] by blast
    note ts = touched_status [OF t r]
    have "ri_id r \<noteq> rid" using own r(1) r0(2) jk by (auto simp: unfinished_def)
    with ts r0(2) jk have "unfinished k r'" by (auto simp: unfinished_def)
    with fetch_SomeD [OF r(2)] show ?thesis by blast
  qed
  have was: "ri_id r' \<noteq> rid \<and> (\<exists>r \<in> set (run_items d). ri_id r = ri_id r' \<and> unfinished k r)"
    if "r' \<in> set (run_items d')" "unfinished k r'" for r'
    using same [OF that(1)] that(2) by (auto simp: unfinished_def)
  have "(\<exists>r \<in> set (run_items d'). unfinished k r) \<longleftrightarrow> (\<exists>r \<in> set (run_items d). unfinished k r)"
    using fwd was by blast
  moreover have "ri_status r' \<noteq> Item_running" if "r' \<in> set (run_items d')" "ri_eval_run_id r' = k" for r'
    using same [OF that] d by (auto simp: draining_def)
  ultimately have "draining k d'" using d s st unfolding draining_def by metis
  moreover have "open_items k d' \<subseteq> open_items k d - {rid}"
    using was by (rule open_shrinks)
  ultimately show ?thesis ..
qed

lemma open_unless:
  assumes "sound d" and "\<And>r. fetch ri_id rid (run_items d) = Some r \<Longrightarrow> \<not> unfinished k r"
  shows "open_items k d \<subseteq> open_items k d - {rid}"
  using assms(2) fetch_eqI [OF sound_keys [OF assms(1)]] by (auto simp: open_items_def)

context grading_step
begin

text \<open>Any delivery, of whatever item in whatever state.\<close>

lemma delivery_drains:
  assumes d: "draining k s" and pol: "polite (we_provider w) s" and pos: "0 < max_attempts (we_retry w)"
    and s': "s' = snd (execute_with gstep w rid s)"
  shows "draining k s' \<and> open_items k s' \<subseteq> open_items k s - {rid} \<and> tasks s' = tasks s \<and>
    map ri_eval_run_id (run_items s') = map ri_eval_run_id (run_items s)"
proof (cases "load_item rid s")
  case None
  have sd: "sound s" using d by (simp add: draining_def)
  have "fetch ri_id rid (run_items s) = None"
  proof (cases "fetch ri_id rid (run_items s)")
    case (Some r)
    with None sd show ?thesis
      using fetch_SomeD [OF Some] by (auto simp: load_item_def sound_def refs_ok_def split: option.splits)
  qed
  then have "open_items k s \<subseteq> open_items k s - {rid}" by (intro open_unless [OF sd]) simp
  with d show ?thesis by (simp add: s' execute_with_def None)
next
  case (Some sn)
  note row = load_item_row [OF Some]
  have sd: "sound s" using d by (simp add: draining_def)
  have st: "run_status_of (sn_run_id sn) s = Some (sn_run_status sn)"
    using Some by (auto simp: run_status_of_def elim!: load_item_Some)
  have inv: "book_inv s'" using sd execute_book [of s w rid] by (simp add: s' sound_def)
  consider (exec) "executable sn" | (cancelled) "sn_run_status sn = Run_cancelled"
    | (failed) "sn_run_status sn = Run_failed"
    | (skip) "sn_run_status sn \<notin> {Run_cancelled, Run_failed}" "ri_status (sn_item sn) \<notin> {Item_queued, Item_dead_lettered}"
    unfolding executable_def by blast
  then have "(s' = s \<and> ri_status (sn_item sn) \<noteq> Item_queued) \<or>
      touches (sn_run_id sn) rid s s' \<and> (sn_run_status sn \<noteq> Run_cancelled \<longrightarrow> closes (sn_run_id sn) rid s s')"
  proof cases
    case exec
    have "polite_answer (answer w sn n)" for n
      using pol Some by (auto simp: polite_def answer_base dest: fetch_SomeD elim!: load_item_Some)
    from executed_closes [OF sd Some exec this pos] show ?thesis by (simp add: s')
  next
    case cancelled
    then show ?thesis by (simp add: s' execute_with_def Some touches_then(4) touches_marks)
  next
    case failed
    have "touches (sn_run_id sn) rid s s'"
      using failed by (simp add: s' execute_with_def Some touches_then(4) touches_marks)
    moreover have "closes (sn_run_id sn) rid s s'"
      using failed st by (auto simp: s' execute_with_def Some closes_def dest!: marked_status)
    ultimately show ?thesis by simp
  next
    case skip
    then show ?thesis by (auto simp: s' execute_with_def Some)
  qed
  then show ?thesis
  proof (elim disjE conjE)
    assume "s' = s" "ri_status (sn_item sn) \<noteq> Item_queued"
    moreover from this have "\<not> unfinished k (sn_item sn)"
      using d row fetch_SomeD [OF row(1)] by (auto simp: draining_def unfinished_def)
    ultimately show ?thesis using d row(1) open_unless [OF sd, of rid k] by auto
  next
    assume t: "touches (sn_run_id sn) rid s s'"
      and c: "sn_run_status sn \<noteq> Run_cancelled \<longrightarrow> closes (sn_run_id sn) rid s s'"
    have "draining k s' \<and> open_items k s' \<subseteq> open_items k s - {rid}"
    proof (cases "sn_run_id sn = k")
      case True
      with st d have "sn_run_status sn \<noteq> Run_cancelled" by (auto simp: draining_def)
      with c True t show ?thesis by (intro draining_own [OF d touched_sound [OF t sd inv]]) auto
    next
      case False
      then show ?thesis
        using row by (intro draining_other [OF d touched_sound [OF t sd inv] t]) auto
    qed
    moreover have "tasks s' = tasks s" using t by (simp add: touches_def)
    moreover have "map ri_eval_run_id (run_items s') = map ri_eval_run_id (run_items s)"
      by (rule touched_refs [OF t sd touched_sound [OF t sd inv]])
    ultimately show ?thesis by blast
  qed
qed

end

lemma deliveries_drain:
  assumes "draining k s" and "polite (we_provider w) s" and "0 < max_attempts (we_retry w)"
    and "s' = fold (\<lambda>rid s. snd (execute_run_item env w rid s)) rids s"
  shows "draining k s' \<and> open_items k s' \<subseteq> open_items k s - set rids \<and>
    map ri_eval_run_id (run_items s') = map ri_eval_run_id (run_items s)"
  using assms(1,2,4)
proof (induction rids arbitrary: s)
  case Nil
  then show ?case by simp
next
  case (Cons rid rids)
  define s1 where "s1 = snd (execute_run_item env w rid s)"
  have "draining k s1 \<and> open_items k s1 \<subseteq> open_items k s - {rid} \<and> tasks s1 = tasks s \<and>
      map ri_eval_run_id (run_items s1) = map ri_eval_run_id (run_items s)"
    by (rule pipeline.delivery_drains [OF Cons.prems(1,2) assms(3)])
       (simp add: s1_def execute_run_item_def)
  moreover from this have "draining k s' \<and> open_items k s' \<subseteq> open_items k s1 - set rids \<and>
      map ri_eval_run_id (run_items s') = map ri_eval_run_id (run_items s1)"
    using Cons.prems(2,3) by (intro Cons.IH) (simp_all add: polite_def s1_def)
  ultimately show ?case by auto
qed



end
