(* ===== verification/Load_Test.thy ===== *)
theory Load_Test
  imports Routing Drain
begin

text \<open>
  \<open>scripts/seed_and_run.py\<close>, the load test: a client that creates a task set with 50 tasks and three
  model endpoints over the HTTP API, submits a run of them and polls until the run has ended. Its
  requests go through \<open>serve_http\<close>, by the paths the script writes.

  \<open>asyncio.gather\<close> sends the requests of a group at once; the order in which the service gets them is
  an argument. So are the clock reading in the name of the task set, and the states that the polls
  find, as a function of the state after the submission; when they are used up the deadline has
  passed. The report that is printed at the end is left out.
\<close>

subsection \<open>The client\<close>

datatype script_error = Sys_exit int | HTTPStatusError int | Bad_body

definition NUM_TASKS :: nat where
  "NUM_TASKS = 50"

definition NUM_MODELS :: nat where
  "NUM_MODELS = 3"

definition TERMINAL_STATUSES :: "eval_run_status list" where
  "TERMINAL_STATUSES = [Run_completed, Run_failed, Run_cancelled]"

definition headers :: "string \<Rightarrow> script_error + string" where
  "headers api_key = (if api_key = [] then Inl (Sys_exit 1) else Inr api_key)"

definition client_request :: "string \<Rightarrow> string \<Rightarrow> string \<Rightarrow> http_request" where
  "client_request api_key method path =
     \<lparr>hr_method = method, hr_path = path, hr_x_api_key = Some api_key, hr_authorization = None,
      hr_x_request_id = None\<rparr>"

text \<open>One request with \<open>raise_for_status\<close>; \<open>data\<close> is the body it sends.\<close>

definition call :: "service_env \<Rightarrow> string \<Rightarrow> string \<Rightarrow> string \<Rightarrow> request_data \<Rightarrow> sys \<Rightarrow>
    (script_error + answer body) \<times> sys" where
  "call env api_key method path data s =
     (let (response, s') = serve_http env data (client_request api_key method path) s
      in if 200 \<le> rs_status response \<and> rs_status response < 300
         then (Inr (rs_body response), s')
         else (Inl (HTTPStatusError (rs_status response)), s'))"

text \<open>\<open>response.json()["id"]\<close>.\<close>

definition body_id :: "answer body \<Rightarrow> script_error + uuid" where
  "body_id b =
     (case b of
        Answer (A_task_set ts) \<Rightarrow> Inr (ts_id ts)
      | Answer (A_model m) \<Rightarrow> Inr (me_id m)
      | Answer (A_accepted i _) \<Rightarrow> Inr i
      | _ \<Rightarrow> Inl Bad_body)"

subsection \<open>Seeding\<close>

definition load_task_set :: "nat \<Rightarrow> task_set_create" where
  "load_task_set now = \<lparr>tsc_name = ''load-test-'' @ show_nat now,
     tsc_description = Some ''generated by scripts/seed_and_run.py''\<rparr>"

definition load_task :: "nat \<Rightarrow> task_create" where
  "load_task i = \<lparr>tc_prompt = ''Load-test prompt number '' @ show_nat i @ '': answer concisely.'',
     tc_capability = ''load_test'', tc_expected_output = None, tc_grader_type = GT_exact_match,
     tc_grader_config = None\<rparr>"

definition load_model :: "nat \<Rightarrow> model_endpoint_create" where
  "load_model j = \<lparr>mec_name = ''fake-model-'' @ show_nat j, mec_provider = P_local,
     mec_model_id = ''fake-model-'' @ show_nat j, mec_model_version = ''v1'', mec_base_url = None\<rparr>"

fun create_load_tasks :: "service_env \<Rightarrow> string \<Rightarrow> uuid \<Rightarrow> nat list \<Rightarrow> sys \<Rightarrow> (script_error + unit) \<times> sys" where
  "create_load_tasks env api_key k [] s = (Inr (), s)"
| "create_load_tasks env api_key k (i # is) s =
     (case call env api_key ''POST'' (''/v1/task-sets/'' @ uuid_str k @ ''/tasks'') (no_data\<lparr>rq_task := Some (load_task i)\<rparr>) s of
        (Inl e, s') \<Rightarrow> (Inl e, s')
      | (Inr _, s') \<Rightarrow> create_load_tasks env api_key k is s')"

fun create_load_models :: "service_env \<Rightarrow> string \<Rightarrow> nat list \<Rightarrow> sys \<Rightarrow> (script_error + (nat \<times> uuid) list) \<times> sys" where
  "create_load_models env api_key [] s = (Inr [], s)"
| "create_load_models env api_key (j # js) s =
     (case call env api_key ''POST'' ''/v1/models'' (no_data\<lparr>rq_model := Some (load_model j)\<rparr>) s of
        (Inl e, s') \<Rightarrow> (Inl e, s')
      | (Inr b, s') \<Rightarrow>
          (case body_id b of
             Inl e \<Rightarrow> (Inl e, s')
           | Inr i \<Rightarrow>
               (case create_load_models env api_key js s' of
                  (Inl e, s'') \<Rightarrow> (Inl e, s'')
                | (Inr ids, s'') \<Rightarrow> (Inr ((j, i) # ids), s''))))"

text \<open>\<open>gather\<close> returns the ids in the order of the calls, whatever the order of the answers.\<close>

definition seed :: "service_env \<Rightarrow> string \<Rightarrow> nat \<Rightarrow> nat list \<Rightarrow> nat list \<Rightarrow> sys \<Rightarrow>
    (script_error + uuid \<times> uuid list) \<times> sys" where
  "seed env api_key now task_order model_order s =
     (case call env api_key ''POST'' ''/v1/task-sets'' (no_data\<lparr>rq_task_set := Some (load_task_set now)\<rparr>) s of
        (Inl e, s1) \<Rightarrow> (Inl e, s1)
      | (Inr b, s1) \<Rightarrow>
          (case body_id b of
             Inl e \<Rightarrow> (Inl e, s1)
           | Inr task_set_id \<Rightarrow>
               (case create_load_tasks env api_key task_set_id task_order s1 of
                  (Inl e, s2) \<Rightarrow> (Inl e, s2)
                | (Inr _, s2) \<Rightarrow>
                    (case create_load_models env api_key model_order s2 of
                       (Inl e, s3) \<Rightarrow> (Inl e, s3)
                     | (Inr ids, s3) \<Rightarrow>
                         (Inr (task_set_id, List.map_filter (map_of ids) [0..<NUM_MODELS]), s3)))))"

subsection \<open>Submitting and polling\<close>

definition submit :: "service_env \<Rightarrow> string \<Rightarrow> nat \<Rightarrow> nat list \<Rightarrow> nat list \<Rightarrow> sys \<Rightarrow>
    (script_error + uuid) \<times> sys" where
  "submit env api_key now task_order model_order s =
     (case call env api_key ''GET'' ''/healthz'' no_data s of
        (Inl e, s1) \<Rightarrow> (Inl e, s1)
      | (Inr _, s1) \<Rightarrow>
          (case seed env api_key now task_order model_order s1 of
             (Inl e, s2) \<Rightarrow> (Inl e, s2)
           | (Inr (task_set_id, model_ids), s2) \<Rightarrow>
               (case call env api_key ''POST'' ''/v1/eval-runs'' (no_data\<lparr>rq_run := Some (uuid_str task_set_id, map uuid_str model_ids)\<rparr>) s2 of
                  (Inl e, s3) \<Rightarrow> (Inl e, s3)
                | (Inr b, s3) \<Rightarrow> (body_id b, s3))))"

fun poll :: "service_env \<Rightarrow> string \<Rightarrow> uuid \<Rightarrow> sys list \<Rightarrow> script_error + eval_run_read" where
  "poll env api_key run_id [] = Inl (Sys_exit 1)"
| "poll env api_key run_id (s # rest) =
     (case fst (call env api_key ''GET'' (''/v1/eval-runs/'' @ uuid_str run_id) no_data s) of
        Inl e \<Rightarrow> Inl e
      | Inr (Answer (A_run body)) \<Rightarrow>
          if rr_status body \<in> set TERMINAL_STATUSES then Inr body else poll env api_key run_id rest
      | Inr _ \<Rightarrow> Inl Bad_body)"

definition load_test :: "service_env \<Rightarrow> string \<Rightarrow> nat \<Rightarrow> nat list \<Rightarrow> nat list \<Rightarrow> (sys \<Rightarrow> sys list) \<Rightarrow> sys \<Rightarrow>
    script_error + eval_run_read" where
  "load_test env api_key now task_order model_order found s =
     (case headers api_key of
        Inl e \<Rightarrow> Inl e
      | Inr key \<Rightarrow>
          (case submit env key now task_order model_order s of
             (Inl e, _) \<Rightarrow> Inl e
           | (Inr run_id, s1) \<Rightarrow> poll env key run_id (found s1)))"

subsection \<open>One request of an administrator\<close>

text \<open>An administrator's key, and a framework that reads back the ids the service prints.\<close>

definition reads_uuids :: "service_env \<Rightarrow> bool" where
  "reads_uuids env \<longleftrightarrow> (\<forall>k. se_uuid env (uuid_str k) = Some k)"

definition client_ready :: "service_env \<Rightarrow> string \<Rightarrow> sys \<Rightarrow> bool" where
  "client_ready env api_key s \<longleftrightarrow> api_key \<noteq> [] \<and> reads_uuids env \<and>
     (case authenticate (se_crypto env) (strip api_key) s of
        Inr (Some ctx) \<Rightarrow> ac_role ctx = Role_admin | _ \<Rightarrow> False)"

lemma client_ready_frame: "api_keys s' = api_keys s \<Longrightarrow> client_ready env key s' = client_ready env key s"
  by (simp add: client_ready_def authenticate_def)

lemma client_id: "with_request_id (client_request key m p) s = (hex32 (uuid_next s), s\<lparr>uuid_next := uuid_next s + 1\<rparr>)"
  by (simp add: with_request_id_def client_request_def)

lemma call_admin:
  assumes key: "client_ready env key s"
    and route: "find_route m path = Matched d ps" "bind_route env data (rd_endpoint d) ps = Some r" "\<not> rq_bad_json data"
    and roles: "rd_roles d = Some [Role_admin]" and valid: "valid_route r"
    and path: "path \<notin> set EXEMPT_PATHS" "m \<noteq> ''OPTIONS''"
    and answer: "handle env r (s\<lparr>uuid_next := uuid_next s + 1\<rparr>) = (Inr resp, s')"
    and status: "200 \<le> rs_status resp" "rs_status resp < 300"
  shows "call env key m path data s = (Inr (rs_body resp), s')"
proof -
  let ?q = "client_request key m path"
  obtain ctx where ctx: "authenticate (se_crypto env) (strip key) s = Inr (Some ctx)" "ac_role ctx = Role_admin"
    using key by (auto simp: client_ready_def split: sum.splits option.splits)
  have q: "extract_key ?q = Some (strip key)" "\<not> exempt ?q"
    using key path by (auto simp: extract_key_def client_request_def client_ready_def exempt_def split: list.split)
  have "application env ?q r s = request_context_dispatch (dispatch_route env r) ?q (Some ctx) s"
    using q ctx by (cases rule: application_cases [of ?q env r s]) auto
  moreover have "route_roles r = Some [Role_admin]"
    using bind_route_roles [OF route(2)] find_route_Matched [OF route(1)] roles by simp
  then have "dispatch_route env r (Some ctx) s1 = handle env r s1" for s1
    using valid ctx(2) by (simp add: dispatch_route_def require_role_def)
  ultimately have "serve env ?q r s = (resp\<lparr>rs_request_id := Some (hex32 (uuid_next s))\<rparr>, s')"
    using answer by (simp add: serve_def request_context_eq client_id)
  moreover have "serve_http env data ?q s = serve env ?q r s"
    by (rule serve_http_route) (use route in \<open>simp_all add: client_request_def\<close>)
  ultimately show ?thesis using status by (simp add: call_def)
qed

lemma call_health: "call env key ''GET'' ''/healthz'' no_data s = (Inr (Answer (A_health ''ok'')), s\<lparr>uuid_next := uuid_next s + 1\<rparr>)"
proof -
  let ?q = "client_request key ''GET'' ''/healthz''"
  have "exempt ?q" by (simp add: exempt_def client_request_def EXEMPT_PATHS_def)
  then have "application env ?q Healthz s = request_context_dispatch (dispatch_route env Healthz) ?q None s"
    by (cases rule: application_cases [of ?q env Healthz s]) auto
  moreover have "find_route ''GET'' ''/healthz'' = Matched (app_route ''/healthz'' E_healthz) []" by code_simp
  then have "serve_http env no_data ?q s = serve env ?q Healthz s"
    by (intro serve_http_route [where d = "app_route ''/healthz'' E_healthz" and ps = "[]"])
      (simp_all add: client_request_def app_route_def no_data_def)
  ultimately show ?thesis
    by (simp add: call_def serve_def request_context_eq client_id dispatch_route_def ok_def)
qed

text \<open>The paths of the script.\<close>

lemma script_routes:
  "find_route ''POST'' ''/v1/task-sets'' =
    Matched (api_route [Role_admin] ''POST'' ''/v1/task-sets'' E_create_task_set 201) []"
  "find_route ''POST'' ''/v1/models'' =
    Matched (api_route [Role_admin] ''POST'' ''/v1/models'' E_create_model 201) []"
  "find_route ''POST'' ''/v1/eval-runs'' =
    Matched (api_route [Role_admin] ''POST'' ''/v1/eval-runs'' E_create_run 202) []"
  by code_simp+

lemma script_id_routes:
  "find_route ''POST'' (''/v1/task-sets/'' @ uuid_str k @ ''/tasks'') =
    Matched (api_route [Role_admin] ''POST'' ''/v1/task-sets/{task_set_id}/tasks'' E_create_task 201) [uuid_str k]"
    (is "?tasks")
  "find_route ''GET'' (''/v1/eval-runs/'' @ uuid_str k) =
    Matched (api_route [Role_admin] ''GET'' ''/v1/eval-runs/{eval_run_id}'' E_get_run 200) [uuid_str k]" (is "?run")
proof -
  have seg: "segments ''/v1/task-sets/{task_set_id}/tasks'' = [[], ''v1'', ''task-sets'', ''{task_set_id}'', ''tasks'']"
    "segments ''/v1/eval-runs/{eval_run_id}'' = [[], ''v1'', ''eval-runs'', ''{eval_run_id}'']"
    by code_simp+
  have declared: "api_route [Role_admin] ''POST'' ''/v1/task-sets/{task_set_id}/tasks'' E_create_task 201 \<in> set app_routes"
    "api_route [Role_admin] ''GET'' ''/v1/eval-runs/{eval_run_id}'' E_get_run 200 \<in> set app_routes"
    by code_simp+
  have "path_match t (join ''/'' [[], ''v1'', ''task-sets'', uuid_str k, ''tasks'']) =
      match_segments (segments t) [[], ''v1'', ''task-sets'', uuid_str k, ''tasks'']" for t
    using uuid_str_no_slash [of k] by (intro path_match_join) simp_all
  then show ?tasks
    by (intro declared_route_taken declared) (simp_all add: api_route_def seg is_param_def)
  have "path_match t (join ''/'' [[], ''v1'', ''eval-runs'', uuid_str k]) =
      match_segments (segments t) [[], ''v1'', ''eval-runs'', uuid_str k]" for t
    using uuid_str_no_slash [of k] by (intro path_match_join) simp_all
  then show ?run
    by (intro declared_route_taken declared) (simp_all add: api_route_def seg is_param_def)
qed

lemma reads_those: "reads_uuids env \<Longrightarrow> those (map (se_uuid env) (map uuid_str ks)) = Some ks"
  by (induction ks) (simp_all add: reads_uuids_def)

lemma client_reads: "client_ready env key s \<Longrightarrow> se_uuid env (uuid_str k) = Some k"
    "client_ready env key s \<Longrightarrow> those (map (se_uuid env) (map uuid_str ks)) = Some ks"
  by (simp_all add: client_ready_def reads_uuids_def reads_those del: map_map)

lemmas script_calls = api_route_def no_data_def both_def EXEMPT_PATHS_def

subsection \<open>What seeding leaves\<close>

lemma call_task_set:
  assumes "client_ready env key s" and "task_set_create_ok p"
  shows "call env key ''POST'' ''/v1/task-sets'' (no_data\<lparr>rq_task_set := Some p\<rparr>) s =
    (let ts = \<lparr>ts_id = uuid_next s + 1, ts_name = tsc_name p, ts_description = tsc_description p, ts_created_at = db_now s\<rparr>
     in (Inr (Answer (A_task_set ts)), s\<lparr>task_sets := task_sets s @ [ts], uuid_next := uuid_next s + 2\<rparr>))"
  by (subst call_admin [OF assms(1) script_routes(1), where r = "Create_task_set p"])
     (use assms(2) in \<open>auto simp: script_calls create_task_set_def ok_def Let_def\<close>)

definition task_row :: "uuid \<Rightarrow> task_create \<Rightarrow> uuid \<Rightarrow> timestamp \<Rightarrow> task" where
  "task_row k p i now = \<lparr>tk_id = i, tk_task_set_id = k, tk_prompt = tc_prompt p, tk_capability = tc_capability p,
     tk_expected_output = tc_expected_output p, tk_grader_type = tc_grader_type p,
     tk_grader_config = tc_grader_config p, tk_created_at = now\<rparr>"

definition endpoint_row :: "model_endpoint_create \<Rightarrow> uuid \<Rightarrow> timestamp \<Rightarrow> model_endpoint" where
  "endpoint_row p i now = \<lparr>me_id = i, me_name = mec_name p, me_provider = mec_provider p,
     me_model_id = mec_model_id p, me_model_version = mec_model_version p, me_base_url = mec_base_url p,
     me_created_at = now\<rparr>"

lemma call_task:
  assumes "client_ready env key s" and "fetch ts_id k (task_sets s) = Some ts" and "task_create_ok p"
  shows "call env key ''POST'' (''/v1/task-sets/'' @ uuid_str k @ ''/tasks'') (no_data\<lparr>rq_task := Some p\<rparr>) s =
    (let t = task_row k p (uuid_next s + 1) (db_now s)
     in (Inr (Answer (A_task t)), s\<lparr>tasks := tasks s @ [t], uuid_next := uuid_next s + 2\<rparr>))"
  by (subst call_admin [OF assms(1) script_id_routes(1), where r = "Create_task k p"])
     (use client_reads [OF assms(1)] assms(2,3) in \<open>auto simp: script_calls create_task_def http_reply_def ok_def task_row_def Let_def\<close>)

lemma call_model:
  assumes "client_ready env key s" and "model_endpoint_create_ok p"
  shows "call env key ''POST'' ''/v1/models'' (no_data\<lparr>rq_model := Some p\<rparr>) s =
    (let m = endpoint_row p (uuid_next s + 1) (db_now s)
     in (Inr (Answer (A_model m)), s\<lparr>model_endpoints := model_endpoints s @ [m], uuid_next := uuid_next s + 2\<rparr>))"
  by (subst call_admin [OF assms(1) script_routes(2), where r = "Create_model p"])
     (use assms(2) in \<open>auto simp: script_calls create_model_endpoint_def ok_def endpoint_row_def Let_def\<close>)

lemma show_nat_not_Nil: "show_nat n \<noteq> []"
  by (subst show_nat.simps) simp

lemma load_rows_ok: "task_create_ok (load_task i)"
  by (simp add: task_create_ok_def load_task_def)

lemma load_tasks_done:
  assumes "client_ready env key s" and "fetch ts_id k (task_sets s) = Some ts"
  obtains rows n where "create_load_tasks env key k is s =
      (Inr (), s\<lparr>tasks := tasks s @ rows, uuid_next := uuid_next s + n\<rparr>)"
    "length rows = length is" "list_all (\<lambda>t. tk_task_set_id t = k \<and> tk_prompt t \<in> (tc_prompt \<circ> load_task) ` set is) rows"
  using assms
proof (induction "is" arbitrary: s thesis)
  case Nil
  show ?case by (rule Nil.prems(1) [of 0 "[]"]) simp_all
next
  case (Cons i "is")
  let ?t = "task_row k (load_task i) (uuid_next s + 1) (db_now s)"
  let ?s1 = "s\<lparr>tasks := tasks s @ [?t], uuid_next := uuid_next s + 2\<rparr>"
  have key: "client_ready env key ?s1" using Cons.prems(2) client_ready_frame [of ?s1 s env key] by simp
  obtain rows n where rest: "create_load_tasks env key k is ?s1 =
      (Inr (), ?s1\<lparr>tasks := tasks ?s1 @ rows, uuid_next := uuid_next ?s1 + n\<rparr>)"
      "length rows = length is" "list_all (\<lambda>t. tk_task_set_id t = k \<and> tk_prompt t \<in> (tc_prompt \<circ> load_task) ` set is) rows"
    using Cons.IH [OF _ key] Cons.prems(3) by auto
  show ?case
  proof (rule Cons.prems(1) [of "2 + n" "?t # rows"])
    show "create_load_tasks env key k (i # is) s =
        (Inr (), s\<lparr>tasks := tasks s @ ?t # rows, uuid_next := uuid_next s + (2 + n)\<rparr>)"
      by (simp only: create_load_tasks.simps call_task [OF Cons.prems(2,3) load_rows_ok] Let_def prod.case
          sum.case rest(1)) simp
    show "length (?t # rows) = length (i # is)" using rest(2) by simp
    show "list_all (\<lambda>t. tk_task_set_id t = k \<and> tk_prompt t \<in> (tc_prompt \<circ> load_task) ` set (i # is)) (?t # rows)"
      using rest(3) by (auto simp: task_row_def list_all_iff)
  qed
qed

lemma load_models_done:
  assumes "client_ready env key s" and "list_all (\<lambda>j. model_endpoint_create_ok (load_model j)) js"
  obtains rows n where "create_load_models env key js s =
      (Inr (zip js (map me_id rows)), s\<lparr>model_endpoints := model_endpoints s @ rows, uuid_next := uuid_next s + n\<rparr>)"
    "length rows = length js" "list_all (\<lambda>m. uuid_next s < me_id m) rows" "distinct (map me_id rows)"
  using assms
proof (induction js arbitrary: s thesis)
  case Nil
  show ?case by (rule Nil.prems(1) [of "[]" 0]) simp_all
next
  case (Cons j js)
  let ?m = "endpoint_row (load_model j) (uuid_next s + 1) (db_now s)"
  let ?s1 = "s\<lparr>model_endpoints := model_endpoints s @ [?m], uuid_next := uuid_next s + 2\<rparr>"
  have ok: "model_endpoint_create_ok (load_model j)" using Cons.prems(3) by simp
  have key: "client_ready env key ?s1" using Cons.prems(2) client_ready_frame [of ?s1 s env key] by simp
  obtain rows n where rest: "create_load_models env key js ?s1 =
      (Inr (zip js (map me_id rows)), ?s1\<lparr>model_endpoints := model_endpoints ?s1 @ rows, uuid_next := uuid_next ?s1 + n\<rparr>)"
      "length rows = length js" "list_all (\<lambda>m. uuid_next ?s1 < me_id m) rows" "distinct (map me_id rows)"
    using Cons.IH [OF _ key] Cons.prems(3) by auto
  show ?case
  proof (rule Cons.prems(1) [of "?m # rows" "2 + n"])
    show "create_load_models env key (j # js) s = (Inr (zip (j # js) (map me_id (?m # rows))),
        s\<lparr>model_endpoints := model_endpoints s @ ?m # rows, uuid_next := uuid_next s + (2 + n)\<rparr>)"
      by (simp only: create_load_models.simps call_model [OF Cons.prems(2) ok] Let_def prod.case sum.case
          body_id_def body.case answer.case rest(1)) simp
    show "length (?m # rows) = length (j # js)" using rest(2) by simp
    show "list_all (\<lambda>m. uuid_next s < me_id m) (?m # rows)" using rest(3) by (auto simp: endpoint_row_def list_all_iff)
    show "distinct (map me_id (?m # rows))" using rest(3,4) by (auto simp: endpoint_row_def list_all_iff)
  qed
qed

text \<open>The ids in the order of the calls are the ids of the rows, each once.\<close>

lemma gathered_ids:
  assumes "mset order = mset [0..<n]" and "length ids = length order"
  shows "set (List.map_filter (map_of (zip order ids)) [0..<n]) = set ids"
proof -
  have order: "distinct order" "set order = {0..<n}"
    using assms(1) mset_eq_imp_distinct_iff [of order "[0..<n]"] mset_eq_setD [OF assms(1)] by simp_all
  have "i \<in> set ids \<longleftrightarrow> (\<exists>j \<in> set order. map_of (zip order ids) j = Some i)" for i
    using order(1) assms(2)
    by (metis (no_types, lifting) in_set_zip in_set_conv_nth map_of_SomeD map_of_zip_nth set_zip_rightD set_zip_leftD)
  then show ?thesis by (auto simp: set_map_filter_iff order(2))
qed

subsection \<open>The submission\<close>

lemma load_models_ok: "mset model_order = mset [0..<NUM_MODELS] \<Longrightarrow>
    list_all (\<lambda>j. model_endpoint_create_ok (load_model j)) model_order"
proof -
  assume "mset model_order = mset [0..<NUM_MODELS]"
  from mset_eq_setD [OF this] have "j < 10" if "j \<in> set model_order" for j
    using that by (simp add: NUM_MODELS_def)
  moreover have "model_endpoint_create_ok (load_model j)" if "j < 10" for j
    using that by (simp add: model_endpoint_create_ok_def name_ok_def load_model_def show_nat.simps)
  ultimately show ?thesis by (simp add: list_all_iff)
qed

lemma seeded:
  assumes key: "client_ready env key s" and name: "task_set_create_ok (load_task_set now)"
    and orders: "mset task_order = mset [0..<NUM_TASKS]" "mset model_order = mset [0..<NUM_MODELS]"
  obtains ts ids rows eps n where "seed env key now task_order model_order s =
      (Inr (uuid_next s + 1, ids), s\<lparr>task_sets := task_sets s @ [ts], tasks := tasks s @ rows,
         model_endpoints := model_endpoints s @ eps, uuid_next := uuid_next s + n\<rparr>)"
    "ts_id ts = uuid_next s + 1" "length rows = NUM_TASKS" "length eps = NUM_MODELS" "set ids = set (map me_id eps)"
    "list_all (\<lambda>t. tk_task_set_id t = uuid_next s + 1 \<and> tk_prompt t \<in> (tc_prompt \<circ> load_task) ` {0..<NUM_TASKS}) rows"
    "list_all (\<lambda>m. uuid_next s < me_id m) eps"
proof -
  let ?k = "uuid_next s + 1"
  define ts where "ts = \<lparr>ts_id = ?k, ts_name = tsc_name (load_task_set now),
    ts_description = tsc_description (load_task_set now), ts_created_at = db_now s\<rparr>"
  define s1 where "s1 = s\<lparr>task_sets := task_sets s @ [ts], uuid_next := uuid_next s + 2\<rparr>"
  have created: "call env key ''POST'' ''/v1/task-sets'' (no_data\<lparr>rq_task_set := Some (load_task_set now)\<rparr>) s =
      (Inr (Answer (A_task_set ts)), s1)"
    by (simp only: call_task_set [OF key name] Let_def ts_def s1_def)
  have id: "body_id (Answer (A_task_set ts)) = Inr ?k" by (simp add: body_id_def ts_def)
  have "client_ready env key s1" using key client_ready_frame [of s1 s env key] by (simp add: s1_def)
  moreover obtain ts' where "fetch ts_id ?k (task_sets s1) = Some ts'"
    by (cases "fetch ts_id ?k (task_sets s)") (simp_all add: s1_def fetch_append ts_def)
  ultimately obtain rows n where rows: "create_load_tasks env key ?k task_order s1 =
      (Inr (), s1\<lparr>tasks := tasks s1 @ rows, uuid_next := uuid_next s1 + n\<rparr>)" "length rows = length task_order"
      "list_all (\<lambda>t. tk_task_set_id t = ?k \<and> tk_prompt t \<in> (tc_prompt \<circ> load_task) ` set task_order) rows"
    by (rule load_tasks_done)
  define s2 where "s2 = s1\<lparr>tasks := tasks s1 @ rows, uuid_next := uuid_next s1 + n\<rparr>"
  have "client_ready env key s2" using key client_ready_frame [of s2 s env key] by (simp add: s2_def s1_def)
  then obtain eps m where eps: "create_load_models env key model_order s2 =
      (Inr (zip model_order (map me_id eps)), s2\<lparr>model_endpoints := model_endpoints s2 @ eps, uuid_next := uuid_next s2 + m\<rparr>)"
      "length eps = length model_order" "list_all (\<lambda>m. uuid_next s2 < me_id m) eps"
    by (rule load_models_done) (rule load_models_ok [OF orders(2)])
  have lens: "length task_order = NUM_TASKS" "length model_order = NUM_MODELS" "set task_order = {0..<NUM_TASKS}"
    using orders [THEN mset_eq_length] mset_eq_setD [OF orders(1)] by simp_all
  show thesis
  proof (rule that)
    show "seed env key now task_order model_order s =
      (Inr (?k, List.map_filter (map_of (zip model_order (map me_id eps))) [0..<NUM_MODELS]),
       s\<lparr>task_sets := task_sets s @ [ts], tasks := tasks s @ rows,
         model_endpoints := model_endpoints s @ eps, uuid_next := uuid_next s + (2 + n + m)\<rparr>)"
      by (simp only: seed_def created id prod.case sum.case rows(1) s2_def [symmetric] eps(1))
         (simp add: s2_def s1_def)
    show "ts_id ts = ?k" by (simp add: ts_def)
    show "length rows = NUM_TASKS" "length eps = NUM_MODELS" using rows(2) eps(2) lens by simp_all
    show "set (List.map_filter (map_of (zip model_order (map me_id eps))) [0..<NUM_MODELS]) = set (map me_id eps)"
      by (rule gathered_ids [OF orders(2)]) (simp add: eps(2))
    show "list_all (\<lambda>t. tk_task_set_id t = ?k \<and> tk_prompt t \<in> (tc_prompt \<circ> load_task) ` {0..<NUM_TASKS}) rows"
      using rows(3) by (simp add: lens)
    show "list_all (\<lambda>m. uuid_next s < me_id m) eps"
      using eps(3) by (auto simp: list_all_iff s2_def s1_def)
  qed
qed

lemma call_run:
  assumes "client_ready env key s" and "fetch ts_id k (task_sets s) = Some ts" and "missing_endpoints s ids = []"
    and "tasks_of s k \<noteq> []" and "ids \<noteq> []"
  shows "call env key ''POST'' ''/v1/eval-runs'' (no_data\<lparr>rq_run := Some (uuid_str k, map uuid_str ids)\<rparr>) s =
    (let i = uuid_next s + 1;
         items = run_items_for i (db_now s) (i + 1) (tasks_of s k) (endpoints_of s ids)
     in (Inr (Answer (A_accepted i Run_running)),
         s\<lparr>eval_runs := eval_runs s @ [new_eval_run i k (db_now s)], run_items := run_items s @ items,
           uuid_next := i + 1 + length items, evals_queue := evals_queue s @ map ri_id items\<rparr>))"
proof -
  have frame: "tasks_of (s\<lparr>uuid_next := n\<rparr>) k = tasks_of s k" "endpoints_of (s\<lparr>uuid_next := n\<rparr>) ids = endpoints_of s ids"
    "missing_endpoints (s\<lparr>uuid_next := n\<rparr>) ids = missing_endpoints s ids" for n
    by (simp_all add: tasks_of_def endpoints_of_def missing_endpoints_def)
  show ?thesis
    by (subst call_admin [OF assms(1) script_routes(3), where r = "Create_run k ids"])
       (use client_reads [OF assms(1)] assms(2-5) in \<open>auto simp: script_calls create_eval_run_eq frame http_reply_def ok_def
          eval_run_create_ok_def Let_def\<close>)
qed

lemma submitted:
  assumes key: "client_ready env key s" and name: "task_set_create_ok (load_task_set now)"
    and orders: "mset task_order = mset [0..<NUM_TASKS]" "mset model_order = mset [0..<NUM_MODELS]"
    and inv: "schema_inv s"
  obtains k s1 items rows e where "submit env key now task_order model_order s = (Inr k, s1)"
    "run_items s1 = run_items s @ items" "length items = NUM_TASKS * NUM_MODELS"
    "list_all (\<lambda>r. ri_eval_run_id r = k \<and> ri_status r = Item_queued \<and> ri_attempt_count r = 0 \<and>
       ri_cost_usd r = None \<and> ri_prompt_tokens r = None \<and> ri_completion_tokens r = None) items"
    "evals_queue s1 = evals_queue s @ map ri_id items" "eval_runs s1 = eval_runs s @ [e]"
    "er_id e = k" "er_status e = Run_running" "tasks s1 = tasks s @ rows"
    "list_all (\<lambda>t. tk_prompt t \<in> (tc_prompt \<circ> load_task) ` {0..<NUM_TASKS}) rows"
    "api_keys s1 = api_keys s" "uuid_next s \<le> k"
proof -
  define s0 where "s0 = s\<lparr>uuid_next := uuid_next s + 1\<rparr>"
  have "client_ready env key s0" using key client_ready_frame [of s0 s env key] by (simp add: s0_def)
  then obtain ts ids rows eps n where seed: "seed env key now task_order model_order s0 =
      (Inr (uuid_next s0 + 1, ids), s0\<lparr>task_sets := task_sets s0 @ [ts], tasks := tasks s0 @ rows,
         model_endpoints := model_endpoints s0 @ eps, uuid_next := uuid_next s0 + n\<rparr>)"
    "ts_id ts = uuid_next s0 + 1" "length rows = NUM_TASKS" "length eps = NUM_MODELS" "set ids = set (map me_id eps)"
    "list_all (\<lambda>t. tk_task_set_id t = uuid_next s0 + 1 \<and> tk_prompt t \<in> (tc_prompt \<circ> load_task) ` {0..<NUM_TASKS}) rows"
    "list_all (\<lambda>m. uuid_next s0 < me_id m) eps"
    using name orders by (rule seeded)
  define s2 where "s2 = s0\<lparr>task_sets := task_sets s0 @ [ts], tasks := tasks s0 @ rows,
         model_endpoints := model_endpoints s0 @ eps, uuid_next := uuid_next s0 + n\<rparr>"
  let ?k = "uuid_next s0 + 1"
  have drawn: "drawn_ids s" and refs: "task_table s" using inv by (simp_all add: schema_inv_def schema_ok_def)
  have old: "tk_task_set_id t \<noteq> ?k" if "t \<in> set (tasks s)" for t
  proof -
    have "tk_task_set_id t \<in> ts_id ` set (task_sets s)"
      using refs that by (auto simp: task_table_def list_all_iff refers_def)
    then have "tk_task_set_id t < uuid_next s" using drawn_below(1) [OF drawn] by auto
    then show ?thesis by (simp add: s0_def)
  qed
  have tasks: "tasks_of s2 ?k = rows"
    using old seed(6) by (auto simp: tasks_of_def s2_def s0_def list_all_iff filter_empty_conv)
  have eps: "endpoints_of s2 ids = eps"
  proof -
    have "me_id m \<notin> set ids" if "m \<in> set (model_endpoints s)" for m
      using drawn_below(3) [OF drawn that] seed(5,7) by (auto simp: list_all_iff s0_def)
    moreover have "\<forall>m \<in> set eps. me_id m \<in> set ids" using seed(5) by simp
    ultimately show ?thesis by (simp add: endpoints_of_def s2_def s0_def filter_empty_conv)
  qed
  have none: "missing_endpoints s2 ids = []"
    using seed(5) by (auto simp: missing_endpoints_def s2_def filter_empty_conv fetch_None_iff)
  have "fetch ts_id ?k (task_sets s2) \<noteq> None" by (simp add: s2_def fetch_None_iff seed(2))
  then obtain ts' where ts': "fetch ts_id ?k (task_sets s2) = Some ts'" by blast
  have key2: "client_ready env key s2" using key client_ready_frame [of s2 s env key] by (simp add: s2_def s0_def)
  have ne: "rows \<noteq> []" "ids \<noteq> []" using seed(3-5) by (auto simp: NUM_TASKS_def NUM_MODELS_def)
  define i where "i = uuid_next s2 + 1"
  define items where "items = run_items_for i (db_now s2) (i + 1) rows eps"
  define s3 where "s3 = s2\<lparr>eval_runs := eval_runs s2 @ [new_eval_run i ?k (db_now s2)], run_items := run_items s2 @ items,
           uuid_next := i + 1 + length items, evals_queue := evals_queue s2 @ map ri_id items\<rparr>"
  have run: "call env key ''POST'' ''/v1/eval-runs'' (no_data\<lparr>rq_run := Some (uuid_str ?k, map uuid_str ids)\<rparr>) s2 = (Inr (Answer (A_accepted i Run_running)), s3)"
    using call_run [OF key2 ts' none _ ne(2), unfolded tasks eps Let_def, OF ne(1)]
    by (simp only: i_def items_def s3_def)
  show thesis
  proof (rule that)
    have body: "body_id (Answer (A_accepted i Run_running)) = Inr i" by (simp add: body_id_def)
    show "submit env key now task_order model_order s = (Inr i, s3)"
      by (simp only: submit_def call_health prod.case sum.case s0_def [symmetric] seed(1) s2_def [symmetric] run body)
    show "length items = NUM_TASKS * NUM_MODELS"
      using arg_cong [OF run_items_for_ids, of length] by (simp add: items_def seed(3,4))
    show "list_all (\<lambda>r. ri_eval_run_id r = i \<and> ri_status r = Item_queued \<and> ri_attempt_count r = 0 \<and>
       ri_cost_usd r = None \<and> ri_prompt_tokens r = None \<and> ri_completion_tokens r = None) items"
      unfolding items_def by (rule run_items_for_fresh)
    show "list_all (\<lambda>t. tk_prompt t \<in> (tc_prompt \<circ> load_task) ` {0..<NUM_TASKS}) rows"
      using seed(6) by (simp add: list_all_iff)
    show "eval_runs s3 = eval_runs s @ [new_eval_run i ?k (db_now s2)]" by (simp add: s3_def s2_def s0_def)
  qed (simp_all add: s3_def s2_def s0_def new_eval_run_def i_def)
qed

subsection \<open>Invariants through the client\<close>

lemma call_keeps:
  assumes "\<And>op s. P s \<Longrightarrow> P (api_step op s)" and "P s"
  shows "P (snd (call env key m path data s))"
  using serve_http_keeps [of P s env data "client_request key m path"] assms
  by (simp add: call_def case_prod_unfold Let_def)

lemma submit_keeps:
  assumes P: "\<And>op s. P s \<Longrightarrow> P (api_step op s)" and s: "P s"
  shows "P (snd (submit env key now task_order model_order s))"
proof -
  have called: "P s'" if "call env key m path data s = (x, s')" "P s" for m path data s x s'
    using call_keeps [of P s env key m path data] P that by simp
  have tasks: "P s \<Longrightarrow> P (snd (create_load_tasks env key k is s))" for k "is" s
    by (induction "is" arbitrary: s) (auto split: prod.split sum.split dest: called)
  have models: "P s \<Longrightarrow> P (snd (create_load_models env key js s))" for js s
  proof (induction js arbitrary: s)
    case (Cons j js)
    obtain x s' where c: "call env key ''POST'' ''/v1/models'' (no_data\<lparr>rq_model := Some (load_model j)\<rparr>) s = (x, s')" by fastforce
    have s': "P s'" by (rule called [OF c Cons.prems])
    obtain y s'' where d: "create_load_models env key js s' = (y, s'')" by fastforce
    have "P s''" using Cons.IH [OF s'] by (simp add: d)
    with s' show ?case
      by (simp only: create_load_models.simps c) (simp add: d split: sum.split)
  qed simp
  have "P (snd (seed env key now task_order model_order s))" if "P s" for s
  proof -
    obtain x s1 where c: "call env key ''POST'' ''/v1/task-sets'' (no_data\<lparr>rq_task_set := Some (load_task_set now)\<rparr>) s = (x, s1)"
      by fastforce
    have s1: "P s1" by (rule called [OF c that])
    have "P (snd (create_load_models env key model_order (snd (create_load_tasks env key k task_order s1))))" for k
      by (rule models) (rule tasks [OF s1])
    with s1 tasks [OF s1] show ?thesis
      by (simp only: seed_def c) (auto split: sum.split prod.split, (metis snd_conv)+)
  qed
  then show ?thesis
    using called s by (auto simp only: submit_def split: sum.split prod.split) (metis snd_conv)+
qed

lemma schema_fresh: "schema_inv d \<Longrightarrow> ids_fresh d"
  using drawn_below(4,5) [of d]
  by (fastforce simp: schema_inv_def schema_ok_def run_item_table_def ids_fresh_def list_all_iff refers_def)

subsection \<open>Keys while workers run\<close>

lemma mark_api_keys [simp]:
  "api_keys (mark_running rid d) = api_keys d" "api_keys (mark_failed rid err d) = api_keys d"
  "api_keys (mark_dead_lettered rid err d) = api_keys d" "api_keys (mark_cancelled rid d) = api_keys d"
  "api_keys (maybe_complete_run k d) = api_keys d" "api_keys (snd (abort_over_budget k l t d)) = api_keys d"
  "api_keys (inc_eval_items st m s) = api_keys s" "api_keys (inc_dead_letters s) = api_keys s"
  "api_keys (publish_dead_letter i s) = api_keys s" "api_keys (count_failed sn s) = api_keys s"
  by (simp_all add: mark_defs complete_run_defs abort_over_budget_def Let_def inc_eval_items_def
      inc_dead_letters_def publish_dead_letter_def count_failed_def)

lemma finalize_api_keys: "finalize_completion sn c k d = Inr (b, d') \<Longrightarrow> api_keys d' = api_keys d"
  by (auto simp: finalize_completion_def finalize_item_def Let_def split: if_splits)

lemma judge_api_keys: "api_keys (snd (run_judge env p t out s)) = api_keys s"
  using run_judge_frame [of env p t out s] by auto

lemma proc_api_keys: "api_keys (snd (proc_step env w q s)) = api_keys s"
proof (cases q)
  case (P_call sn a m)
  then show ?thesis by (simp add: step_call_def call_provider_def Let_def split: sum.split exn.split)
next
  case (P_finalize sn c k)
  then show ?thesis
    by (auto simp: step_finalize_def split: sum.split prod.split bool.split dest: finalize_api_keys)
next
  case (P_budget sn c)
  have "api_keys (snd (abort_over_budget (sn_run_id sn) (we_spend_limit w) (we_spend_text w) s)) = api_keys s" by simp
  with P_budget show ?thesis by (simp add: step_budget_def case_prod_unfold Let_def)
next
  case (P_judge sn c now det)
  have "api_keys (snd (run_judge env (we_provider w) (sn_task sn) (cr_text c) s)) = api_keys s"
    by (rule judge_api_keys)
  then show ?thesis unfolding P_judge by (auto simp: step_judge_def split: prod.split sum.split)
next
  case (P_insert sn now det judge already)
  then show ?thesis by (simp add: step_insert_def grading_commit_def Let_def insert_review_catalogue)
next
  case (P_store sn c)
  then show ?thesis by (simp add: set_artifact_def Let_def)
qed (simp_all add: step_complete_def report_end_def complete_updates_def Let_def)

definition delivered :: "grading_env \<Rightarrow> worker_env \<Rightarrow> uuid list \<Rightarrow> sys \<Rightarrow> sys" where
  "delivered genv w rids s = fold (\<lambda>rid s. snd (execute_run_item genv w rid s)) rids s"

lemma delivered_api_keys: "api_keys (delivered genv w rids s) = api_keys s"
proof (induction rids arbitrary: s)
  case (Cons rid rids)
  have "api_keys (snd (execute_run_item genv w rid s)) = api_keys s"
    by (rule execute_keeps [where P = "\<lambda>s'. api_keys s' = api_keys s"]) (simp_all add: proc_api_keys)
  with Cons show ?case by (simp add: delivered_def)
qed (simp add: delivered_def)

subsection \<open>Polling\<close>

lemma read_eval_run_frame: "read_eval_run (s\<lparr>uuid_next := n\<rparr>) e = read_eval_run (s::sys) e"
  by (simp add: read_eval_run_def model_aggregate_of_def [abs_def] items_of_model_def Let_def)

lemma call_get:
  assumes "client_ready env key s" and "fetch er_id k (eval_runs s) = Some e"
  shows "fst (call env key ''GET'' (''/v1/eval-runs/'' @ uuid_str k) no_data s) = Inr (Answer (A_run (read_eval_run s e)))"
  by (subst call_admin [OF assms(1) script_id_routes(2), where r = "Get_run k"])
     (use client_reads [OF assms(1)] assms(2) in \<open>auto simp: script_calls get_eval_run_def read_eval_run_frame http_reply_def ok_def\<close>)

lemma poll_finds:
  assumes "\<And>s. s \<in> set states \<Longrightarrow> client_ready env key s \<and> fetch er_id k (eval_runs s) \<noteq> None"
    and "s \<in> set states" and "run_status_of k s \<in> Some ` set TERMINAL_STATUSES"
  obtains s' e where "s' \<in> set states" "fetch er_id k (eval_runs s') = Some e" "er_status e \<in> set TERMINAL_STATUSES"
    "poll env key k states = Inr (read_eval_run s' e)"
  using assms
proof (induction states arbitrary: thesis)
  case Nil
  then show ?case by simp
next
  case (Cons s0 states)
  obtain e where e: "fetch er_id k (eval_runs s0) = Some e" using Cons.prems(2) [of s0] by auto
  have get: "fst (call env key ''GET'' (''/v1/eval-runs/'' @ uuid_str k) no_data s0) =
      Inr (Answer (A_run (read_eval_run s0 e)))"
    by (rule call_get [OF _ e]) (use Cons.prems(2) [of s0] in simp)
  have status: "rr_status (read_eval_run s0 e) = er_status e" by (simp add: read_eval_run_def Let_def)
  show ?case
  proof (cases "er_status e \<in> set TERMINAL_STATUSES")
    case True
    then have "poll env key k (s0 # states) = Inr (read_eval_run s0 e)"
      by (simp only: poll.simps get sum.case body.case answer.case status if_True)
    with True e Cons.prems(1) [of s0 e] show ?thesis by simp
  next
    case False
    then have skip: "poll env key k (s0 # states) = poll env key k states"
      by (simp only: poll.simps get sum.case body.case answer.case status if_False)
    have "s \<in> set states" using Cons.prems(3,4) False e by (auto simp: run_status_of_def)
    moreover have "client_ready env key s' \<and> fetch er_id k (eval_runs s') \<noteq> None" if "s' \<in> set states" for s'
      using Cons.prems(2) [of s'] that by simp
    ultimately show ?thesis using Cons.IH [OF _ _ _ Cons.prems(4)] Cons.prems(1) unfolding skip by auto
  qed
qed

subsection \<open>The whole load test\<close>

definition settled_total :: "eval_run_read \<Rightarrow> nat" where
  "settled_total body = (\<Sum>m \<leftarrow> rr_models body.
     sc_succeeded (ma_counts m) + sc_failed (ma_counts m) + sc_dead_lettered (ma_counts m))"

lemma settled_reading:
  assumes "\<And>r. r \<in> set (run_items d) \<Longrightarrow> \<not> unfinished (er_id e) r"
  shows "settled_total (read_eval_run d e) = rowcount (\<lambda>r. ri_eval_run_id r = er_id e) (run_items d)"
proof -
  have none: "count_status (items_of_model d (er_id e) m) st = 0" if "st \<in> {Item_queued, Item_running}" for m st
    using assms that by (auto simp: count_status_def rowcount_zero_iff items_of_model_def unfinished_def)
  have "sc_succeeded (ma_counts m) + sc_failed (ma_counts m) + sc_dead_lettered (ma_counts m) = counts_total (ma_counts m)"
    if "m \<in> set (rr_models (read_eval_run d e))" for m
    using that none by (auto simp: read_eval_run_def Let_def model_aggregate_of_def counts_total_def)
  then have "settled_total (read_eval_run d e) = (\<Sum>m \<leftarrow> rr_models (read_eval_run d e). counts_total (ma_counts m))"
    unfolding settled_total_def by (intro arg_cong [where f = sum_list] map_cong) simp_all
  then show ?thesis by (simp only: reading_counts)
qed

lemma rowcount_map: "rowcount (\<lambda>r. f r = k) rows = length (filter (\<lambda>x. x = k) (map f rows))"
  by (simp add: rowcount_def filter_map o_def)

lemma fake_polite:
  assumes "list_all (\<lambda>t. length (tk_prompt t) \<le> 10000) (tasks d)"
  shows "polite (fake_provider sha) d"
proof -
  have "polite_answer (fake_provider sha b p m n)" if "length p \<le> 10000" for b p m n
  proof -
    obtain r where "fake_provider sha b p m n = Inr r" by (simp add: fake_provider_def Let_def)
    with fake_tokens [OF this] that show ?thesis by (simp add: polite_answer_def int4_def)
  qed
  with assms show ?thesis by (simp add: polite_def list_all_iff)
qed

lemma load_prompt_length: "i < NUM_TASKS \<Longrightarrow> length (tc_prompt (load_task i)) \<le> 10000"
proof -
  assume "i < NUM_TASKS"
  then have "i < 100" by (simp add: NUM_TASKS_def)
  then have "length (show_nat i) \<le> 2"
    by (simp add: show_nat.simps [of i] show_nat.simps [of "i div 10"] less_mult_imp_div_less)
  then show ?thesis by (simp add: load_task_def)
qed

text \<open>A database in which the load test may start.\<close>

definition load_ready :: "service_env \<Rightarrow> string \<Rightarrow> sys \<Rightarrow> bool" where
  "load_ready env api_key s \<longleftrightarrow> client_ready env api_key s \<and> schema_ok s \<and> drawn_ids s \<and> ledger_ok s \<and>
     list_all item_small (run_items s) \<and> length (run_items s) \<le> 99850 \<and>
     list_all (\<lambda>t. length (tk_prompt t) \<le> 10000) (tasks s)"

lemma submitted_draining:
  assumes ready: "load_ready env key s" and name: "task_set_create_ok (load_task_set now)"
    and orders: "mset task_order = mset [0..<NUM_TASKS]" "mset model_order = mset [0..<NUM_MODELS]"
  obtains k s1 where "submit env key now task_order model_order s = (Inr k, s1)" "draining k s1"
    "list_all (\<lambda>t. length (tk_prompt t) \<le> 10000) (tasks s1)" "client_ready env key s1"
    "open_items k s1 \<subseteq> set (evals_queue s1)"
    "length (filter (\<lambda>j. j = k) (map ri_eval_run_id (run_items s1))) = NUM_TASKS * NUM_MODELS"
proof -
  have key: "client_ready env key s" and inv: "schema_inv s"
    using ready by (simp_all add: load_ready_def schema_inv_def)
  obtain k s1 items rows e where sub: "submit env key now task_order model_order s = (Inr k, s1)"
    and items: "run_items s1 = run_items s @ items" "length items = NUM_TASKS * NUM_MODELS"
      "list_all (\<lambda>r. ri_eval_run_id r = k \<and> ri_status r = Item_queued \<and> ri_attempt_count r = 0 \<and>
        ri_cost_usd r = None \<and> ri_prompt_tokens r = None \<and> ri_completion_tokens r = None) items"
      "evals_queue s1 = evals_queue s @ map ri_id items"
    and run: "eval_runs s1 = eval_runs s @ [e]" "er_id e = k" "er_status e = Run_running"
    and rows: "tasks s1 = tasks s @ rows" "list_all (\<lambda>t. tk_prompt t \<in> (tc_prompt \<circ> load_task) ` {0..<NUM_TASKS}) rows"
    and rest: "api_keys s1 = api_keys s" "uuid_next s \<le> k"
    by (rule submitted [OF key name orders inv])
  have fresh: "ids_fresh s" by (rule schema_fresh [OF inv])
  have book: "book_inv s"
    using ready inv by (simp add: book_inv_def load_ready_def schema_inv_def schema_ok_def run_item_table_def)
  have "book_inv s1 \<and> ids_fresh s1 \<and> schema_inv s1"
    using submit_keeps [of "\<lambda>s. book_inv s \<and> ids_fresh s \<and> schema_inv s" s env key now task_order model_order]
      api_step_sound schema_api book fresh inv by (simp add: sub schema_step_def)
  then have b1: "book_inv s1" and sch: "schema_ok s1" by (simp_all add: schema_inv_def)
  have refs: "refs_ok s1"
    using sch by (auto simp: schema_ok_def run_item_table_def refers_def refs_ok_def fetch_None_iff list_all_iff)
  have small: "list_all item_small (run_items s1)"
    using ready items(3) by (auto simp: items(1) load_ready_def list_all_iff item_small_def item_cost_def item_tokens_def)
  have "length (run_items s1) \<le> 100000"
    using ready items(1,2) by (simp add: load_ready_def NUM_TASKS_def NUM_MODELS_def)
  with b1 sch refs small have sound: "sound s1" by (simp add: sound_def schema_ok_def eval_run_table_def)
  have old: "ri_eval_run_id r \<noteq> k" if "r \<in> set (run_items s)" for r
    using fresh that rest(2) by (auto simp: ids_fresh_def list_all_iff)
  have no: "fetch er_id k (eval_runs s) = None"
    using fresh rest(2) by (auto simp: fetch_None_iff ids_fresh_def list_all_iff)
  have status: "run_status_of k s1 = Some Run_running"
    by (simp add: run_status_of_def run fetch_append no)
  have un: "unfinished k r \<longleftrightarrow> r \<in> set items" if "r \<in> set (run_items s1)" for r
    using that old items(3) by (auto simp: items(1) unfinished_def list_all_iff)
  have ne: "\<exists>r \<in> set (run_items s1). unfinished k r"
  proof -
    have "items \<noteq> []" using items(2) by (auto simp: NUM_TASKS_def NUM_MODELS_def)
    then have "hd items \<in> set (run_items s1)" "hd items \<in> set items" by (simp_all add: items(1))
    with un show ?thesis by blast
  qed
  have run_none: "ri_status r \<noteq> Item_running" if "r \<in> set (run_items s1)" "ri_eval_run_id r = k" for r
    using that old items(3) by (auto simp: items(1) list_all_iff)
  show thesis
  proof (rule that [OF sub])
    show "draining k s1" using sound status ne run_none by (simp add: draining_def)
    show "list_all (\<lambda>t. length (tk_prompt t) \<le> 10000) (tasks s1)"
      using ready rows(2) load_prompt_length by (auto simp: rows(1) load_ready_def list_all_iff)
    show "client_ready env key s1" using key client_ready_frame [OF rest(1)] by simp
    show "open_items k s1 \<subseteq> set (evals_queue s1)" using un by (auto simp: open_items_def items(4))
    show "length (filter (\<lambda>j. j = k) (map ri_eval_run_id (run_items s1))) = NUM_TASKS * NUM_MODELS"
    proof -
      have "filter (\<lambda>j. j = k) (map ri_eval_run_id (run_items s)) = []" using old by (auto simp: filter_empty_conv)
      moreover have "filter (\<lambda>j. j = k) (map ri_eval_run_id items) = map ri_eval_run_id items"
        using items(3) by (auto simp: list_all_iff intro!: filter_True)
      ultimately show ?thesis by (simp add: items(1,2))
    qed
  qed
qed

text \<open>The script polls before the first delivery and after each.\<close>

definition watched :: "grading_env \<Rightarrow> worker_env \<Rightarrow> (sys \<Rightarrow> uuid list) \<Rightarrow> sys \<Rightarrow> sys list" where
  "watched genv w deliveries s =
     map (\<lambda>n. delivered genv w (take n (deliveries s)) s) [0..<Suc (length (deliveries s))]"

text \<open>
  C5. From the first HTTP request to the finished run: on any consistent database with an
  administrator's key, whatever the order in which the service receives the requests of each group,
  the load test creates its tasks and endpoints, submits the run and, with workers that use the fake
  provider and get every message at least once, in any order and with any redeliveries between,
  finds the run completed or failed, with all 150 items settled. The script never fails on a request.
\<close>

theorem load_test_finishes:
  assumes "load_ready env key s" and "task_set_create_ok (load_task_set now)"
    and "mset task_order = mset [0..<NUM_TASKS]" and "mset model_order = mset [0..<NUM_MODELS]"
    and "we_provider w = fake_provider sha" and "0 < max_attempts (we_retry w)"
    and "\<And>s'. set (evals_queue s') \<subseteq> set (deliveries s')"
  shows "\<exists>body. load_test env key now task_order model_order (watched genv w deliveries) s = Inr body \<and>
    rr_status body \<in> {Run_completed, Run_failed} \<and> settled_total body = NUM_TASKS * NUM_MODELS"
proof -
  obtain k s1 where sub: "submit env key now task_order model_order s = (Inr k, s1)" "draining k s1"
    "list_all (\<lambda>t. length (tk_prompt t) \<le> 10000) (tasks s1)" "client_ready env key s1"
    "open_items k s1 \<subseteq> set (evals_queue s1)"
    "length (filter (\<lambda>j. j = k) (map ri_eval_run_id (run_items s1))) = NUM_TASKS * NUM_MODELS"
    by (rule submitted_draining [OF assms(1-4)])
  let ?ds = "deliveries s1"
  have pol: "polite (we_provider w) s1" by (simp add: assms(5) fake_polite [OF sub(3)])
  note drains = deliveries_drain [OF sub(2) pol assms(6) delivered_def]
  have known: "draining k st \<and> client_ready env key st \<and> fetch er_id k (eval_runs st) \<noteq> None \<and>
      rowcount (\<lambda>r. ri_eval_run_id r = k) (run_items st) = NUM_TASKS * NUM_MODELS"
    if w: "st \<in> set (watched genv w deliveries s1)" for st
  proof -
    obtain rids where st: "st = delivered genv w rids s1" using w by (auto simp: watched_def simp del: upt_Suc)
    have d: "draining k st" using drains [of genv rids] by (simp add: st)
    have "client_ready env key st" using sub(4) client_ready_frame [OF delivered_api_keys] by (simp add: st)
    moreover have "run_status_of k st \<noteq> None" using d unfolding draining_def by fastforce
    moreover have "map ri_eval_run_id (run_items st) = map ri_eval_run_id (run_items s1)"
      using drains [of genv rids] by (simp add: st)
    ultimately show ?thesis using d sub(6) unfolding rowcount_map by (auto simp: run_status_of_def)
  qed
  define last where "last = delivered genv w ?ds s1"
  have mem: "last \<in> set (watched genv w deliveries s1)" by (auto simp: watched_def last_def)
  have "open_items k last \<subseteq> {}" using drains [of genv ?ds] sub(5) assms(7) [of s1] by (auto simp: last_def)
  then have "\<not> unfinished k r" if "r \<in> set (run_items last)" for r using that by (auto simp: open_items_def)
  then have "run_status_of k last \<in> {Some Run_completed, Some Run_failed}"
    using known [OF mem] by (auto simp: draining_def)
  then have "run_status_of k last \<in> Some ` set TERMINAL_STATUSES" by (auto simp: TERMINAL_STATUSES_def)
  then obtain s' e where e: "s' \<in> set (watched genv w deliveries s1)" "fetch er_id k (eval_runs s') = Some e"
      "er_status e \<in> set TERMINAL_STATUSES" "poll env key k (watched genv w deliveries s1) = Inr (read_eval_run s' e)"
    using poll_finds [OF _ mem, of env key k] known by blast
  have id: "er_id e = k" using e(2) by (auto dest: fetch_SomeD)
  have d: "draining k s'" using known [OF e(1)] by blast
  have st: "er_status e \<in> {Run_completed, Run_failed}"
    using d e(2,3) by (auto simp: draining_def run_status_of_def TERMINAL_STATUSES_def)
  then have "\<not> unfinished (er_id e) r" if "r \<in> set (run_items s')" for r
    using d e(2) that by (auto simp: draining_def run_status_of_def id)
  then have "settled_total (read_eval_run s' e) = NUM_TASKS * NUM_MODELS"
    using settled_reading [of s' e] known [OF e(1)] by (simp add: id)
  moreover have "rr_status (read_eval_run s' e) = er_status e" by (simp add: read_eval_run_def Let_def)
  moreover have "load_test env key now task_order model_order (watched genv w deliveries) s = Inr (read_eval_run s' e)"
    using sub(1,4) e(4) by (simp add: load_test_def headers_def client_ready_def)
  ultimately show ?thesis using st by auto
qed

definition fx_loaded :: sys where
  "fx_loaded = fx_schema\<lparr>api_keys := [\<lparr>ak_id = 3, ak_name = ''load-admin'', ak_role = Role_admin, ak_key_prefix = [],
     ak_key_hash = hash_api_key fx_crypto [1] ''K'', ak_created_at = 1\<rparr>]\<rparr>"

theorem load_test_finishes_witness:
  "\<exists>body. load_test fx_service ''K'' 1770000000 (rev [0..<NUM_TASKS]) [2, 0, 1]
     (watched fx_env (fx_worker (fake_provider (\<lambda>_. []))) (\<lambda>s. evals_queue s @ [99] @ evals_queue s)) fx_loaded = Inr body \<and>
    rr_status body \<in> {Run_completed, Run_failed} \<and> settled_total body = NUM_TASKS * NUM_MODELS"
proof (rule load_test_finishes)
  have "reads_uuids fx_service"
    by (simp add: reads_uuids_def fx_service_def fx_read_uuid_def undash_uuid_str hex_val_hex32)
  then have "client_ready fx_service ''K'' fx_loaded"
    by (simp add: client_ready_def authenticate_def fx_service_def fx_loaded_def key_prefix_def fx_crypto_def
        bytes_hex_def verify_hash strip_def is_space_def)
  moreover have "schema_ok fx_loaded"
    by (simp add: schema_ok_def table_defs fx_loaded_def fx_schema_def fx_sys_def fx_task_def fx_endpoint_def
        fx_run_def fx_item_def refers_def eval_run_columns_def run_item_columns_def nullable_def zero_columns)
  moreover have "drawn_ids fx_loaded"
    by (simp add: drawn_ids_def all_ids_def fx_loaded_def fx_schema_def fx_sys_def fx_task_def fx_endpoint_def
        fx_run_def fx_item_def)
  moreover have "ledger_ok fx_loaded"
    by (simp add: ledger_ok_iff cost_book_def token_book_def group_sum_def fx_loaded_def fx_schema_def fx_sys_def
        fx_run_def fx_item_def item_cost_def item_tokens_def or_zero_def)
  moreover have "list_all item_small (run_items fx_loaded)" "length (run_items fx_loaded) \<le> 99850"
      "list_all (\<lambda>t. length (tk_prompt t) \<le> 10000) (tasks fx_loaded)"
    by (simp_all add: fx_loaded_def fx_schema_def fx_sys_def fx_item_def fx_task_def item_small_def item_cost_def
        item_tokens_def or_zero_def)
  ultimately show "load_ready fx_service ''K'' fx_loaded" by (simp add: load_ready_def)
  show "task_set_create_ok (load_task_set 1770000000)"
    by (simp add: task_set_create_ok_def name_ok_def load_task_set_def show_nat.simps)
  show "mset (rev [0..<NUM_TASKS]) = mset [0..<NUM_TASKS]" by simp
  show "mset [2, 0, 1] = mset [0..<NUM_MODELS]" by (simp add: NUM_MODELS_def numeral_3_eq_3 add.commute)
  show "we_provider (fx_worker (fake_provider (\<lambda>_. []))) = fake_provider (\<lambda>_. [])" by (simp add: fx_worker_def)
  show "0 < max_attempts (we_retry (fx_worker (fake_provider (\<lambda>_. []))))"
    by (simp add: fx_worker_def default_retry_def)
qed auto

end
