(* ===== verification/World_Progress.thy ===== *)
theory World_Progress
  imports World_Runs
begin

text \<open>
  No execution can be kept from ending: whatever other processes and requests do to the state between
  two steps of a worker process, the process reaches its end within a number of steps that the
  retry limit alone fixes. The measure \<open>fuel\<close> bounds the steps left and no state can raise it.
\<close>

text \<open>The process after \<open>n\<close> of its steps, when it finds the state \<open>S i\<close> at step \<open>i\<close>.\<close>

primrec interfered :: "grading_env \<Rightarrow> worker_env \<Rightarrow> (nat \<Rightarrow> sys) \<Rightarrow> proc \<Rightarrow> nat \<Rightarrow> proc" where
  "interfered env w S p 0 = p"
| "interfered env w S p (Suc n) = fst (proc_step env w (interfered env w S p n) (S n))"

definition attempts_left :: "worker_env \<Rightarrow> int \<Rightarrow> nat" where
  "attempts_left w attempt = nat (max_attempts (we_retry w) + 1 - attempt)"

fun fuel :: "worker_env \<Rightarrow> proc \<Rightarrow> nat" where
  "fuel w (P_start rid) = 2 * attempts_left w 1 + 11"
| "fuel w (P_try sn a m) = 2 * attempts_left w a + 10"
| "fuel w (P_call sn a m) = 2 * attempts_left w (a + 1) + 11"
| "fuel w (P_check sn c) = 10"
| "fuel w (P_store sn c) = 9"
| "fuel w (P_finalize sn c k) = 8"
| "fuel w (P_budget sn c) = 7"
| "fuel w (P_grade sn c) = 6"
| "fuel w (P_judge sn c now det) = 5"
| "fuel w (P_review sn now det judge) = 4"
| "fuel w (P_insert sn now det judge already) = 3"
| "fuel w (P_exhausted sn m) = 4"
| "fuel w (P_publish sn) = 3"
| "fuel w (P_refused sn m) = 3"
| "fuel w (P_grade_failed sn e) = 3"
| "fuel w (P_complete sn r) = 2"
| "fuel w (P_ending sn r) = 1"
| "fuel w (P_cancelled sn) = 1"
| "fuel w (P_aborted sn) = 1"
| "fuel w (P_done r) = 0"

lemma attempts_left_less:
  "a \<le> max_attempts (we_retry w) \<Longrightarrow> attempts_left w a = Suc (attempts_left w (a + 1))"
  by (simp add: attempts_left_def)

lemma fuel_zero_iff: "fuel w p = 0 \<longleftrightarrow> (\<exists>r. p = P_done r)"
  by (cases p) simp_all

lemma fuel_start: "fuel w (step_start rid s) < fuel w (P_start rid)"
  by (simp add: step_start_def split: option.split)

lemma fuel_call: "fuel w (fst (step_call w sn a m s)) < fuel w (P_call sn a m)"
  by (simp add: step_call_def split: prod.split sum.split exn.split)

lemma fuel_finalize: "fuel w (fst (step_finalize sn c k s)) < fuel w (P_finalize sn c k)"
  by (simp add: step_finalize_def split: sum.split prod.split bool.split)

lemma fuel_tail:
  "fuel w (fst (step_budget w' sn c s)) < fuel w (P_budget sn c)"
  "fuel w (step_grade env sn c s) < fuel w (P_grade sn c)"
  "fuel w (fst (step_judge env w' sn c now det s)) < fuel w (P_judge sn c now det)"
  "fuel w (fst (step_insert env sn now det judge already s)) < fuel w (P_insert sn now det judge already)"
  "fuel w (fst (step_complete sn rep s)) < fuel w (P_complete sn rep)"
  "fuel w (fst (report_end sn rep s)) < fuel w (P_ending sn rep)"
  by (simp_all add: step_budget_def step_grade_def step_judge_def step_insert_def step_complete_def
      report_end_def Let_def split: prod.split sum.split grading_start.split)

lemma fuel_decreases: "fuel w p \<noteq> 0 \<Longrightarrow> fuel w (fst (proc_step env w p s)) < fuel w p"
  using fuel_call fuel_finalize fuel_tail fuel_start
  by (cases p) (simp_all add: attempts_left_less case_prod_unfold Let_def del: fuel.simps(1,3,6,7,8,9,11,16,17),
      simp_all add: attempts_left_less)

lemma interfered_fuel: "fuel w (interfered env w S p n) \<le> fuel w p - n"
proof (induction n)
  case 0
  then show ?case by simp
next
  case (Suc n)
  show ?case
  proof (cases "fuel w (interfered env w S p n) = 0")
    case True
    then obtain r where "interfered env w S p n = P_done r" by (auto simp: fuel_zero_iff)
    then show ?thesis by simp
  next
    case False
    from fuel_decreases [OF this, of env "S n"] Suc show ?thesis by simp
  qed
qed

text \<open>
  C9. Every execution ends: a worker process that is delivered an item is done after at most twice
  the configured number of attempts plus eleven steps, whatever states it finds at its steps, that
  is, whatever other workers, redeliveries and API requests do in between, and whatever the
  provider and the graders do.
\<close>

theorem execution_terminates:
  "\<exists>r. interfered env w S (P_start rid) (2 * nat (max_attempts (we_retry w)) + 11) = P_done r"
proof -
  have "fuel w (interfered env w S (P_start rid) (2 * nat (max_attempts (we_retry w)) + 11)) = 0"
    using interfered_fuel [of w env S "P_start rid" "2 * nat (max_attempts (we_retry w)) + 11"]
    by (simp add: attempts_left_def)
  then show ?thesis by (simp add: fuel_zero_iff)
qed

end
