(* ===== verification/World_Broker.thy ===== *)
theory World_Broker
  imports World_Runs
begin

text \<open>
  The queue \<open>evals\<close> of a broker that hands out every message once, in the order sent, and again only
  when a worker died before its final transaction (\<open>task_acks_late\<close>, \<open>task_reject_on_worker_lost\<close>). If
  replays are served one at a time, no item is ever delivered while another process may still finalize
  it, so every run of such a system is one of the worlds in which the ledger is exact. With two replays
  of one item at the same time it is not: the second finds nothing to update and sends its message all
  the same.
\<close>

subsection \<open>Deliveries in order\<close>

text \<open>An item is busy while a process has not finalized or dead-lettered it.\<close>

definition busy_rid :: "proc \<Rightarrow> uuid option" where
  "busy_rid p = (case p of P_exhausted sn m \<Rightarrow> Some (sn_rid sn) | _ \<Rightarrow> active_rid p)"

text \<open>The number of messages handed out so far stands between the state and the processes.\<close>

inductive broker_step :: "(api_op \<Rightarrow> bool) \<Rightarrow> grading_env \<Rightarrow> worker_env \<Rightarrow>
    sys \<times> nat \<times> proc list \<Rightarrow> sys \<times> nat \<times> proc list \<Rightarrow> bool" for allowed env w where
  deliver: "n < length (evals_queue s) \<Longrightarrow>
    broker_step allowed env w (s, n, ps) (s, Suc n, ps @ [P_start (evals_queue s ! n)])"
| work: "i < length ps \<Longrightarrow> proc_step env w (ps ! i) s = (p, s') \<Longrightarrow>
    broker_step allowed env w (s, n, ps) (s', n, ps[i := p])"
| died: "i < length ps \<Longrightarrow> broker_step allowed env w (s, n, ps) (s, n, take i ps @ drop (Suc i) ps)"
| redeliver: "i < length ps \<Longrightarrow> busy_rid (ps ! i) = Some rid \<Longrightarrow>
    broker_step allowed env w (s, n, ps) (s, n, (take i ps @ drop (Suc i) ps) @ [P_start rid])"
| api: "allowed op \<Longrightarrow> broker_step allowed env w (s, n, ps) (api_step op s, n, ps)"
| api_cut: "allowed op \<Longrightarrow> broker_step allowed env w (s, n, ps) (cut_sends j s (api_step op s), n, ps)"

inductive broker_reachable :: "(api_op \<Rightarrow> bool) \<Rightarrow> grading_env \<Rightarrow> worker_env \<Rightarrow> sys \<Rightarrow>
    sys \<times> nat \<times> proc list \<Rightarrow> bool" for allowed env w s0 where
  start: "broker_reachable allowed env w s0 (s0, length (evals_queue s0), [])"
| step: "broker_reachable allowed env w s0 B \<Longrightarrow> broker_step allowed env w B B' \<Longrightarrow>
    broker_reachable allowed env w s0 B'"

text \<open>Replays whose check and updates nothing comes between.\<close>

fun one_at_a_time :: "api_op \<Rightarrow> bool" where
  "one_at_a_time (Op_replay_late rid k) \<longleftrightarrow> False"
| "one_at_a_time _ \<longleftrightarrow> True"

subsection \<open>Open work\<close>

text \<open>An item is open while a message of it waits or a process is busy with it.\<close>

definition open_work :: "sys \<Rightarrow> nat \<Rightarrow> proc list \<Rightarrow> uuid list" where
  "open_work s n ps = drop n (evals_queue s) @ owned busy_rid ps"

definition dead_ids :: "'a db_scheme \<Rightarrow> uuid set" where
  "dead_ids d = ri_id ` {r \<in> set (run_items d). ri_status r = Item_dead_lettered}"

lemma dead_ids_frame: "run_items d' = run_items d \<Longrightarrow> dead_ids d' = dead_ids d"
  by (simp add: dead_ids_def)

lemma dead_ids_update:
  assumes "run_items d' = sql_update P f (run_items d)" and "\<And>r. ri_id (f r) = ri_id r"
    and "\<And>r. ri_status (f r) \<noteq> Item_dead_lettered"
  shows "dead_ids d' \<subseteq> dead_ids d"
  using assms by (auto simp: dead_ids_def set_sql_update)

lemma dead_ids_marks:
  "dead_ids (mark_running rid d) \<subseteq> dead_ids d" "dead_ids (mark_failed rid err d) \<subseteq> dead_ids d"
  "dead_ids (mark_cancelled rid d) \<subseteq> dead_ids d"
  by (auto simp: dead_ids_def mark_defs set_sql_update)

lemma dead_ids_dead_letter: "dead_ids (mark_dead_lettered rid err d) \<subseteq> insert rid (dead_ids d)"
  by (auto simp: dead_ids_def mark_defs set_sql_update)

lemma dead_ids_abort: "dead_ids (snd (abort_over_budget k l t d)) \<subseteq> dead_ids d"
  by (auto simp: dead_ids_def abort_over_budget_def Let_def set_sql_update)

lemma dead_ids_finalize: "finalize_completion sn c k d = Inr (b, d') \<Longrightarrow> dead_ids d' \<subseteq> dead_ids d"
  unfolding finalize_completion_def Let_def
  by (erule finalize_item_cases) (auto simp: dead_ids_def set_sql_update)

text \<open>What a process does to the queue and to the dead letters.\<close>

definition kills :: "proc \<Rightarrow> uuid set" where
  "kills p = (case p of P_exhausted sn m \<Rightarrow> {sn_rid sn} | _ \<Rightarrow> {})"

lemma queue_frames [simp]:
  "evals_queue (mark_running rid s) = evals_queue s" "evals_queue (mark_failed rid err s) = evals_queue s"
  "evals_queue (mark_dead_lettered rid err s) = evals_queue s" "evals_queue (mark_cancelled rid s) = evals_queue s"
  "evals_queue (complete_updates k s) = evals_queue s" "evals_queue (snd (abort_over_budget k l t s)) = evals_queue s"
  "evals_queue (inc_eval_items st m s) = evals_queue s" "evals_queue (inc_dead_letters s) = evals_queue s"
  "evals_queue (publish_dead_letter i s) = evals_queue s" "evals_queue (count_failed sn s) = evals_queue s"
  by (simp_all add: mark_defs complete_updates_def abort_over_budget_def Let_def inc_eval_items_def
      inc_dead_letters_def publish_dead_letter_def count_failed_def)

lemma dead_frames [simp]:
  "dead_ids (count_failed sn s) = dead_ids s" "dead_ids (inc_dead_letters s) = dead_ids s"
  "dead_ids (publish_dead_letter i s) = dead_ids s" "dead_ids (inc_eval_items st m s) = dead_ids s"
  by (simp_all add: dead_ids_def count_failed_def inc_eval_items_def inc_dead_letters_def publish_dead_letter_def Let_def)

lemma finalize_frame: "finalize_completion sn c k s = Inr (b, s') \<Longrightarrow>
    evals_queue s' = evals_queue s \<and> dead_ids s' \<subseteq> dead_ids s"
  using dead_ids_finalize [of sn c k s b s']
  by (auto simp: finalize_completion_def finalize_item_def Let_def split: if_splits)

lemma judge_queue:
  "run_judge env p t out (s :: sys) = (r, s') \<Longrightarrow> evals_queue s' = evals_queue s \<and> dead_ids s' = dead_ids s"
  using run_judge_frame [of env p t out s] by (auto simp: dead_ids_def)

lemma budget_frame: "abort_over_budget k l t (s :: sys) = (b, s') \<Longrightarrow>
    evals_queue s' = evals_queue s \<and> dead_ids s' \<subseteq> dead_ids s"
  using queue_frames(6) [of k l t s] dead_ids_abort [of k l t s] by simp

lemma insert_queue: "grading_commit env now rid det judge already (s :: sys) = (rows, s') \<Longrightarrow>
    evals_queue s' = evals_queue s \<and> run_items s' = run_items s"
  by (auto simp: grading_commit_def Let_def insert_review_frame)

definition obeys :: "sys \<Rightarrow> proc \<Rightarrow> proc \<Rightarrow> sys \<Rightarrow> bool" where
  "obeys s p p' s' \<longleftrightarrow> evals_queue s' = evals_queue s \<and> dead_ids s' \<subseteq> dead_ids s \<union> kills p \<and>
     (busy_rid p' = None \<or> busy_rid p' = busy_rid p \<and> kills p = {})"

lemma obeysI:
  assumes "evals_queue s' = evals_queue s" and "dead_ids s' \<subseteq> dead_ids s"
    and "busy_rid p' = None \<or> busy_rid p' = busy_rid p \<and> kills p = {}"
  shows "obeys s p p' s'"
  using assms by (auto simp: obeys_def)

lemma report_end_obeys: "evals_queue (snd (report_end sn rep s)) = evals_queue s"
    "dead_ids (snd (report_end sn rep s)) = dead_ids s" "fst (report_end sn rep s) = P_done (Inr rep)"
  by (simp_all add: report_end_def)

lemma proc_obeys:
  assumes st: "proc_step env w p s = (p', s')"
  shows "obeys s p p' s'"
proof (cases p)
  case (P_start rid)
  have "busy_rid (step_start rid s) \<in> {None, Some rid}"
    by (auto simp: step_start_def busy_rid_def dest: load_item_row(3) split: option.split)
  with st show ?thesis by (intro obeysI) (auto simp: P_start busy_rid_def kills_def)
next
  case (P_call sn a le)
  with st show ?thesis
    by (intro obeysI) (auto simp: step_call_def call_provider_def Let_def busy_rid_def kills_def dead_ids_def
        split: sum.splits exn.splits if_splits)
next
  case (P_finalize sn c akey)
  with st show ?thesis
    by (intro obeysI) (auto simp: step_finalize_def busy_rid_def dest!: finalize_frame split: sum.splits prod.splits bool.splits)
next
  case (P_budget sn c)
  with st show ?thesis
    by (intro obeysI) (auto simp: step_budget_def busy_rid_def dest!: budget_frame split: prod.splits if_splits)
next
  case (P_judge sn c now det)
  with st show ?thesis
    by (intro obeysI) (auto simp: step_judge_def busy_rid_def dest!: judge_queue split: prod.splits sum.splits)
next
  case (P_insert sn now det judge already)
  with st show ?thesis
    by (intro obeysI) (auto simp: step_insert_def busy_rid_def dead_ids_def dest: insert_queue split: prod.splits)
next
  case (P_grade sn c)
  with st show ?thesis
    by (intro obeysI) (auto simp: step_grade_def busy_rid_def split: grading_start.splits)
next
  case (P_store sn c)
  with st show ?thesis
    by (intro obeysI) (auto simp: set_artifact_def Let_def busy_rid_def kills_def dead_ids_def split: prod.splits)
next
  case (P_exhausted sn m)
  with st dead_ids_dead_letter show ?thesis by (auto simp: obeys_def kills_def busy_rid_def)
next
  case (P_ending sn rep)
  have "dead_ids (complete_updates (sn_run_id sn) s) = dead_ids s"
    by (simp add: dead_ids_def complete_updates_def Let_def)
  with P_ending st report_end_obeys [of sn rep "complete_updates (sn_run_id sn) s"] show ?thesis
    by (intro obeysI) (auto simp: busy_rid_def)
next
  case (P_complete sn rep)
  with st report_end_obeys [of sn rep s] show ?thesis
    by (intro obeysI) (auto simp: step_complete_def busy_rid_def split: if_splits)
qed (use st in \<open>auto intro!: obeysI simp: busy_rid_def kills_def split: if_splits dest!: subsetD [OF dead_ids_marks(1)]
    subsetD [OF dead_ids_marks(2)] subsetD [OF dead_ids_marks(3)]\<close>)

text \<open>What a request sends: messages of new items, or of a dead letter that is one no longer.\<close>

definition sends :: "sys \<Rightarrow> uuid list \<Rightarrow> sys \<Rightarrow> bool" where
  "sends s rids s' \<longleftrightarrow> evals_queue s' = evals_queue s @ rids \<and> distinct rids \<and> uuid_next s \<le> uuid_next s' \<and>
     (\<forall>i \<in> set rids. uuid_next s \<le> i \<and> i < uuid_next s' \<or> i \<in> dead_ids s) \<and>
     dead_ids s' \<subseteq> dead_ids s - set rids"

lemma sends_nothing:
  "evals_queue s' = evals_queue s \<Longrightarrow> uuid_next s \<le> uuid_next s' \<Longrightarrow> dead_ids s' \<subseteq> dead_ids s \<Longrightarrow> sends s [] s'"
  by (simp add: sends_def)

lemma dead_below: "ids_fresh s \<Longrightarrow> i \<in> dead_ids s \<Longrightarrow> i < uuid_next s"
  by (auto simp: ids_fresh_def dead_ids_def list_all_iff)

lemma create_sends:
  assumes "ids_fresh s"
  shows "\<exists>rids. sends s rids (snd (create_eval_run k ids s))"
proof -
  let ?items = "run_items_for (uuid_next s) (db_now s) (uuid_next s + 1) (tasks_of s k) (endpoints_of s ids)"
  note list = run_items_for_ids [of "uuid_next s" "db_now s" "uuid_next s + 1" "tasks_of s k" "endpoints_of s ids"]
  have queued: "ri_status r = Item_queued" if "r \<in> set ?items" for r
    using that run_items_for_fresh by (fastforce simp: list_all_iff)
  have "length (map ri_id ?items) = length (tasks_of s k) * length (endpoints_of s ids)"
    unfolding list by (simp only: length_upt add_diff_cancel_left')
  then have len: "length ?items = length (tasks_of s k) * length (endpoints_of s ids)"
    by (simp only: length_map)
  have new: "sends s (map ri_id ?items) s'"
    if "evals_queue s' = evals_queue s @ map ri_id ?items" "run_items s' = run_items s @ ?items"
      "uuid_next s' = uuid_next s + 1 + length ?items" for s'
  proof -
    have "dead_ids s' = dead_ids s" using queued by (auto simp: dead_ids_def that(2))
    moreover have "\<forall>i \<in> set (map ri_id ?items). uuid_next s \<le> i \<and> i < uuid_next s'"
      unfolding that(3) list len set_upt by auto
    moreover have "distinct (map ri_id ?items)" unfolding list by simp
    ultimately show ?thesis
      using that(1,3) dead_below [OF assms] unfolding sends_def by (auto simp: not_less [symmetric])
  qed
  have "sends s [] s" by (rule sends_nothing) simp_all
  moreover have "sends s [] s'" if "evals_queue s' = evals_queue s" "uuid_next s' = uuid_next s + 1"
      "run_items s' = run_items s" for s'
    by (rule sends_nothing) (use that in \<open>simp_all add: dead_ids_def\<close>)
  moreover let ?s' = "snd (create_eval_run k ids s)"
  have "?s' = s \<or>
      evals_queue ?s' = evals_queue s \<and> uuid_next ?s' = uuid_next s + 1 \<and> run_items ?s' = run_items s \<or>
      evals_queue ?s' = evals_queue s @ map ri_id ?items \<and> run_items ?s' = run_items s @ ?items \<and>
        uuid_next ?s' = uuid_next s + 1 + length ?items"
    unfolding create_eval_run_eq Let_def by (simp split: option.split)
  ultimately show ?thesis using new [of ?s'] by (elim disjE conjE) (metis, blast, blast)
qed

lemma cancel_sends: "sends s [] (cancel_updates k s)"
  by (rule sends_nothing) (auto simp: cancel_updates_def dead_ids_def set_sql_update)

lemma replay_sends:
  assumes "\<exists>r. fetch ri_id rid (run_items s) = Some r \<and> ri_status r = Item_dead_lettered"
  shows "sends s [rid] (enqueue_run_item rid (replay_updates rid k s))"
proof -
  have "rid \<in> dead_ids s" using assms by (auto simp: dead_ids_def dest: fetch_SomeD)
  moreover have "dead_ids (replay_updates rid k s) \<subseteq> dead_ids s - {rid}"
  proof
    fix i assume "i \<in> dead_ids (replay_updates rid k s)"
    then obtain r where "r \<in> set (run_items s)" "i = ri_id r" "ri_status r = Item_dead_lettered" "ri_id r \<noteq> rid"
      by (auto simp: dead_ids_def replay_updates_def set_sql_update split: if_splits)
    then show "i \<in> dead_ids s - {rid}" by (simp add: dead_ids_def)
  qed
  moreover have "evals_queue (replay_updates rid k s) = evals_queue s"
      "uuid_next (replay_updates rid k s) = uuid_next s"
    by (simp_all add: replay_updates_def)
  moreover have "dead_ids (s'\<lparr>evals_queue := q\<rparr>) = dead_ids s'" for s' :: sys and q
    by (simp add: dead_ids_def)
  ultimately show ?thesis by (simp add: sends_def enqueue_run_item_def)
qed

lemma catalogue_queue: "evals_queue (catalogue_step h op s) = evals_queue s"
  by (simp add: catalogue_step_def create_task_set_def create_task_def create_model_endpoint_def
      create_api_key_def insert_api_key_def delete_api_key_def Let_def
      split: catalogue_op.split option.split)

lemma api_sends:
  assumes "one_at_a_time op" and "ids_fresh s"
  shows "\<exists>rids. sends s rids (api_step op s)"
proof (cases op)
  case (Op_create k ids)
  with create_sends [OF assms(2)] show ?thesis by (simp add: api_step_def)
next
  case (Op_cancel k)
  have "sends s [] (snd (cancel_eval_run k s))"
    by (auto simp: cancel_eval_run_def Let_def cancel_sends split: option.split intro: sends_nothing)
  then show ?thesis by (auto simp: Op_cancel api_step_def)
next
  case (Op_replay rid)
  have "\<exists>rids. sends s rids (snd (replay_run_item rid s))"
    by (auto simp: replay_run_item_def split: option.split intro: exI [of _ "[]"] exI [of _ "[rid]"]
        sends_nothing replay_sends)
  then show ?thesis by (simp add: Op_replay api_step_def)
next
  case (Op_cancel_late k)
  then show ?thesis using cancel_sends by (auto simp: api_step_def)
next
  case (Op_review rop)
  have "sends s [] (review_step rop s)"
    by (rule sends_nothing; cases rule: review_step_cases [of rop s]; simp add: dead_ids_def)
  then show ?thesis by (auto simp: Op_review api_step_def)
next
  case (Op_catalogue h cop)
  have "sends s [] (catalogue_step h cop s)"
    by (rule sends_nothing) (simp_all add: catalogue_step_frame catalogue_queue dead_ids_def)
  then show ?thesis by (auto simp: Op_catalogue api_step_def)
next
  case Op_request_id
  have "sends s [] (s\<lparr>uuid_next := uuid_next s + 1\<rparr>)" by (rule sends_nothing) (simp_all add: dead_ids_def)
  then show ?thesis by (auto simp: Op_request_id api_step_def)
qed (use assms in simp)

lemma handled_kept:
  assumes "proc_step env w p s = (p', s')"
  shows "handled_rid p' = None \<or> handled_rid p' = handled_rid p"
proof (cases p)
  case (P_start rid)
  have "handled_rid (step_start rid s) \<in> {None, Some rid}"
    by (auto simp: step_start_def dest: load_item_row(3) split: option.split)
  with P_start assms show ?thesis by auto
next
  case (P_call sn a le)
  with assms show ?thesis
    by (auto simp: step_call_def Let_def split: prod.splits sum.splits exn.splits)
next
  case (P_finalize sn c akey)
  with assms show ?thesis by (auto simp: step_finalize_def split: sum.splits prod.splits bool.splits)
qed (use assms in \<open>auto simp: step_budget_def step_grade_def step_judge_def step_insert_def step_complete_def
    report_end_def split: if_splits prod.splits sum.splits grading_start.splits\<close>)

lemma busy_handled: "busy_rid p = Some i \<Longrightarrow> handled_rid p = Some i"
  by (cases p) (simp_all add: busy_rid_def)

subsection \<open>The ledger\<close>

text \<open>No item is open twice, and no open item is a dead letter.\<close>

definition broker_ok :: "sys \<Rightarrow> nat \<Rightarrow> proc list \<Rightarrow> bool" where
  "broker_ok s n ps \<longleftrightarrow> n \<le> length (evals_queue s) \<and> distinct (open_work s n ps) \<and>
     set (owned handled_rid ps) \<subseteq> set (evals_queue s) \<and>
     (\<forall>i \<in> set (open_work s n ps). i < uuid_next s \<and> i \<notin> dead_ids s)"

lemma busy_start [simp]: "busy_rid (P_start rid) = Some rid"
  by (simp add: busy_rid_def)

lemma active_busy: "active_rid p = Some i \<Longrightarrow> busy_rid p = Some i"
  by (cases p) (simp_all add: busy_rid_def)

lemma active_open:
  assumes "p \<in> set ps" and "active_rid p = Some i"
  shows "i \<in> set (owned busy_rid ps)"
  using assms(1) active_busy [OF assms(2)] by (rule in_owned)

lemma broker_deliver_ok:
  assumes "broker_ok s n ps" and n: "n < length (evals_queue s)"
  shows "broker_ok s (Suc n) (ps @ [P_start (evals_queue s ! n)])" and "exclusive (evals_queue s ! n) ps"
proof -
  have "drop n (evals_queue s) = evals_queue s ! n # drop (Suc n) (evals_queue s)"
    using n by (rule Cons_nth_drop_Suc [symmetric])
  then have work: "open_work s n ps = evals_queue s ! n # drop (Suc n) (evals_queue s) @ owned busy_rid ps"
    by (simp add: open_work_def)
  show "broker_ok s (Suc n) (ps @ [P_start (evals_queue s ! n)])"
    using assms unfolding broker_ok_def work by (auto simp: open_work_def)
  have "evals_queue s ! n \<notin> set (owned busy_rid ps)"
    using assms(1) unfolding broker_ok_def work by simp
  then show "exclusive (evals_queue s ! n) ps"
    using active_open [of _ ps "evals_queue s ! n"] by (auto simp: exclusive_def list_all_iff)
qed

lemma broker_okI:
  assumes "n \<le> length (evals_queue s)" and "distinct (open_work s n ps)"
    and "set (owned handled_rid ps) \<subseteq> set (evals_queue s)"
    and "\<And>i. i \<in> set (open_work s n ps) \<Longrightarrow> i < uuid_next s" and "\<And>i. i \<in> set (open_work s n ps) \<Longrightarrow> i \<notin> dead_ids s"
  shows "broker_ok s n ps"
  using assms by (simp add: broker_ok_def)

lemma broker_okD:
  assumes "broker_ok s n ps"
  shows "n \<le> length (evals_queue s)" "distinct (open_work s n ps)"
    "i \<in> set (open_work s n ps) \<Longrightarrow> i < uuid_next s" "i \<in> set (open_work s n ps) \<Longrightarrow> i \<notin> dead_ids s"
    "set (owned handled_rid ps) \<subseteq> set (evals_queue s)"
  using assms by (simp_all add: broker_ok_def)

lemma broker_work_ok:
  assumes ok: "broker_ok s n (qs @ p # rs)" and "proc_step env w p s = (p', s')" and grow: "uuid_next s \<le> uuid_next s'"
  shows "broker_ok s' n (qs @ p' # rs)"
proof -
  have ob: "evals_queue s' = evals_queue s" "dead_ids s' \<subseteq> dead_ids s \<union> kills p"
      "busy_rid p' = None \<or> busy_rid p' = busy_rid p \<and> kills p = {}"
    using proc_obeys [OF assms(2)] by (simp_all add: obeys_def)
  have kill: "i \<in> kills p \<Longrightarrow> busy_rid p = Some i" for i
    by (cases p) (simp_all add: kills_def busy_rid_def)
  have sub: "set (open_work s' n (qs @ p' # rs)) \<subseteq> set (open_work s n (qs @ p # rs))"
    using ob(1,3) by (auto simp: open_work_def split: option.splits)
  have "i \<notin> kills p" if "i \<in> set (open_work s' n (qs @ p' # rs))" for i
    using that ob(1,3) kill [of i] broker_okD(2) [OF ok] by (auto simp: open_work_def split: option.splits)
  with sub show ?thesis
  proof (intro broker_okI)
    show "distinct (open_work s' n (qs @ p' # rs))"
      using ob(1,3) broker_okD(2) [OF ok] by (auto simp: open_work_def split: option.splits)
    show "set (owned handled_rid (qs @ p' # rs)) \<subseteq> set (evals_queue s')"
      using ob(1) handled_kept [OF assms(2)] broker_okD(5) [OF ok] by (auto split: option.splits)
  qed (use sub ob(1,2) grow broker_okD(1,3,4) [OF ok] in \<open>force+\<close>)
qed

lemma broker_api_ok:
  assumes ok: "broker_ok s n ps" and "sends s rids s'" and fresh: "ids_fresh s"
  shows "broker_ok s' n ps"
proof -
  have sent: "evals_queue s' = evals_queue s @ rids" "distinct rids" "uuid_next s \<le> uuid_next s'"
      "\<And>i. i \<in> set rids \<Longrightarrow> uuid_next s \<le> i \<and> i < uuid_next s' \<or> i \<in> dead_ids s"
      "dead_ids s' \<subseteq> dead_ids s - set rids"
    using assms(2) by (simp_all add: sends_def)
  have new: "i \<notin> set (open_work s n ps) \<and> i < uuid_next s'" if "i \<in> set rids" for i
    using sent(4) [OF that] sent(3) broker_okD(3,4) [OF ok, of i] dead_below [OF fresh, of i] by auto
  have work: "open_work s' n ps = drop n (evals_queue s) @ rids @ owned busy_rid ps"
    using broker_okD(1) [OF ok] by (simp add: open_work_def sent(1))
  show ?thesis
  proof (rule broker_okI)
    show "distinct (open_work s' n ps)"
      using new sent(2) broker_okD(2) [OF ok] unfolding work by (auto simp: open_work_def)
    show "set (owned handled_rid ps) \<subseteq> set (evals_queue s')"
      using sent(1) broker_okD(5) [OF ok] by auto
    fix i assume "i \<in> set (open_work s' n ps)"
    then consider "i \<in> set (open_work s n ps)" | "i \<in> set rids" unfolding work by (auto simp: open_work_def)
    note cases = this
    then show "i < uuid_next s'"
      by cases (use new [of i] sent(3) broker_okD(3) [OF ok, of i] in auto)
    from cases show "i \<notin> dead_ids s'"
      by cases (use sent(5) broker_okD(4) [OF ok, of i] in auto)
  qed (use sent(1) broker_okD(1) [OF ok] in simp)
qed

lemma cut_sent:
  assumes "sends s rids s'"
  shows "sends s (take j rids) (cut_sends j s s')"
proof -
  have "evals_queue s' = evals_queue s @ rids" using assms by (simp add: sends_def)
  moreover have "dead_ids (cut_sends j s s') = dead_ids s'" by (simp add: dead_ids_def cut_sends_def)
  ultimately show ?thesis
    using assms set_take_subset [of j rids] by (auto simp: sends_def cut_sends_def)
qed

lemma broker_died_ok: "broker_ok s n (qs @ p # rs) \<Longrightarrow> broker_ok s n (qs @ rs)"
  by (auto simp: broker_ok_def open_work_def split: option.splits)

lemma broker_redeliver_ok:
  assumes "broker_ok s n (qs @ p # rs)" and "busy_rid p = Some rid"
  shows "broker_ok s n ((qs @ rs) @ [P_start rid])" and "exclusive rid (qs @ rs)" and "rid \<in> set (evals_queue s)"
proof -
  show "broker_ok s n ((qs @ rs) @ [P_start rid])" "rid \<in> set (evals_queue s)"
    using assms busy_handled [OF assms(2)] by (auto simp: broker_ok_def open_work_def split: option.splits)
  have "rid \<notin> set (owned busy_rid (qs @ rs))" using assms by (auto simp: broker_ok_def open_work_def)
  then show "exclusive rid (qs @ rs)" using active_open [of _ "qs @ rs" rid] by (auto simp: exclusive_def list_all_iff)
qed

lemma broker_refines:
  assumes "broker_reachable one_at_a_time env w s0 B" and "books_fresh s0"
  shows "case B of (s, n, ps) \<Rightarrow> reachable exclusive env w s0 (s, ps) \<and> broker_ok s n ps"
  using assms(1)
proof (induction rule: broker_reachable.induct)
  case start
  then show ?case by (auto simp: broker_ok_def open_work_def intro: reachable.start)
next
  case (step B B')
  obtain s n ps where B: "B = (s, n, ps)" by (cases B)
  have reach: "reachable exclusive env w s0 (s, ps)" and ok: "broker_ok s n ps" using step.IH by (simp_all add: B)
  have world: "books_fresh s" "list_all (proc_agrees s) ps"
    using ledger.reachable_ok [OF reach [unfolded exclusive_unowned] assms(2)] by (simp_all add: ledger.world_ok_def)
  from step.hyps(2)[unfolded B] show ?case
  proof (cases rule: broker_step.cases)
    case deliver
    have "world_step exclusive env w (s, ps) (s, ps @ [P_start (evals_queue s ! n)])"
      using deliver(2) broker_deliver_ok(2) [OF ok deliver(2)] by (intro world_step.deliver) simp_all
    then show ?thesis
      using deliver(1) broker_deliver_ok(1) [OF ok deliver(2)] by (auto intro: reachable.step [OF reach])
  next
    case (work i p s')
    have ps: "ps = take i ps @ ps ! i # drop (Suc i) ps" using work(2) by (rule id_take_nth_drop)
    have "sound_step s (ps ! i) p s'"
      using world work(2) by (intro proc_step_sound [OF work(3)]) (simp_all add: books_fresh_def list_all_length)
    then have "uuid_next s \<le> uuid_next s'" by (simp add: sound_step_def same_keys_def)
    then have "broker_ok s' n (ps[i := p])"
      using broker_work_ok [OF _ work(3)] ok ps upd_conv_take_nth_drop [OF work(2)] by metis
    moreover have "world_step exclusive env w (s, ps) (s', ps[i := p])"
      using work(2,3) by (rule world_step.work)
    ultimately show ?thesis using work(1) by (auto intro: reachable.step [OF reach])
  next
    case (api op)
    have "ids_fresh s" using world by (simp add: books_fresh_def)
    then obtain rids where "sends s rids (api_step op s)" using api_sends [OF api(2)] by blast
    then have "broker_ok (api_step op s) n ps" using broker_api_ok [OF ok] \<open>ids_fresh s\<close> by blast
    then show ?thesis using api(1) by (auto intro: reachable.step [OF reach] world_step.api)
  next
    case (api_cut op j)
    have "ids_fresh s" using world by (simp add: books_fresh_def)
    then obtain rids where "sends s rids (api_step op s)" using api_sends [OF api_cut(2)] by blast
    then have "broker_ok (cut_sends j s (api_step op s)) n ps"
      using broker_api_ok [OF ok cut_sent] \<open>ids_fresh s\<close> by blast
    then show ?thesis using api_cut(1) by (auto intro: reachable.step [OF reach] world_step.api_cut)
  next
    case (died i)
    have "broker_ok s n (take i ps @ ps ! i # drop (Suc i) ps)"
      using ok by (simp only: id_take_nth_drop [OF died(2), symmetric])
    then show ?thesis
      using died broker_died_ok by (auto intro: reachable.step [OF reach] world_step.crash)
  next
    case (redeliver i rid)
    have "broker_ok s n (take i ps @ ps ! i # drop (Suc i) ps)"
      using ok by (simp only: id_take_nth_drop [OF redeliver(2), symmetric])
    note again = broker_redeliver_ok [OF this redeliver(3)]
    have "reachable exclusive env w s0 (s, take i ps @ drop (Suc i) ps)"
      using redeliver(2) by (intro reachable.step [OF reach] world_step.crash)
    then have "reachable exclusive env w s0 (s, (take i ps @ drop (Suc i) ps) @ [P_start rid])"
      by (rule reachable.step) (rule world_step.deliver [of rid s exclusive, OF again(3,2)])
    then show ?thesis using redeliver(1) again(1) by simp
  qed
qed

subsection \<open>Schedules of a broker\<close>

datatype broker_action = Next_message | Work_on nat | Die nat | Request api_op | Request_cut nat api_op

fun broker_perform :: "(api_op \<Rightarrow> bool) \<Rightarrow> grading_env \<Rightarrow> worker_env \<Rightarrow> broker_action \<Rightarrow>
    sys \<times> nat \<times> proc list \<Rightarrow> sys \<times> nat \<times> proc list" where
  "broker_perform allowed env w Next_message (s, n, ps) =
     (if n < length (evals_queue s) then (s, Suc n, ps @ [P_start (evals_queue s ! n)]) else (s, n, ps))"
| "broker_perform allowed env w (Work_on i) (s, n, ps) =
     (if i < length ps then let (p, s') = proc_step env w (ps ! i) s in (s', n, ps[i := p]) else (s, n, ps))"
| "broker_perform allowed env w (Die i) (s, n, ps) =
     (if i < length ps
      then (s, n, (take i ps @ drop (Suc i) ps) @
             (case busy_rid (ps ! i) of None \<Rightarrow> [] | Some rid \<Rightarrow> [P_start rid]))
      else (s, n, ps))"
| "broker_perform allowed env w (Request_cut j op) (s, n, ps) =
     (if allowed op then (cut_sends j s (api_step op s), n, ps) else (s, n, ps))"
| "broker_perform allowed env w (Request op) (s, n, ps) =
     (if allowed op then (api_step op s, n, ps) else (s, n, ps))"

lemma broker_perform_step:
  "broker_perform allowed env w a B = B \<or> broker_step allowed env w B (broker_perform allowed env w a B)"
  by (cases B; cases a)
     (auto simp: Let_def intro: broker_step.intros(1,2,5,6) broker_step.died broker_step.redeliver [simplified]
       split: prod.split option.split)

lemma broker_perform_steps: "(broker_step allowed env w)\<^sup>*\<^sup>* B (fold (broker_perform allowed env w) as B)"
proof (induction as arbitrary: B)
  case (Cons a as)
  have "(broker_step allowed env w)\<^sup>*\<^sup>* B (broker_perform allowed env w a B)"
    using broker_perform_step [of allowed env w a B] by auto
  then show ?case unfolding fold.simps comp_apply using Cons.IH by (rule rtranclp_trans)
qed simp

lemma broker_perform_reachable:
  assumes "broker_reachable allowed env w s0 B"
  shows "broker_reachable allowed env w s0 (fold (broker_perform allowed env w) as B)"
  using broker_perform_steps assms
  by (induction rule: rtranclp_induct) (auto intro: broker_reachable.step)


text \<open>Item 40 of a running run is dead-lettered, item 41 is queued and was delivered.\<close>

definition fx_dlq :: sys where
  "fx_dlq = fx_sys\<lparr>run_items := [fx_dead_item, fx_item 41]\<rparr>"

text \<open>
  The dead letter of item 40 is replayed and delivered; a second replay of it is refused while its
  worker has started; the worker dies and the message goes to another one, which finishes.
\<close>

definition fx_replayed :: "sys \<times> nat \<times> proc list" where
  "fx_replayed = fold (broker_perform one_at_a_time fx_env (fx_worker (fx_provider ''V'')))
     ([Request (Op_replay 40), Next_message, Work_on 0, Request (Op_replay 40), Next_message, Work_on 0,
       Die 0] @ replicate 6 (Work_on 0)) (fx_dlq, length (evals_queue fx_dlq), [])"


text \<open>
  Two replays of the dead letter of item 40 overlap: both find it dead-lettered, the first updates it
  and sends its message, the second updates no row and sends its message all the same.
\<close>

definition fx_raced :: "sys \<times> nat \<times> proc list" where
  "fx_raced = fold (broker_perform (\<lambda>_. True) fx_env (fx_worker (fx_provider ''V'')))
     ([Request (Op_replay 40), Request (Op_replay_late 40 30), Next_message, Next_message, Work_on 0, Work_on 1] @
      replicate 5 (Work_on 0) @ replicate 5 (Work_on 1)) (fx_dlq, length (evals_queue fx_dlq), [])"

lemma fx_raced_books:
  "case fx_raced of (s, n, ps) \<Rightarrow> \<not> ledger_ok s \<and> cost_book s 30 = compute_cost ''gpt-4o'' 1000 500 \<and>
     map er_total_cost_usd (eval_runs s) = [2 * compute_cost ''gpt-4o'' 1000 500]"
  by code_simp


end
