(* ===== verification/World_Unsent.thy ===== *)
theory World_Unsent
  imports World_Broker
begin

text \<open>
  A run is created in one transaction and its messages are sent afterwards, one by one; a replay
  commits and then sends its message. When the process dies or the broker refuses in between, the items
  whose messages are missing stay queued: nothing in the program sends a message for a queued item again.
\<close>

subsection \<open>Items without work\<close>

text \<open>An item without work: queued or failed, with the attempts and the cost of \<open>r0\<close>.\<close>

definition idle :: "run_item \<Rightarrow> 'a db_scheme \<Rightarrow> bool" where
  "idle r0 d \<longleftrightarrow> (\<exists>r. fetch ri_id (ri_id r0) (run_items d) = Some r \<and> ri_status r \<in> {Item_queued, Item_failed} \<and>
     ri_eval_run_id r = ri_eval_run_id r0 \<and> ri_attempt_count r = ri_attempt_count r0 \<and>
     ri_cost_usd r = ri_cost_usd r0 \<and> ri_artifact_key r = ri_artifact_key r0)"

lemma idle_frame: "run_items d' = run_items d \<Longrightarrow> idle r0 d' = idle r0 d"
  by (simp add: idle_def)

lemma idle_update:
  assumes "idle r0 d" and "run_items d' = sql_update p f (run_items d)" and "\<And>r. ri_id (f r) = ri_id r"
    and "\<And>r. ri_id r = ri_id r0 \<Longrightarrow> ri_status r \<in> {Item_queued, Item_failed} \<Longrightarrow> p r \<Longrightarrow>
      ri_status (f r) = Item_failed \<and> ri_eval_run_id (f r) = ri_eval_run_id r \<and>
      ri_attempt_count (f r) = ri_attempt_count r \<and> ri_cost_usd (f r) = ri_cost_usd r \<and>
      ri_artifact_key (f r) = ri_artifact_key r"
  shows "idle r0 d'"
proof -
  obtain r where r: "fetch ri_id (ri_id r0) (run_items d) = Some r" "ri_status r \<in> {Item_queued, Item_failed}"
      "ri_eval_run_id r = ri_eval_run_id r0" "ri_attempt_count r = ri_attempt_count r0"
      "ri_cost_usd r = ri_cost_usd r0" "ri_artifact_key r = ri_artifact_key r0"
    using assms(1) by (auto simp: idle_def)
  then have "ri_id r = ri_id r0" by (auto dest: fetch_SomeD)
  then show ?thesis
    using r assms(4) [of r] by (auto simp: idle_def assms(2) fetch_sql_update assms(3))
qed

lemma idle_items:
  assumes "idle r0 d" and "\<And>r. ri_id (f r) = ri_id r"
    and "\<And>r. ri_id r = ri_id r0 \<Longrightarrow> ri_status r \<in> {Item_queued, Item_failed} \<Longrightarrow> p r \<Longrightarrow>
      ri_status (f r) = Item_failed \<and> ri_eval_run_id (f r) = ri_eval_run_id r \<and>
      ri_attempt_count (f r) = ri_attempt_count r \<and> ri_cost_usd (f r) = ri_cost_usd r \<and>
      ri_artifact_key (f r) = ri_artifact_key r"
  shows "idle r0 (run_items_update (sql_update p f) d)"
  by (rule idle_update [OF assms(1), where p = p and f = f]) (simp_all add: assms(2,3))

lemma idle_runs [simp]: "idle r0 (eval_runs_update g d) = idle r0 d"
  by (simp add: idle_def)

lemma idle_marks:
  assumes "idle r0 d" and "rid \<noteq> ri_id r0"
  shows "idle r0 (mark_running rid d)" "idle r0 (mark_failed rid err d)"
    "idle r0 (mark_dead_lettered rid err d)" "idle r0 (mark_cancelled rid d)"
  unfolding mark_defs by (rule idle_items [OF assms(1)]; use assms(2) in simp)+

lemma idle_abort: "abort_over_budget k l t d = (b, d') \<Longrightarrow> idle r0 d \<Longrightarrow> idle r0 d'"
  by (auto simp: abort_over_budget_def Let_def split: if_splits intro!: idle_items)

lemma idle_finalize:
  assumes "finalize_completion sn c k d = Inr (b, d')" and "idle r0 d" and "sn_rid sn \<noteq> ri_id r0"
  shows "idle r0 d'"
  using assms(1) unfolding finalize_completion_def Let_def
  by (rule finalize_item_cases) (use assms(2,3) in \<open>auto elim!: idle_update\<close>)

lemma idle_work [simp]:
  "idle r0 (inc_eval_items st m s) = idle r0 s" "idle r0 (inc_dead_letters s) = idle r0 s"
  "idle r0 (publish_dead_letter i s) = idle r0 s" "idle r0 (count_failed sn s) = idle r0 s"
  "idle r0 (complete_updates k s) = idle r0 s"
  by (rule idle_frame; simp add: count_failed_def inc_eval_items_def inc_dead_letters_def publish_dead_letter_def
      complete_updates_def Let_def)+

lemma judge_idle: "run_judge env p t out (s :: sys) = (r, s') \<Longrightarrow> idle r0 s' = idle r0 s"
  using run_judge_frame [of env p t out s] by (intro idle_frame) auto

lemma proc_leaves_idle:
  assumes st: "proc_step env w p s = (p', s')" and idle: "idle r0 s" "handled_rid p \<noteq> Some (ri_id r0)"
  shows "idle r0 s'"
proof (cases p)
  case (P_start rid)
  with st idle show ?thesis by auto
next
  case (P_call sn a le)
  with st idle show ?thesis
    by (auto simp: step_call_def call_provider_def Let_def idle_def
        split: sum.splits exn.splits if_splits)
next
  case (P_finalize sn c akey)
  with st idle show ?thesis
    by (auto simp: step_finalize_def dest: idle_finalize split: sum.splits prod.splits bool.splits)
next
  case (P_budget sn c)
  with st idle show ?thesis
    by (auto simp: step_budget_def dest: idle_abort split: prod.splits if_splits)
next
  case (P_judge sn c now det)
  with st idle show ?thesis
    by (auto simp: step_judge_def dest: judge_idle split: prod.splits sum.splits)
next
  case (P_insert sn now det judge already)
  with st idle show ?thesis
    by (auto simp: step_insert_def idle_def dest: insert_queue split: prod.splits)
next
  case (P_grade sn c)
  with st idle show ?thesis
    by (auto simp: step_grade_def split: grading_start.splits)
next
  case (P_store sn c)
  with st idle show ?thesis
    by (auto simp: set_artifact_def Let_def idle_def split: prod.splits)
next
  case (P_complete sn rep)
  with st idle show ?thesis
    by (auto simp: step_complete_def report_end_def split: if_splits)
next
  case (P_ending sn rep)
  with st idle show ?thesis by (auto simp: report_end_def)
qed (use st idle in \<open>auto simp: idle_marks split: if_splits\<close>)

lemma idle_queued: "idle r0 d \<Longrightarrow> distinct (map ri_id (run_items d)) \<Longrightarrow> ri_id r0 \<notin> dead_ids d"
  unfolding idle_def dead_ids_def using fetch_eqI [of ri_id "run_items d"] by fastforce

lemma idle_row: "idle r0 d \<Longrightarrow> \<exists>r \<in> set (run_items d). ri_id r = ri_id r0"
  by (auto simp: idle_def dest: fetch_SomeD)

lemma idle_append:
  assumes "idle r0 d" and "run_items d' = run_items d @ rs"
  shows "idle r0 d'"
  using assms by (auto simp: idle_def fetch_append)

lemma idle_replay:
  assumes "idle r0 s"
  shows "idle r0 (snd (replay_run_item rid s))"
proof -
  have "idle r0 (replay_updates rid k s)" for k
    unfolding replay_updates_def idle_runs by (rule idle_items [OF assms]) auto
  moreover have "idle r0 (enqueue_run_item rid s') = idle r0 s'" for s'
    by (rule idle_frame) (simp add: enqueue_run_item_def)
  ultimately show ?thesis using assms by (simp add: replay_run_item_def split: option.split)
qed

lemma api_leaves_idle:
  assumes op: "one_at_a_time op" and idle: "idle r0 s"
  shows "idle r0 (api_step op s)"
proof (cases op)
  case (Op_create k ids)
  have "\<exists>rs. run_items (snd (create_eval_run k ids s)) = run_items s @ rs"
    unfolding create_eval_run_eq Let_def by (simp split: option.split)
  then show ?thesis using idle_append [OF idle] by (auto simp: Op_create api_step_def)
next
  case (Op_cancel k)
  have "idle r0 (cancel_updates k s)"
    unfolding cancel_updates_def by (rule idle_items) (simp_all add: idle)
  then show ?thesis by (simp add: Op_cancel api_step_def cancel_eval_run_def Let_def idle split: option.split)
next
  case (Op_replay rid)
  then show ?thesis using idle_replay [OF idle] by (simp add: api_step_def)
next
  case (Op_cancel_late k)
  have "idle r0 (cancel_updates k s)"
    unfolding cancel_updates_def by (rule idle_items) (simp_all add: idle)
  then show ?thesis by (simp add: Op_cancel_late api_step_def)
next
  case (Op_review rop)
  have "run_items (review_step rop s) = run_items s" by (cases rule: review_step_cases [of rop s]) simp_all
  from idle_frame [OF this, of r0] show ?thesis using idle by (simp add: Op_review api_step_def)
next
  case (Op_catalogue h cop)
  then show ?thesis using idle by (simp add: api_step_def idle_def catalogue_step_frame)
next
  case Op_request_id
  then show ?thesis using idle by (simp add: api_step_def idle_def)
qed (use op in simp)

text \<open>An item that no message waiting and no process will bring to a worker.\<close>

definition unsent :: "run_item \<Rightarrow> sys \<Rightarrow> nat \<Rightarrow> proc list \<Rightarrow> bool" where
  "unsent r0 s n ps \<longleftrightarrow> idle r0 s \<and> ri_id r0 \<notin> set (drop n (evals_queue s)) \<and>
     list_all (\<lambda>p. handled_rid p \<noteq> Some (ri_id r0)) ps"

lemma sends_unsent:
  assumes "sends s rids s'" and "idle r0 s" and "distinct (map ri_id (run_items s))" and "ids_fresh s"
    and "ri_id r0 \<notin> set (drop n (evals_queue s))"
  shows "ri_id r0 \<notin> set (drop n (evals_queue s'))"
proof -
  have "ri_id r0 < uuid_next s"
    using idle_row [OF assms(2)] assms(4) by (fastforce simp: ids_fresh_def list_all_iff)
  then have "ri_id r0 \<notin> set rids"
    using assms(1) idle_queued [OF assms(2,3)] unfolding sends_def by (metis not_less)
  then show ?thesis
    using assms(1,5) by (auto simp: sends_def dest: in_set_dropD)
qed

lemma unsent_step:
  assumes "broker_step one_at_a_time env w (s, n, ps) (s', n', ps')" and "books_fresh s" and "unsent r0 s n ps"
  shows "unsent r0 s' n' ps'"
  using assms(1)
proof (cases rule: broker_step.cases)
  case (work i p)
  have "idle r0 s" "handled_rid (ps ! i) \<noteq> Some (ri_id r0)" using assms(3) work by (auto simp: unsent_def list_all_iff)
  moreover have st: "proc_step env w (ps ! i) s = (p, s')" using work by simp
  ultimately have "idle r0 s'" "handled_rid p \<noteq> Some (ri_id r0)"
    using proc_leaves_idle [OF st] handled_kept [OF st] by auto
  moreover have "evals_queue s' = evals_queue s" using work proc_obeys by (auto simp: obeys_def)
  ultimately show ?thesis
    using assms(3) work set_update_subset_insert [of ps i p] by (auto simp: unsent_def list_all_iff)
next
  case (api op)
  then obtain rids where "sends s rids s'" using api_sends [of op s] assms(2) by (auto simp: books_fresh_def)
  then show ?thesis
    using api assms(2,3) api_leaves_idle [of op r0 s] sends_unsent [of s rids s' r0]
    by (auto simp: unsent_def books_fresh_def book_inv_def)
next
  case (api_cut op j)
  then obtain rids where "sends s rids (api_step op s)" using api_sends [of op s] assms(2) by (auto simp: books_fresh_def)
  then have "sends s (take j rids) s'" using api_cut cut_sent by simp
  moreover have "idle r0 s'"
    using api_cut assms(3) api_leaves_idle [of op r0 s] by (simp add: unsent_def idle_def cut_sends_def)
  ultimately show ?thesis
    using api_cut assms(2,3) sends_unsent [of s "take j rids" s' r0] by (auto simp: unsent_def books_fresh_def book_inv_def)
next
  case deliver
  then have "drop n (evals_queue s) = evals_queue s ! n # drop (Suc n) (evals_queue s)"
    by (simp add: Cons_nth_drop_Suc)
  with deliver show ?thesis using assms(3) by (auto simp: unsent_def)
qed (use assms(3) in \<open>auto simp: unsent_def list_all_iff dest: in_set_takeD in_set_dropD nth_mem busy_handled\<close>)

lemma unsent_steps:
  assumes "(broker_step one_at_a_time env w)\<^sup>*\<^sup>* B B'" and "books_fresh s0"
    and "broker_reachable one_at_a_time env w s0 B" and "case B of (s, n, ps) \<Rightarrow> unsent r0 s n ps"
  shows "broker_reachable one_at_a_time env w s0 B' \<and> (case B' of (s, n, ps) \<Rightarrow> unsent r0 s n ps)"
  using assms(1)
proof (induction rule: rtranclp_induct)
  case base
  then show ?case using assms(3,4) by simp
next
  case (step B1 B2)
  obtain s n ps where B1: "B1 = (s, n, ps)" by (cases B1)
  obtain s' n' ps' where B2: "B2 = (s', n', ps')" by (cases B2)
  have reach: "broker_reachable one_at_a_time env w s0 (s, n, ps)" and un: "unsent r0 s n ps"
    using step.IH by (simp_all add: B1)
  have "reachable (unowned active_rid) env w s0 (s, ps)"
    using broker_refines [OF reach assms(2)] by (simp add: exclusive_unowned)
  then have "books_fresh s" using assms(2) by (rule ledger.reachable_state)
  then have "unsent r0 s' n' ps'" using unsent_step [OF step.hyps(2) [unfolded B1 B2]] un by blast
  moreover have "broker_reachable one_at_a_time env w s0 B2"
    using reach step.hyps(2) unfolding B1 by (rule broker_reachable.step)
  ultimately show ?case by (simp add: B2)
qed

text \<open>
  C11. A message that was not sent is never sent: when the process that creates a run or replays a dead
  letter dies, or the broker refuses, between the commit and the send, the queued item stays as the
  request left it, whatever the workers, later requests and replays do. No attempt is made, a replay of
  it is refused, no message of it is sent, and while it is queued every completion check of its run
  finds it, so only cancelling the run or its spend limit ends it.
\<close>

theorem unsent_item_never_runs:
  assumes "distinct (map ri_id (run_items s0))" and "ledger_ok s0" and "ids_fresh s0"
    and "broker_reachable one_at_a_time env w s0 (s1, n1, ps1)"
    and "fetch ri_id rid (run_items s1) = Some r1" and "ri_status r1 = Item_queued" 
    and "rid \<notin> set (drop n1 (evals_queue s1))" and "list_all (\<lambda>p. handled_rid p \<noteq> Some rid) ps1"
    and "(broker_step one_at_a_time env w)\<^sup>*\<^sup>* (s1, n1, ps1) (s, n, ps)"
  shows "(\<exists>r. fetch ri_id rid (run_items s) = Some r \<and> ri_status r \<in> {Item_queued, Item_failed} \<and>
      ri_attempt_count r = ri_attempt_count r1 \<and> ri_cost_usd r = ri_cost_usd r1 \<and>
      ri_artifact_key r = ri_artifact_key r1 \<and>
      (ri_status r = Item_queued \<longrightarrow> 0 < remaining_items (ri_eval_run_id r1) s)) \<and>
    rid \<notin> set (drop n (evals_queue s)) \<and> list_all (\<lambda>p. handled_rid p \<noteq> Some rid) ps \<and>
    isl (fst (replay_run_item rid s))"
proof -
  have books: "books_fresh s0" using assms(1-3) by (simp add: books_fresh_def book_inv_def)
  have id: "ri_id r1 = rid" using assms(5) by (auto dest: fetch_SomeD)
  have "unsent r1 s1 n1 ps1" using assms(5-8) by (auto simp: unsent_def idle_def id)
  then have "unsent r1 s n ps" using unsent_steps [OF assms(9) books assms(4), of r1] by simp
  then have un: "idle r1 s" "rid \<notin> set (drop n (evals_queue s))" "list_all (\<lambda>p. handled_rid p \<noteq> Some rid) ps"
    by (simp_all add: unsent_def id)
  then obtain r where r: "fetch ri_id rid (run_items s) = Some r" "ri_status r \<in> {Item_queued, Item_failed}"
      "ri_eval_run_id r = ri_eval_run_id r1" "ri_attempt_count r = ri_attempt_count r1"
      "ri_cost_usd r = ri_cost_usd r1" "ri_artifact_key r = ri_artifact_key r1"
    by (auto simp: idle_def id)
  have "0 < remaining_items (ri_eval_run_id r1) s" if "ri_status r = Item_queued"
    using r that by (auto simp: remaining_items_def unfinished_def rowcount_pos_iff dest!: fetch_SomeD)
  moreover have "isl (fst (replay_run_item rid s))" using r by (auto simp: replay_run_item_def)
  ultimately show ?thesis using r un(2,3) by blast
qed

text \<open>
  A run over two endpoints and two tasks is created and its process dies after the first of its four
  messages; the first item is executed, and the last one is replayed in vain.
\<close>

definition fx_cut :: "sys \<times> nat \<times> proc list" where
  "fx_cut = fold (broker_perform one_at_a_time fx_env (fx_worker (fx_provider ''V'')))
     [Request_cut 1 (Op_create 1 [20, 21])] (fx_catalog, length (evals_queue fx_catalog), [])"

definition fx_after_cut :: "sys \<times> nat \<times> proc list" where
  "fx_after_cut = fold (broker_perform one_at_a_time fx_env (fx_worker (fx_provider ''V'')))
     (Next_message # replicate 12 (Work_on 0) @ [Request (Op_replay 104), Next_message]) fx_cut"

definition fx_unsent :: run_item where
  "fx_unsent = new_run_item 100 7 104 (fx_task\<lparr>tk_id := 11\<rparr>) (fx_endpoint\<lparr>me_id := 21\<rparr>)"

theorem unsent_item_never_runs_witness:
  "(\<exists>r. fetch ri_id 104 (run_items (fst fx_after_cut)) = Some r \<and> ri_status r \<in> {Item_queued, Item_failed} \<and>
      ri_attempt_count r = ri_attempt_count fx_unsent \<and> ri_cost_usd r = ri_cost_usd fx_unsent \<and>
      ri_artifact_key r = ri_artifact_key fx_unsent \<and>
      (ri_status r = Item_queued \<longrightarrow> 0 < remaining_items (ri_eval_run_id fx_unsent) (fst fx_after_cut))) \<and>
    104 \<notin> set (drop (fst (snd fx_after_cut)) (evals_queue (fst fx_after_cut))) \<and>
    list_all (\<lambda>p. handled_rid p \<noteq> Some 104) (snd (snd fx_after_cut)) \<and>
    isl (fst (replay_run_item 104 (fst fx_after_cut)))"
proof (rule unsent_item_never_runs)
  let ?w = "fx_worker (fx_provider ''V'')"
  show "broker_reachable one_at_a_time fx_env ?w fx_catalog (fst fx_cut, fst (snd fx_cut), snd (snd fx_cut))"
    unfolding prod.collapse fx_cut_def by (rule broker_perform_reachable [OF broker_reachable.start])
  show "(broker_step one_at_a_time fx_env ?w)\<^sup>*\<^sup>* (fst fx_cut, fst (snd fx_cut), snd (snd fx_cut))
      (fst fx_after_cut, fst (snd fx_after_cut), snd (snd fx_after_cut))"
    unfolding prod.collapse fx_after_cut_def by (rule broker_perform_steps)
  show "ri_status fx_unsent = Item_queued" by (simp add: fx_unsent_def new_run_item_def)
qed code_simp+

end
