(* ===== verification/World_Metrics.thy ===== *)
theory World_Metrics
  imports World_Runs
begin

text \<open>
  The counters of \<open>app/metrics.py\<close> in a running system: what the counters of dead letters and of review
  items say is what the dead letter queue and the review table hold. Another interpretation of
  \<open>owned_invariant\<close>, without owners and without anything to know about a process. A counter is
  incremented in the step of its event; a process that dies between the two is left out.
\<close>

definition reviews_with :: "review_reason \<Rightarrow> 'a db_scheme \<Rightarrow> nat" where
  "reviews_with reason d = rowcount (\<lambda>v. rv_reason v = reason) (review_items d)"

definition counters_ok :: "sys \<Rightarrow> bool" where
  "counters_ok s \<longleftrightarrow> dead_letters_total s = length (dlq s) \<and>
     (\<forall>reason. review_items_total s reason = reviews_with reason s)"

text \<open>A step that opens no review item and publishes no dead letter.\<close>

definition uncounted :: "sys \<Rightarrow> sys \<Rightarrow> bool" where
  "uncounted s s' \<longleftrightarrow> dead_letters_total s' = dead_letters_total s \<and> dlq s' = dlq s \<and>
     review_items_total s' = review_items_total s \<and> map rv_reason (review_items s') = map rv_reason (review_items s)"

lemma reviews_with_reasons:
  "reviews_with reason d = length (filter (\<lambda>x. x = reason) (map rv_reason (review_items d)))"
  by (simp add: reviews_with_def rowcount_def filter_map o_def)

lemma uncounted_ok: "uncounted s s' \<Longrightarrow> counters_ok s \<Longrightarrow> counters_ok s'"
  by (simp add: uncounted_def counters_ok_def reviews_with_reasons)

lemma uncounted_frame:
  assumes "dead_letters_total s' = dead_letters_total s" "dlq s' = dlq s"
    and "review_items_total s' = review_items_total s" "review_items s' = review_items s"
  shows "uncounted s s'"
  using assms by (simp add: uncounted_def)

lemma uncounted_trans: "uncounted a b \<Longrightarrow> uncounted b c \<Longrightarrow> uncounted a c"
  by (simp add: uncounted_def)

lemma uncounted_work:
  "uncounted s s" "uncounted s (mark_running rid s)" "uncounted s (mark_failed rid err s)"
  "uncounted s (mark_dead_lettered rid err s)" "uncounted s (mark_cancelled rid s)"
  "uncounted s (complete_updates k s)" "uncounted s (snd (abort_over_budget k l t s))"
  "uncounted s (inc_eval_items st m s)" "uncounted s (cancel_updates k s)"
  "uncounted s (enqueue_run_item rid (replay_updates rid k s))"
  by (rule uncounted_frame; simp add: mark_defs complete_updates_def abort_over_budget_def inc_eval_items_def
      cancel_updates_def replay_updates_def enqueue_run_item_def Let_def)+

lemma uncounted_failed: "uncounted s s' \<Longrightarrow> uncounted s (count_failed sn s')"
  unfolding count_failed_def by (rule uncounted_trans [OF _ uncounted_work(8)])

lemma uncounted_finalize: "finalize_completion sn c k s = Inr (b, s') \<Longrightarrow> uncounted s s'"
  by (auto simp: finalize_completion_def finalize_item_def Let_def uncounted_def split: if_splits)

lemma uncounted_judge: "run_judge env p t out s = (r, s') \<Longrightarrow> uncounted s s'"
  using run_judge_frame [of env p t out s] by (auto simp: uncounted_def)

lemma uncounted_report: "uncounted s (snd (report_end sn rep s))"
  by (simp add: report_end_def uncounted_work)

text \<open>The two events.\<close>

lemma published_ok: "counters_ok s \<Longrightarrow> counters_ok (inc_dead_letters (publish_dead_letter rid s))"
  by (simp add: counters_ok_def reviews_with_def inc_dead_letters_def publish_dead_letter_def)

lemma commit_ok:
  assumes "grading_commit env now rid det judge already s = (rows, s')" and "counters_ok s"
  shows "counters_ok s'"
proof -
  have "counters_ok (insert_review now rid v already s)" for v
    using assms(2) by (auto simp: insert_review_def counters_ok_def reviews_with_def rowcount_append
        new_review_item_def split: option.split)
  then show ?thesis
    using assms(1) by (auto simp: grading_commit_def Let_def counters_ok_def reviews_with_def)
qed

lemma counters_proc:
  assumes st: "proc_step env w p s = (p', s')" and ok: "counters_ok s"
  shows "counters_ok s'"
proof (cases p)
  case (P_call sn a le)
  with st show ?thesis
    by (intro uncounted_ok [OF _ ok])
       (auto simp: step_call_def call_provider_def Let_def uncounted_def split: sum.splits exn.splits if_splits)
next
  case (P_publish sn)
  with st uncounted_ok [OF uncounted_work(8) published_ok [OF ok]] show ?thesis by auto
next
  case (P_store sn c)
  with st show ?thesis
    by (intro uncounted_ok [OF _ ok]) (auto simp: set_artifact_def Let_def uncounted_def)
next
  case (P_finalize sn c akey)
  with st show ?thesis
    by (intro uncounted_ok [OF _ ok])
       (auto simp: step_finalize_def uncounted_work dest: uncounted_finalize split: sum.splits prod.splits bool.splits)
next
  case (P_budget sn c)
  have "uncounted s s1" if "abort_over_budget (sn_run_id sn) (we_spend_limit w) (we_spend_text w) s = (b, s1)" for b s1
    using uncounted_work(7) [of s "sn_run_id sn" "we_spend_limit w" "we_spend_text w"] that by simp
  with P_budget st show ?thesis
    by (intro uncounted_ok [OF _ ok])
       (auto simp: step_budget_def split: prod.splits if_splits intro: uncounted_trans [OF _ uncounted_work(8)])
next
  case (P_judge sn c now det)
  with st show ?thesis
    by (intro uncounted_ok [OF _ ok]) (auto simp: step_judge_def dest: uncounted_judge split: prod.splits sum.splits)
next
  case (P_insert sn now det judge already)
  with st ok show ?thesis by (auto simp: step_insert_def dest: commit_ok split: prod.splits)
next
  case (P_complete sn rep)
  with st uncounted_report [of s sn rep] show ?thesis
    by (intro uncounted_ok [OF _ ok]) (auto simp: step_complete_def uncounted_work split: if_splits)
next
  case (P_ending sn rep)
  have "uncounted s (snd (report_end sn rep (complete_updates (sn_run_id sn) s)))"
    by (rule uncounted_trans [OF uncounted_work(6) uncounted_report])
  with P_ending st show ?thesis by (intro uncounted_ok [OF _ ok]) auto
qed (use st in \<open>auto intro!: uncounted_ok [OF _ ok] uncounted_failed uncounted_work split: if_splits\<close>)

lemma counters_api:
  assumes ok: "counters_ok s"
  shows "counters_ok (api_step op s)"
proof (rule uncounted_ok [OF _ ok], cases op)
  case (Op_create k ids)
  have "uncounted s (snd (create_eval_run k ids s))"
    unfolding create_eval_run_eq Let_def by (simp add: uncounted_def split: option.split)
  then show "uncounted s (api_step op s)" by (simp add: Op_create api_step_def)
next
  case (Op_review rop)
  have "uncounted s (review_step rop s)"
    by (cases rule: review_step_cases [of rop s]) (simp_all add: uncounted_def map_sql_update)
  then show "uncounted s (api_step op s)" by (simp add: Op_review api_step_def)
next
  case (Op_catalogue h cop)
  have "uncounted s (catalogue_step h cop s)"
    by (simp add: uncounted_def catalogue_step_def create_task_set_def create_task_def create_model_endpoint_def
        create_api_key_def insert_api_key_def delete_api_key_def Let_def split: catalogue_op.split option.split)
  then show "uncounted s (api_step op s)" by (simp add: Op_catalogue api_step_def)
next
  case Op_request_id
  then show "uncounted s (api_step op s)" by (simp add: api_step_def uncounted_def)
qed (auto simp: api_step_def cancel_eval_run_def replay_run_item_def Let_def uncounted_work split: option.split)

interpretation counters: owned_invariant env w "\<lambda>_. None" counters_ok "\<lambda>_ _. True"
proof
  show "counters_ok (s\<lparr>evals_queue := ms\<rparr>)" if "counters_ok s" for s :: sys and ms
    using that by (simp add: counters_ok_def reviews_with_def)
qed (auto intro: counters_proc counters_api)


text \<open>Both items are dead-lettered under a provider that is rate limited; one is replayed and dies again.\<close>

definition fx_limited_world :: world where
  "fx_limited_world = fold (perform exclusive fx_env (fx_worker fx_limited))
     ([Deliver 40] @ replicate 16 (Work 0) @ [Deliver 41] @ replicate 16 (Work 1) @
      [Api (Op_replay 40), Deliver 40] @ replicate 16 (Work 2)) (fx_sys, [])"


end
