(* ===== verification/Ddl.thy ===== *)
theory Ddl
  imports Prelude
begin

text \<open>
  The operations of Alembic that \<open>alembic/versions\<close> uses, and what PostgreSQL does with them. A
  \<open>catalog\<close> is what the database knows of itself: tables with their columns and constraints, indexes,
  enum types, and which columns hold a NULL in some row. An operation that the database refuses (a table
  that exists, a type in use, a column with a NULL made NOT NULL) is an error, and the migration's
  transaction leaves the catalog as it was.
\<close>

subsection \<open>Catalogs\<close>

datatype column_type =
    T_uuid | T_text | T_timestamptz | T_integer | T_boolean | T_jsonb
  | T_numeric nat nat
  | T_enum string

datatype server_default = SD_now | SD_text string

record column =
  co_name :: string
  co_type :: column_type
  co_nullable :: bool
  co_default :: "server_default option"

datatype on_delete = Cascade | Restrict

datatype table_constraint =
    Primary_key string "string list"
  | Foreign_key string "string list" string "string list" on_delete
  | Unique string "string list"

record table_def =
  td_name :: string
  td_columns :: "column list"
  td_constraints :: "table_constraint list"

record index_def =
  ix_name :: string
  ix_table :: string
  ix_columns :: "string list"

record catalog =
  ct_tables :: "table_def list"
  ct_indexes :: "index_def list"
  ct_enums :: "(string \<times> string list) list"
  ct_nulls :: "(string \<times> string) list"

text \<open>A text literal of SQL.\<close>

definition quoted :: "string \<Rightarrow> string" where
  "quoted s = CHR 0x27 # s @ [CHR 0x27]"

definition empty_catalog :: catalog where
  "empty_catalog = \<lparr>ct_tables = [], ct_indexes = [], ct_enums = [], ct_nulls = []\<rparr>"

fun constraint_name :: "table_constraint \<Rightarrow> string" where
  "constraint_name (Primary_key n cs) = n"
| "constraint_name (Foreign_key n cs t rs del) = n"
| "constraint_name (Unique n cs) = n"

definition table_names :: "catalog \<Rightarrow> string list" where
  "table_names c = map td_name (ct_tables c)"

definition column_names :: "table_def \<Rightarrow> string list" where
  "column_names t = map co_name (td_columns t)"

text \<open>The columns another table may refer to: the primary key or a unique constraint.\<close>

fun key_columns :: "table_constraint \<Rightarrow> string list option" where
  "key_columns (Primary_key n cs) = Some cs"
| "key_columns (Unique n cs) = Some cs"
| "key_columns (Foreign_key n cs t rs del) = None"

fun refers_to :: "string \<Rightarrow> table_constraint \<Rightarrow> bool" where
  "refers_to t (Foreign_key n cs t' rs del) \<longleftrightarrow> t' = t"
| "refers_to t _ \<longleftrightarrow> False"

fun constraint_ok :: "catalog \<Rightarrow> string list \<Rightarrow> table_constraint \<Rightarrow> bool" where
  "constraint_ok c cols (Primary_key n cs) \<longleftrightarrow> list_all (\<lambda>x. x \<in> set cols) cs"
| "constraint_ok c cols (Unique n cs) \<longleftrightarrow> list_all (\<lambda>x. x \<in> set cols) cs"
| "constraint_ok c cols (Foreign_key n cs t rs del) \<longleftrightarrow> list_all (\<lambda>x. x \<in> set cols) cs \<and>
     list_ex (\<lambda>u. td_name u = t \<and> Some rs \<in> set (map key_columns (td_constraints u))) (ct_tables c)"

fun enum_of :: "column_type \<Rightarrow> string option" where
  "enum_of (T_enum n) = Some n"
| "enum_of _ = None"

definition enums_used :: "column list \<Rightarrow> string list" where
  "enums_used cols = List.map_filter (\<lambda>co. enum_of (co_type co)) cols"

subsection \<open>Operations\<close>

text \<open>
  Creating a table also creates the enum types of its columns, which must not exist yet; \<open>labels\<close> are
  those of the \<open>postgresql.ENUM\<close> objects. Dropping a table leaves its types behind. \<open>Fill\<close> is an
  \<open>UPDATE t SET c = <literal> WHERE c IS NULL\<close>.
\<close>

datatype ddl_op =
    Create_table string "column list" "table_constraint list" "(string \<times> string list) list"
  | Drop_table string
  | Create_index string string "string list"
  | Drop_index string string
  | Add_column string column
  | Drop_column string string
  | Alter_nullable string string bool
  | Drop_enum string
  | Fill string string

datatype ddl_error =
    Duplicate_object string
  | Undefined_object string
  | Dependent_objects string
  | Not_null_violation string string

definition update_table :: "string \<Rightarrow> (table_def \<Rightarrow> table_def) \<Rightarrow> catalog \<Rightarrow> catalog" where
  "update_table t f c = c\<lparr>ct_tables := map (\<lambda>u. if td_name u = t then f u else u) (ct_tables c)\<rparr>"

definition has_column :: "string \<Rightarrow> string \<Rightarrow> catalog \<Rightarrow> bool" where
  "has_column t n c \<longleftrightarrow> list_ex (\<lambda>u. td_name u = t \<and> n \<in> set (column_names u)) (ct_tables c)"

definition create_table_op :: "string \<Rightarrow> column list \<Rightarrow> table_constraint list \<Rightarrow>
    (string \<times> string list) list \<Rightarrow> catalog \<Rightarrow> ddl_error + catalog" where
  "create_table_op t cols cons labels c =
     (if t \<in> set (table_names c) then Inl (Duplicate_object t)
      else if list_ex (\<lambda>(n, _). n \<in> set (map fst (ct_enums c))) labels then Inl (Duplicate_object t)
      else if \<not> list_all (\<lambda>n. n \<in> set (map fst labels)) (enums_used cols) then Inl (Undefined_object t)
      else if \<not> list_all (constraint_ok c (map co_name cols)) cons then Inl (Undefined_object t)
      else Inr (c\<lparr>ct_tables := ct_tables c @ [\<lparr>td_name = t, td_columns = cols, td_constraints = cons\<rparr>],
                  ct_enums := ct_enums c @ labels\<rparr>))"

definition drop_table_op :: "string \<Rightarrow> catalog \<Rightarrow> ddl_error + catalog" where
  "drop_table_op t c =
     (if t \<notin> set (table_names c) then Inl (Undefined_object t)
      else if list_ex (\<lambda>u. td_name u \<noteq> t \<and> list_ex (refers_to t) (td_constraints u)) (ct_tables c)
      then Inl (Dependent_objects t)
      else Inr (c\<lparr>ct_tables := filter (\<lambda>u. td_name u \<noteq> t) (ct_tables c),
                  ct_indexes := filter (\<lambda>i. ix_table i \<noteq> t) (ct_indexes c),
                  ct_nulls := filter (\<lambda>(u, _). u \<noteq> t) (ct_nulls c)\<rparr>))"

definition create_index_op :: "string \<Rightarrow> string \<Rightarrow> string list \<Rightarrow> catalog \<Rightarrow> ddl_error + catalog" where
  "create_index_op i t cs c =
     (if i \<in> set (map ix_name (ct_indexes c)) then Inl (Duplicate_object i)
      else if \<not> list_all (\<lambda>n. has_column t n c) cs then Inl (Undefined_object i)
      else Inr (c\<lparr>ct_indexes := ct_indexes c @ [\<lparr>ix_name = i, ix_table = t, ix_columns = cs\<rparr>]\<rparr>))"

text \<open>PostgreSQL finds an index by its name; the table given to \<open>op.drop_index\<close> is not used.\<close>

definition drop_index_op :: "string \<Rightarrow> string \<Rightarrow> catalog \<Rightarrow> ddl_error + catalog" where
  "drop_index_op i t c =
     (if i \<notin> set (map ix_name (ct_indexes c)) then Inl (Undefined_object i)
      else Inr (c\<lparr>ct_indexes := filter (\<lambda>x. ix_name x \<noteq> i) (ct_indexes c)\<rparr>))"

text \<open>
  A new nullable column without a default is NULL in the rows there are; a NOT NULL one needs a default.
\<close>

definition add_column_op :: "string \<Rightarrow> column \<Rightarrow> catalog \<Rightarrow> ddl_error + catalog" where
  "add_column_op t co c =
     (if t \<notin> set (table_names c) then Inl (Undefined_object t)
      else if has_column t (co_name co) c then Inl (Duplicate_object (co_name co))
      else if \<not> co_nullable co \<and> co_default co = None then Inl (Not_null_violation t (co_name co))
      else Inr (update_table t (\<lambda>u. u\<lparr>td_columns := td_columns u @ [co]\<rparr>) c
             \<lparr>ct_nulls := (if co_default co = None then (t, co_name co) # ct_nulls c else ct_nulls c)\<rparr>))"

text \<open>Dropping a column drops the indexes and constraints of its table that use it.\<close>

fun mentions :: "string \<Rightarrow> table_constraint \<Rightarrow> bool" where
  "mentions n (Primary_key m cs) \<longleftrightarrow> n \<in> set cs"
| "mentions n (Unique m cs) \<longleftrightarrow> n \<in> set cs"
| "mentions n (Foreign_key m cs t rs del) \<longleftrightarrow> n \<in> set cs"

fun refers_to_column :: "string \<Rightarrow> string \<Rightarrow> table_constraint \<Rightarrow> bool" where
  "refers_to_column t n (Foreign_key m cs t' rs del) \<longleftrightarrow> t' = t \<and> n \<in> set rs"
| "refers_to_column t n _ \<longleftrightarrow> False"

definition drop_column_op :: "string \<Rightarrow> string \<Rightarrow> catalog \<Rightarrow> ddl_error + catalog" where
  "drop_column_op t n c =
     (if \<not> has_column t n c then Inl (Undefined_object n)
      else if list_ex (\<lambda>u. list_ex (refers_to_column t n) (td_constraints u)) (ct_tables c)
      then Inl (Dependent_objects n)
      else Inr (update_table t
             (\<lambda>u. u\<lparr>td_columns := filter (\<lambda>co. co_name co \<noteq> n) (td_columns u),
                    td_constraints := filter (\<lambda>k. \<not> mentions n k) (td_constraints u)\<rparr>) c
             \<lparr>ct_indexes := filter (\<lambda>i. \<not> (ix_table i = t \<and> n \<in> set (ix_columns i))) (ct_indexes c),
              ct_nulls := filter (\<lambda>x. x \<noteq> (t, n)) (ct_nulls c)\<rparr>))"

definition alter_nullable_op :: "string \<Rightarrow> string \<Rightarrow> bool \<Rightarrow> catalog \<Rightarrow> ddl_error + catalog" where
  "alter_nullable_op t n b c =
     (if \<not> has_column t n c then Inl (Undefined_object n)
      else if \<not> b \<and> (t, n) \<in> set (ct_nulls c) then Inl (Not_null_violation t n)
      else Inr (update_table t (\<lambda>u. u\<lparr>td_columns :=
             map (\<lambda>co. if co_name co = n then co\<lparr>co_nullable := b\<rparr> else co) (td_columns u)\<rparr>) c))"

text \<open>\<open>enum.drop(bind, checkfirst=True)\<close>: nothing when the type is missing, refused while in use.\<close>

definition drop_enum_op :: "string \<Rightarrow> catalog \<Rightarrow> ddl_error + catalog" where
  "drop_enum_op n c =
     (if list_ex (\<lambda>u. n \<in> set (enums_used (td_columns u))) (ct_tables c) then Inl (Dependent_objects n)
      else Inr (c\<lparr>ct_enums := filter (\<lambda>(m, _). m \<noteq> n) (ct_enums c)\<rparr>))"

fun apply_op :: "ddl_op \<Rightarrow> catalog \<Rightarrow> ddl_error + catalog" where
  "apply_op (Create_table t cols cons labels) c = create_table_op t cols cons labels c"
| "apply_op (Drop_table t) c = drop_table_op t c"
| "apply_op (Create_index i t cs) c = create_index_op i t cs c"
| "apply_op (Drop_index i t) c = drop_index_op i t c"
| "apply_op (Add_column t co) c = add_column_op t co c"
| "apply_op (Drop_column t n) c = drop_column_op t n c"
| "apply_op (Alter_nullable t n b) c = alter_nullable_op t n b c"
| "apply_op (Drop_enum n) c = drop_enum_op n c"
| "apply_op (Fill t n) c = Inr (c\<lparr>ct_nulls := filter (\<lambda>x. x \<noteq> (t, n)) (ct_nulls c)\<rparr>)"

fun run_ops :: "ddl_op list \<Rightarrow> catalog \<Rightarrow> ddl_error + catalog" where
  "run_ops [] c = Inr c"
| "run_ops (op # ops) c = (case apply_op op c of Inl e \<Rightarrow> Inl e | Inr c' \<Rightarrow> run_ops ops c')"

end
