(* ===== verification/Versions.thy ===== *)
theory Versions
  imports Ddl
begin

text \<open>
  The five migrations of \<open>alembic/versions\<close>, operation by operation, and the chain their revision
  numbers form.
\<close>

definition col :: "string \<Rightarrow> column_type \<Rightarrow> bool \<Rightarrow> column" where
  "col n ty nullable = \<lparr>co_name = n, co_type = ty, co_nullable = nullable, co_default = None\<rparr>"

definition col_default :: "string \<Rightarrow> column_type \<Rightarrow> bool \<Rightarrow> server_default \<Rightarrow> column" where
  "col_default n ty nullable d = \<lparr>co_name = n, co_type = ty, co_nullable = nullable, co_default = Some d\<rparr>"

subsection \<open>0001: the initial schema\<close>

definition grader_type_enum :: "string \<times> string list" where
  "grader_type_enum = (''grader_type'', [''exact_match'', ''regex'', ''llm_judge''])"

definition provider_enum :: "string \<times> string list" where
  "provider_enum = (''provider'', [''openai'', ''anthropic'', ''local''])"

definition eval_run_status_enum :: "string \<times> string list" where
  "eval_run_status_enum =
     (''eval_run_status'', [''pending'', ''running'', ''completed'', ''failed'', ''cancelled''])"

definition run_item_status_enum :: "string \<times> string list" where
  "run_item_status_enum =
     (''run_item_status'', [''queued'', ''running'', ''succeeded'', ''failed'', ''dead_lettered''])"

definition grader_kind_enum :: "string \<times> string list" where
  "grader_kind_enum = (''grader_kind'', [''deterministic'', ''llm_judge''])"

definition review_reason_enum :: "string \<times> string list" where
  "review_reason_enum = (''review_reason'', [''judge_disagreement'', ''low_confidence''])"

definition review_status_enum :: "string \<times> string list" where
  "review_status_enum = (''review_status'', [''open'', ''claimed'', ''resolved''])"

definition create_task_set_table :: ddl_op where
  "create_task_set_table = Create_table ''task_set''
     [col ''id'' T_uuid False,
      col ''name'' T_text False,
      col ''description'' T_text True,
      col_default ''created_at'' T_timestamptz False SD_now]
     [Primary_key ''pk_task_set'' [''id'']] []"

definition create_task_table :: ddl_op where
  "create_task_table = Create_table ''task''
     [col ''id'' T_uuid False,
      col ''task_set_id'' T_uuid False,
      col ''prompt'' T_text False,
      col ''capability'' T_text False,
      col ''expected_output'' T_text True,
      col ''grader_type'' (T_enum ''grader_type'') False,
      col ''grader_config'' T_jsonb True,
      col_default ''created_at'' T_timestamptz False SD_now]
     [Primary_key ''pk_task'' [''id''],
      Foreign_key ''fk_task_task_set_id_task_set'' [''task_set_id''] ''task_set'' [''id''] Cascade]
     [grader_type_enum]"

definition create_model_endpoint_table :: ddl_op where
  "create_model_endpoint_table = Create_table ''model_endpoint''
     [col ''id'' T_uuid False,
      col ''name'' T_text False,
      col ''provider'' (T_enum ''provider'') False,
      col ''model_id'' T_text False,
      col ''model_version'' T_text False,
      col ''base_url'' T_text True,
      col_default ''created_at'' T_timestamptz False SD_now]
     [Primary_key ''pk_model_endpoint'' [''id'']] [provider_enum]"

definition create_eval_run_table :: ddl_op where
  "create_eval_run_table = Create_table ''eval_run''
     [col ''id'' T_uuid False,
      col ''task_set_id'' T_uuid False,
      col_default ''status'' (T_enum ''eval_run_status'') False (SD_text (quoted ''pending'')),
      col_default ''created_at'' T_timestamptz False SD_now,
      col ''started_at'' T_timestamptz True,
      col ''completed_at'' T_timestamptz True,
      col_default ''total_cost_usd'' (T_numeric 12 6) False (SD_text ''0''),
      col_default ''total_tokens'' T_integer False (SD_text ''0'')]
     [Primary_key ''pk_eval_run'' [''id''],
      Foreign_key ''fk_eval_run_task_set_id_task_set'' [''task_set_id''] ''task_set'' [''id''] Cascade]
     [eval_run_status_enum]"

definition create_run_item_table :: ddl_op where
  "create_run_item_table = Create_table ''run_item''
     [col ''id'' T_uuid False,
      col ''eval_run_id'' T_uuid False,
      col ''task_id'' T_uuid False,
      col ''model_endpoint_id'' T_uuid False,
      col_default ''status'' (T_enum ''run_item_status'') False (SD_text (quoted ''queued'')),
      col_default ''attempt_count'' T_integer False (SD_text ''0''),
      col ''latency_ms'' T_integer True,
      col ''prompt_tokens'' T_integer True,
      col ''completion_tokens'' T_integer True,
      col ''cost_usd'' (T_numeric 12 6) True,
      col ''error'' T_text True,
      col ''artifact_key'' T_text True,
      col_default ''created_at'' T_timestamptz False SD_now,
      col_default ''updated_at'' T_timestamptz False SD_now]
     [Primary_key ''pk_run_item'' [''id''],
      Foreign_key ''fk_run_item_eval_run_id_eval_run'' [''eval_run_id''] ''eval_run'' [''id''] Cascade,
      Foreign_key ''fk_run_item_task_id_task'' [''task_id''] ''task'' [''id''] Restrict,
      Foreign_key ''fk_run_item_model_endpoint_id_model_endpoint''
        [''model_endpoint_id''] ''model_endpoint'' [''id''] Restrict]
     [run_item_status_enum]"

definition create_grade_table :: ddl_op where
  "create_grade_table = Create_table ''grade''
     [col ''id'' T_uuid False,
      col ''run_item_id'' T_uuid False,
      col ''grader'' (T_enum ''grader_kind'') False,
      col ''score'' (T_numeric 4 3) False,
      col ''passed'' T_boolean False,
      col ''rubric_scores'' T_jsonb True,
      col ''rationale'' T_text True,
      col_default ''created_at'' T_timestamptz False SD_now]
     [Primary_key ''pk_grade'' [''id''],
      Foreign_key ''fk_grade_run_item_id_run_item'' [''run_item_id''] ''run_item'' [''id''] Cascade]
     [grader_kind_enum]"

definition create_review_item_table :: ddl_op where
  "create_review_item_table = Create_table ''review_item''
     [col ''id'' T_uuid False,
      col ''run_item_id'' T_uuid False,
      col ''reason'' (T_enum ''review_reason'') False,
      col_default ''status'' (T_enum ''review_status'') False (SD_text (quoted ''open'')),
      col ''reviewer_label'' (T_numeric 4 3) True,
      col ''reviewer_notes'' T_text True,
      col ''claimed_at'' T_timestamptz True,
      col ''resolved_at'' T_timestamptz True,
      col_default ''created_at'' T_timestamptz False SD_now]
     [Primary_key ''pk_review_item'' [''id''],
      Foreign_key ''fk_review_item_run_item_id_run_item'' [''run_item_id''] ''run_item'' [''id''] Cascade]
     [review_reason_enum, review_status_enum]"

definition upgrade_0001 :: "ddl_op list" where
  "upgrade_0001 =
     [create_task_set_table, create_task_table, create_model_endpoint_table, create_eval_run_table,
      create_run_item_table,
      Create_index ''ix_run_item_eval_run_id_status'' ''run_item'' [''eval_run_id'', ''status''],
      create_grade_table,
      Create_index ''ix_grade_run_item_id'' ''grade'' [''run_item_id''],
      create_review_item_table,
      Create_index ''ix_review_item_status_created_at'' ''review_item'' [''status'', ''created_at'']]"

definition downgrade_0001 :: "ddl_op list" where
  "downgrade_0001 =
     [Drop_index ''ix_review_item_status_created_at'' ''review_item'', Drop_table ''review_item'',
      Drop_index ''ix_grade_run_item_id'' ''grade'', Drop_table ''grade'',
      Drop_index ''ix_run_item_eval_run_id_status'' ''run_item'', Drop_table ''run_item'',
      Drop_table ''eval_run'', Drop_table ''model_endpoint'', Drop_table ''task'', Drop_table ''task_set''] @
     map (\<lambda>e. Drop_enum (fst e))
       (rev [grader_type_enum, provider_enum, eval_run_status_enum, run_item_status_enum, grader_kind_enum,
             review_reason_enum, review_status_enum])"

subsection \<open>0002 to 0005\<close>

definition upgrade_0002 :: "ddl_op list" where
  "upgrade_0002 = [Alter_nullable ''grade'' ''score'' True, Alter_nullable ''grade'' ''passed'' True]"

definition downgrade_0002 :: "ddl_op list" where
  "downgrade_0002 =
     [Fill ''grade'' ''score'', Fill ''grade'' ''passed'',
      Alter_nullable ''grade'' ''score'' False, Alter_nullable ''grade'' ''passed'' False]"

definition upgrade_0003 :: "ddl_op list" where
  "upgrade_0003 = [Create_index ''ix_run_item_task_id_status'' ''run_item'' [''task_id'', ''status'']]"

definition downgrade_0003 :: "ddl_op list" where
  "downgrade_0003 = [Drop_index ''ix_run_item_task_id_status'' ''run_item'']"

definition api_key_role_enum :: "string \<times> string list" where
  "api_key_role_enum = (''api_key_role'', [''admin'', ''reviewer''])"

definition upgrade_0004 :: "ddl_op list" where
  "upgrade_0004 =
     [Create_table ''api_key''
        [col ''id'' T_uuid False,
         col ''name'' T_text False,
         col ''role'' (T_enum ''api_key_role'') False,
         col ''key_prefix'' T_text False,
         col ''key_hash'' T_text False,
         col_default ''created_at'' T_timestamptz False SD_now]
        [Primary_key ''pk_api_key'' [''id''], Unique ''uq_api_key_key_hash'' [''key_hash'']]
        [api_key_role_enum],
      Create_index ''ix_api_key_key_prefix'' ''api_key'' [''key_prefix'']]"

definition downgrade_0004 :: "ddl_op list" where
  "downgrade_0004 =
     [Drop_index ''ix_api_key_key_prefix'' ''api_key'', Drop_table ''api_key'', Drop_enum (fst api_key_role_enum)]"

definition upgrade_0005 :: "ddl_op list" where
  "upgrade_0005 = [Add_column ''eval_run'' (col ''error'' T_text True)]"

definition downgrade_0005 :: "ddl_op list" where
  "downgrade_0005 = [Drop_column ''eval_run'' ''error'']"

end
