(* ===== verification/Orm_Tables.thy ===== *)
theory Orm_Tables
  imports Ddl Schema
begin

text \<open>
  The tables the classes of \<open>app/models\<close> declare: columns, keys, indexes and enum types of
  \<open>Base.metadata\<close>, with the names that the naming convention of \<open>app/models/base.py\<close> gives to
  constraints without one. Python-side defaults are not part of the table. \<open>Mapped[uuid.UUID]\<close> is the
  type \<open>Uuid\<close>, and a primary key is NOT NULL.
\<close>

subsection \<open>Declarations\<close>

datatype key_role = Plain | Primary | References string string on_delete

record orm_class =
  oc_tablename :: string
  oc_timestamps :: bool
  oc_columns :: "(column \<times> key_role) list"
  oc_uniques :: "(string \<times> string list) list"
  oc_indexes :: "(string \<times> string list) list"

definition mapped :: "string \<Rightarrow> column_type \<Rightarrow> bool \<Rightarrow> column \<times> key_role" where
  "mapped n ty nullable = (\<lparr>co_name = n, co_type = ty, co_nullable = nullable, co_default = None\<rparr>, Plain)"

definition mapped_default :: "string \<Rightarrow> column_type \<Rightarrow> server_default \<Rightarrow> column \<times> key_role" where
  "mapped_default n ty d = (\<lparr>co_name = n, co_type = ty, co_nullable = False, co_default = Some d\<rparr>, Plain)"

definition mapped_id :: "column \<times> key_role" where
  "mapped_id = (\<lparr>co_name = ''id'', co_type = T_uuid, co_nullable = False, co_default = None\<rparr>, Primary)"

definition mapped_fk :: "string \<Rightarrow> string \<Rightarrow> on_delete \<Rightarrow> column \<times> key_role" where
  "mapped_fk n t del =
     (\<lparr>co_name = n, co_type = T_uuid, co_nullable = False, co_default = None\<rparr>, References t ''id'' del)"

text \<open>\<open>NAMING_CONVENTION\<close> for primary and foreign keys, and \<open>TimestampMixin\<close>.\<close>

definition pk_name :: "string \<Rightarrow> string" where
  "pk_name tbl = ''pk_'' @ tbl"

definition fk_name :: "string \<Rightarrow> string \<Rightarrow> string \<Rightarrow> string" where
  "fk_name tbl column referred_table = ''fk_'' @ tbl @ ''_'' @ column @ ''_'' @ referred_table"

definition timestamp_mixin :: "(column \<times> key_role) list" where
  "timestamp_mixin = [mapped_default ''created_at'' T_timestamptz SD_now]"

definition primary_columns :: "(column \<times> key_role) list \<Rightarrow> string list" where
  "primary_columns cols = map (\<lambda>(co, _). co_name co) (filter (\<lambda>(_, r). r = Primary) cols)"

fun foreign_key_of :: "string \<Rightarrow> column \<times> key_role \<Rightarrow> table_constraint option" where
  "foreign_key_of tbl (co, References t n del) =
     Some (Foreign_key (fk_name tbl (co_name co) t) [co_name co] t [n] del)"
| "foreign_key_of tbl _ = None"

definition orm_table :: "orm_class \<Rightarrow> table_def" where
  "orm_table c =
     (let cols = oc_columns c @ (if oc_timestamps c then timestamp_mixin else [])
      in \<lparr>td_name = oc_tablename c, td_columns = map fst cols,
          td_constraints = Primary_key (pk_name (oc_tablename c)) (primary_columns cols) #
            List.map_filter (foreign_key_of (oc_tablename c)) cols @
            map (\<lambda>(n, cs). Unique n cs) (oc_uniques c)\<rparr>)"

definition orm_indexes :: "orm_class \<Rightarrow> index_def list" where
  "orm_indexes c = map (\<lambda>(n, cs). \<lparr>ix_name = n, ix_table = oc_tablename c, ix_columns = cs\<rparr>) (oc_indexes c)"

subsection \<open>The classes\<close>

definition orm_TaskSet :: orm_class where
  "orm_TaskSet = \<lparr>oc_tablename = ''task_set'', oc_timestamps = True,
     oc_columns = [mapped_id, mapped ''name'' T_text False, mapped ''description'' T_text True],
     oc_uniques = [], oc_indexes = []\<rparr>"

definition orm_Task :: orm_class where
  "orm_Task = \<lparr>oc_tablename = ''task'', oc_timestamps = True,
     oc_columns = [mapped_id, mapped_fk ''task_set_id'' ''task_set'' Cascade,
       mapped ''prompt'' T_text False, mapped ''capability'' T_text False,
       mapped ''expected_output'' T_text True, mapped ''grader_type'' (T_enum ''grader_type'') False,
       mapped ''grader_config'' T_jsonb True],
     oc_uniques = [], oc_indexes = []\<rparr>"

definition orm_ModelEndpoint :: orm_class where
  "orm_ModelEndpoint = \<lparr>oc_tablename = ''model_endpoint'', oc_timestamps = True,
     oc_columns = [mapped_id, mapped ''name'' T_text False, mapped ''provider'' (T_enum ''provider'') False,
       mapped ''model_id'' T_text False, mapped ''model_version'' T_text False, mapped ''base_url'' T_text True],
     oc_uniques = [], oc_indexes = []\<rparr>"

definition orm_EvalRun :: orm_class where
  "orm_EvalRun = \<lparr>oc_tablename = ''eval_run'', oc_timestamps = True,
     oc_columns = [mapped_id, mapped_fk ''task_set_id'' ''task_set'' Cascade,
       mapped_default ''status'' (T_enum ''eval_run_status'') (SD_text (quoted ''pending'')),
       mapped ''started_at'' T_timestamptz True, mapped ''completed_at'' T_timestamptz True,
       mapped_default ''total_cost_usd'' (T_numeric 12 6) (SD_text ''0''),
       mapped_default ''total_tokens'' T_integer (SD_text ''0''), mapped ''error'' T_text True],
     oc_uniques = [], oc_indexes = []\<rparr>"

definition orm_RunItem :: orm_class where
  "orm_RunItem = \<lparr>oc_tablename = ''run_item'', oc_timestamps = False,
     oc_columns = [mapped_id, mapped_fk ''eval_run_id'' ''eval_run'' Cascade,
       mapped_fk ''task_id'' ''task'' Restrict, mapped_fk ''model_endpoint_id'' ''model_endpoint'' Restrict,
       mapped_default ''status'' (T_enum ''run_item_status'') (SD_text (quoted ''queued'')),
       mapped_default ''attempt_count'' T_integer (SD_text ''0''),
       mapped ''latency_ms'' T_integer True, mapped ''prompt_tokens'' T_integer True,
       mapped ''completion_tokens'' T_integer True, mapped ''cost_usd'' (T_numeric 12 6) True,
       mapped ''error'' T_text True, mapped ''artifact_key'' T_text True,
       mapped_default ''created_at'' T_timestamptz SD_now, mapped_default ''updated_at'' T_timestamptz SD_now],
     oc_uniques = [],
     oc_indexes = [(''ix_run_item_eval_run_id_status'', [''eval_run_id'', ''status'']),
       (''ix_run_item_task_id_status'', [''task_id'', ''status''])]\<rparr>"

definition orm_Grade :: orm_class where
  "orm_Grade = \<lparr>oc_tablename = ''grade'', oc_timestamps = True,
     oc_columns = [mapped_id, mapped_fk ''run_item_id'' ''run_item'' Cascade,
       mapped ''grader'' (T_enum ''grader_kind'') False, mapped ''score'' (T_numeric 4 3) True,
       mapped ''passed'' T_boolean True, mapped ''rubric_scores'' T_jsonb True, mapped ''rationale'' T_text True],
     oc_uniques = [], oc_indexes = [(''ix_grade_run_item_id'', [''run_item_id''])]\<rparr>"

definition orm_ReviewItem :: orm_class where
  "orm_ReviewItem = \<lparr>oc_tablename = ''review_item'', oc_timestamps = True,
     oc_columns = [mapped_id, mapped_fk ''run_item_id'' ''run_item'' Cascade,
       mapped ''reason'' (T_enum ''review_reason'') False,
       mapped_default ''status'' (T_enum ''review_status'') (SD_text (quoted ''open'')),
       mapped ''reviewer_label'' (T_numeric 4 3) True, mapped ''reviewer_notes'' T_text True,
       mapped ''claimed_at'' T_timestamptz True, mapped ''resolved_at'' T_timestamptz True],
     oc_uniques = [], oc_indexes = [(''ix_review_item_status_created_at'', [''status'', ''created_at''])]\<rparr>"

definition orm_ApiKey :: orm_class where
  "orm_ApiKey = \<lparr>oc_tablename = ''api_key'', oc_timestamps = True,
     oc_columns = [mapped_id, mapped ''name'' T_text False, mapped ''role'' (T_enum ''api_key_role'') False,
       mapped ''key_prefix'' T_text False, mapped ''key_hash'' T_text False],
     oc_uniques = [(''uq_api_key_key_hash'', [''key_hash''])],
     oc_indexes = [(''ix_api_key_key_prefix'', [''key_prefix''])]\<rparr>"

definition orm_classes :: "orm_class list" where
  "orm_classes = [orm_ApiKey, orm_EvalRun, orm_RunItem, orm_Grade, orm_ModelEndpoint, orm_ReviewItem,
     orm_TaskSet, orm_Task]"

text \<open>\<open>SAEnum(X, name=..., values_callable=enum_values)\<close>: the values of the members, in order.\<close>

definition enum_values :: "('a \<Rightarrow> string) \<Rightarrow> 'a list \<Rightarrow> string list" where
  "enum_values value members = map value members"

definition orm_enums :: "(string \<times> string list) list" where
  "orm_enums =
     [(''api_key_role'', enum_values api_key_role_value [Role_admin, Role_reviewer]),
      (''eval_run_status'', enum_values eval_run_status_value
         [Run_pending, Run_running, Run_completed, Run_failed, Run_cancelled]),
      (''run_item_status'', enum_values run_item_status_value
         [Item_queued, Item_running, Item_succeeded, Item_failed, Item_dead_lettered]),
      (''grader_kind'', enum_values grader_kind_value [GK_deterministic, GK_llm_judge]),
      (''provider'', enum_values provider_value [P_openai, P_anthropic, P_local]),
      (''review_reason'', enum_values review_reason_value [RR_judge_disagreement, RR_low_confidence]),
      (''review_status'', enum_values review_status_value [RS_open, RS_claimed, RS_resolved]),
      (''grader_type'', enum_values grader_type_value [GT_exact_match, GT_regex, GT_llm_judge])]"

definition orm_catalog :: catalog where
  "orm_catalog = \<lparr>ct_tables = map orm_table orm_classes, ct_indexes = concat (map orm_indexes orm_classes),
     ct_enums = orm_enums, ct_nulls = []\<rparr>"

subsection \<open>Comparing catalogs\<close>

text \<open>The order of tables, columns, constraints, indexes and types is immaterial, that of labels is not.\<close>

definition same_table :: "table_def \<Rightarrow> table_def \<Rightarrow> bool" where
  "same_table t u \<longleftrightarrow> td_name t = td_name u \<and> set (td_columns t) = set (td_columns u) \<and>
     set (td_constraints t) = set (td_constraints u)"

definition covers :: "('a \<Rightarrow> 'b \<Rightarrow> bool) \<Rightarrow> 'a list \<Rightarrow> 'b list \<Rightarrow> bool" where
  "covers R xs ys \<longleftrightarrow> list_all (\<lambda>x. list_ex (R x) ys) xs"

definition same_catalog :: "catalog \<Rightarrow> catalog \<Rightarrow> bool" where
  "same_catalog c d \<longleftrightarrow> covers same_table (ct_tables c) (ct_tables d) \<and>
     covers same_table (ct_tables d) (ct_tables c) \<and>
     set (ct_indexes c) = set (ct_indexes d) \<and> set (ct_enums c) = set (ct_enums d)"

end
