(* ===== verification/Migration_Facts.thy ===== *)
theory Migration_Facts
  imports Versions Orm_Tables
begin

text \<open>
  The chain of migrations leads from an empty database to exactly the tables that the models declare,
  and every downgrade leads back, whatever NULLs the application has stored in the meantime.
\<close>

subsection \<open>The chain of revisions\<close>

record revision =
  rev_id :: string
  rev_down :: "string option"
  rev_upgrade :: "ddl_op list"
  rev_downgrade :: "ddl_op list"

definition revision_0001 :: revision where
  "revision_0001 = \<lparr>rev_id = ''0001'', rev_down = None,
     rev_upgrade = upgrade_0001, rev_downgrade = downgrade_0001\<rparr>"

definition revision_0002 :: revision where
  "revision_0002 = \<lparr>rev_id = ''0002'', rev_down = Some ''0001'',
     rev_upgrade = upgrade_0002, rev_downgrade = downgrade_0002\<rparr>"

definition revision_0003 :: revision where
  "revision_0003 = \<lparr>rev_id = ''0003'', rev_down = Some ''0002'',
     rev_upgrade = upgrade_0003, rev_downgrade = downgrade_0003\<rparr>"

definition revision_0004 :: revision where
  "revision_0004 = \<lparr>rev_id = ''0004'', rev_down = Some ''0003'',
     rev_upgrade = upgrade_0004, rev_downgrade = downgrade_0004\<rparr>"

definition revision_0005 :: revision where
  "revision_0005 = \<lparr>rev_id = ''0005'', rev_down = Some ''0004'',
     rev_upgrade = upgrade_0005, rev_downgrade = downgrade_0005\<rparr>"

definition versions :: "revision list" where
  "versions = [revision_0001, revision_0002, revision_0003, revision_0004, revision_0005]"

lemmas versions_defs = versions_def revision_0001_def revision_0002_def revision_0003_def revision_0004_def
  revision_0005_def

text \<open>Alembic's head is the revision no other one goes down to; its history follows \<open>down_revision\<close>.\<close>

definition heads :: "revision list \<Rightarrow> revision list" where
  "heads revs = filter (\<lambda>r. Some (rev_id r) \<notin> set (map rev_down revs)) revs"

lemma find_removes: "find P xs = Some x \<Longrightarrow> length (remove1 x xs) < length xs"
  by (induction xs) (auto split: if_splits)

function history :: "revision list \<Rightarrow> string option \<Rightarrow> revision list" where
  "history revs None = []"
| "history revs (Some i) =
     (case find (\<lambda>r. rev_id r = i) revs of
        None \<Rightarrow> []
      | Some r \<Rightarrow> history (remove1 r revs) (rev_down r) @ [r])"
  by pat_completeness auto

termination
  by (relation "measure (\<lambda>(revs, _). length revs)") (auto dest: find_removes)

definition upgrade_head :: "catalog \<Rightarrow> ddl_error + catalog" where
  "upgrade_head c =
     run_ops (concat (map rev_upgrade (concat (map (\<lambda>h. history versions (Some (rev_id h))) (heads versions))))) c"

text \<open>The catalog after the first \<open>n\<close> migrations.\<close>

definition at_revision :: "nat \<Rightarrow> catalog" where
  "at_revision n = (case run_ops (concat (map rev_upgrade (take n versions))) empty_catalog of
     Inl e \<Rightarrow> empty_catalog | Inr c \<Rightarrow> c)"

text \<open>
  C38. There is one head and its history is the five migrations in order; run on an empty database they
  all succeed, and the catalog they leave has exactly the tables, columns, defaults, constraints,
  indexes and enum types that the classes of \<open>app/models\<close> declare.
\<close>

theorem migrations_build_the_models:
  "map rev_id (heads versions) = [''0005''] \<and>
   history versions (Some ''0005'') = versions \<and>
   upgrade_head empty_catalog = Inr (at_revision 5) \<and>
   same_catalog (at_revision 5) orm_catalog"
proof (intro conjI)
  show "map rev_id (heads versions) = [''0005'']" by code_simp
  show "history versions (Some ''0005'') = versions" by code_simp
  show "upgrade_head empty_catalog = Inr (at_revision 5)" by code_simp
  show "same_catalog (at_revision 5) orm_catalog" by code_simp
qed

subsection \<open>NULLs\<close>

text \<open>Every column with a NULL exists and is nullable: what NOT NULL means, kept by every operation.\<close>

definition nulls_ok :: "catalog \<Rightarrow> bool" where
  "nulls_ok c \<longleftrightarrow> list_all (\<lambda>(t, n). has_column t n c \<and> list_all (\<lambda>u. td_name u = t \<longrightarrow>
     list_all (\<lambda>co. co_name co = n \<longrightarrow> co_nullable co) (td_columns u)) (ct_tables c)) (ct_nulls c)"

definition columns_named :: "catalog \<Rightarrow> string \<Rightarrow> string \<Rightarrow> column set" where
  "columns_named c t n =
     {co. \<exists>u \<in> set (ct_tables c). td_name u = t \<and> co \<in> set (td_columns u) \<and> co_name co = n}"

definition null_allowed :: "catalog \<Rightarrow> string \<Rightarrow> string \<Rightarrow> bool" where
  "null_allowed c t n \<longleftrightarrow> columns_named c t n \<noteq> {} \<and> (\<forall>co \<in> columns_named c t n. co_nullable co)"

lemma has_column_named: "has_column t n c \<longleftrightarrow> columns_named c t n \<noteq> {}"
  by (auto simp: columns_named_def has_column_def column_names_def list_ex_iff)

lemma nulls_ok_iff: "nulls_ok c \<longleftrightarrow> (\<forall>(t, n) \<in> set (ct_nulls c). null_allowed c t n)"
proof -
  have "null_allowed c t n \<longleftrightarrow> has_column t n c \<and> list_all (\<lambda>u. td_name u = t \<longrightarrow>
      list_all (\<lambda>co. co_name co = n \<longrightarrow> co_nullable co) (td_columns u)) (ct_tables c)" for t n
    unfolding null_allowed_def has_column_named by (auto simp: columns_named_def list_all_iff)
  then show ?thesis by (simp add: nulls_ok_def list_all_iff)
qed

text \<open>The columns after an operation on one table.\<close>

lemma columns_named_update:
  assumes "\<And>u. td_name (f u) = td_name u"
  shows "columns_named (update_table t f c) t' n =
    {co. \<exists>u \<in> set (ct_tables c). td_name u = t' \<and> co \<in> set (td_columns (if t' = t then f u else u)) \<and> co_name co = n}"
proof -
  have bex: "(\<exists>u \<in> set (map g us). P u) \<longleftrightarrow> (\<exists>u \<in> set us. P (g u))"
    for g :: "table_def \<Rightarrow> table_def" and us P by auto
  have "ct_tables (update_table t f c) = map (\<lambda>u. if td_name u = t then f u else u) (ct_tables c)"
    by (simp add: update_table_def)
  then have "columns_named (update_table t f c) t' n =
      {co. \<exists>u \<in> set (ct_tables c). td_name (if td_name u = t then f u else u) = t' \<and>
         co \<in> set (td_columns (if td_name u = t then f u else u)) \<and> co_name co = n}"
    by (simp only: columns_named_def bex)
  moreover have "td_name (if td_name u = t then f u else u) = td_name u" for u by (simp add: assms)
  ultimately show ?thesis by (auto split: if_splits)
qed

lemma columns_named_nulls [simp]:
  "columns_named (c\<lparr>ct_nulls := ns\<rparr>) t n = columns_named c t n"
  "columns_named (c\<lparr>ct_indexes := ixs\<rparr>) t n = columns_named c t n"
  by (simp_all add: columns_named_def)

lemma nulls_ok_grow:
  assumes "nulls_ok c" and "\<And>t n. (t, n) \<in> set (ct_nulls c') \<Longrightarrow> (t, n) \<in> set (ct_nulls c) \<or> null_allowed c' t n"
    and "\<And>t n. (t, n) \<in> set (ct_nulls c') \<Longrightarrow> null_allowed c t n \<Longrightarrow> null_allowed c' t n"
  shows "nulls_ok c'"
  using assms by (fastforce simp: nulls_ok_iff)

lemmas op_defs = create_table_op_def drop_table_op_def create_index_op_def drop_index_op_def
  add_column_op_def drop_column_op_def alter_nullable_op_def drop_enum_op_def

lemma apply_op_nulls_ok:
  assumes "apply_op op c = Inr c'" and "nulls_ok c"
  shows "nulls_ok c'"
proof (cases op)
  case (Create_table t cols cons labels)
  then have new: "t \<notin> td_name ` set (ct_tables c)" and nulls: "ct_nulls c' = ct_nulls c"
    and tabs: "ct_tables c' = ct_tables c @ [\<lparr>td_name = t, td_columns = cols, td_constraints = cons\<rparr>]"
    using assms(1) by (auto simp: create_table_op_def table_names_def split: if_splits)
  have "columns_named c' t' n = columns_named c t' n" if "columns_named c t' n \<noteq> {}" for t' n
  proof -
    have "t' \<noteq> t" using that new by (auto simp: columns_named_def)
    then show ?thesis by (auto simp: columns_named_def tabs)
  qed
  then show ?thesis using assms(2) by (intro nulls_ok_grow [OF assms(2)]) (auto simp: null_allowed_def nulls)
next
  case (Drop_table t)
  then have nulls: "ct_nulls c' = filter (\<lambda>(u, _). u \<noteq> t) (ct_nulls c)"
    and same: "t' \<noteq> t \<Longrightarrow> columns_named c' t' n = columns_named c t' n" for t' n
    using assms(1) by (auto simp: drop_table_op_def columns_named_def split: if_splits)
  show ?thesis by (rule nulls_ok_grow [OF assms(2)]) (auto simp: nulls null_allowed_def same)
next
  case (Add_column t co)
  then have new: "columns_named c t (co_name co) = {}" "co_default co = None \<Longrightarrow> co_nullable co"
      "t \<in> td_name ` set (ct_tables c)"
    and nulls: "ct_nulls c' = (if co_default co = None then (t, co_name co) # ct_nulls c else ct_nulls c)"
    and cols: "columns_named c' t' n = columns_named (update_table t (\<lambda>u. u\<lparr>td_columns := td_columns u @ [co]\<rparr>) c) t' n"
    for t' n
    using assms(1) by (auto simp: add_column_op_def has_column_named table_names_def update_table_def split: if_splits)
  have old: "columns_named c' t' n = columns_named c t' n" if "\<not> (t' = t \<and> n = co_name co)" for t' n
    unfolding cols by (subst columns_named_update) (use that in \<open>auto simp: columns_named_def\<close>)
  have added: "columns_named c' t (co_name co) = {co}"
    unfolding cols by (subst columns_named_update) (use new(1,3) in \<open>auto simp: columns_named_def\<close>)
  show ?thesis
  proof (rule nulls_ok_grow [OF assms(2)])
    fix t' n
    show "(t', n) \<in> set (ct_nulls c) \<or> null_allowed c' t' n" if "(t', n) \<in> set (ct_nulls c')"
      using that new(2) by (auto simp: nulls null_allowed_def added split: if_splits)
    assume ok: "null_allowed c t' n"
    then have "\<not> (t' = t \<and> n = co_name co)" using new(1) by (auto simp: null_allowed_def)
    with ok show "null_allowed c' t' n" by (simp add: null_allowed_def old)
  qed
next
  case (Drop_column t n)
  then have nulls: "ct_nulls c' = filter (\<lambda>x. x \<noteq> (t, n)) (ct_nulls c)"
    and cols: "columns_named c' t' m = columns_named (update_table t
      (\<lambda>u. u\<lparr>td_columns := filter (\<lambda>co. co_name co \<noteq> n) (td_columns u),
             td_constraints := filter (\<lambda>k. \<not> mentions n k) (td_constraints u)\<rparr>) c) t' m" for t' m
    using assms(1) by (auto simp: drop_column_op_def split: if_splits)
  have "columns_named c' t' m = columns_named c t' m" if "(t', m) \<noteq> (t, n)" for t' m
    unfolding cols by (subst columns_named_update) (use that in \<open>auto simp: columns_named_def\<close>)
  then show ?thesis by (intro nulls_ok_grow [OF assms(2)]) (auto simp: nulls null_allowed_def)
next
  case (Alter_nullable t n b)
  then have nulls: "ct_nulls c' = ct_nulls c" and free: "\<not> b \<Longrightarrow> (t, n) \<notin> set (ct_nulls c)"
    and cols: "columns_named c' t' m = columns_named (update_table t (\<lambda>u. u\<lparr>td_columns :=
      map (\<lambda>co. if co_name co = n then co\<lparr>co_nullable := b\<rparr> else co) (td_columns u)\<rparr>) c) t' m" for t' m
    using assms(1) by (auto simp: alter_nullable_op_def update_table_def split: if_splits)
  have old: "columns_named c' t' m = columns_named c t' m" if "(t', m) \<noteq> (t, n)" for t' m
    unfolding cols by (subst columns_named_update) (use that in \<open>auto simp: columns_named_def image_iff\<close>)
  have altered: "columns_named c' t n = (\<lambda>co. co\<lparr>co_nullable := b\<rparr>) ` columns_named c t n"
    unfolding cols by (subst columns_named_update) (auto simp: columns_named_def image_iff)
  show ?thesis
  proof (rule nulls_ok_grow [OF assms(2)])
    fix t' m assume "(t', m) \<in> set (ct_nulls c')" and "null_allowed c t' m"
    then show "null_allowed c' t' m"
      using free by (cases "(t', m) = (t, n)"; cases b) (auto simp: nulls null_allowed_def old altered)
  qed (simp add: nulls)
next
  case (Create_index i t cs)
  then have "ct_tables c' = ct_tables c" "ct_nulls c' = ct_nulls c"
    using assms(1) by (auto simp: create_index_op_def split: if_splits)
  then show ?thesis by (intro nulls_ok_grow [OF assms(2)]) (simp_all add: null_allowed_def columns_named_def)
next
  case (Drop_index i t)
  then have "ct_tables c' = ct_tables c" "ct_nulls c' = ct_nulls c"
    using assms(1) by (auto simp: drop_index_op_def split: if_splits)
  then show ?thesis by (intro nulls_ok_grow [OF assms(2)]) (simp_all add: null_allowed_def columns_named_def)
next
  case (Drop_enum n)
  then have "ct_tables c' = ct_tables c" "ct_nulls c' = ct_nulls c"
    using assms(1) by (auto simp: drop_enum_op_def split: if_splits)
  then show ?thesis by (intro nulls_ok_grow [OF assms(2)]) (simp_all add: null_allowed_def columns_named_def)
next
  case (Fill t n)
  then show ?thesis
    using assms(1) by (intro nulls_ok_grow [OF assms(2)]) (auto simp: null_allowed_def)
qed

lemma run_ops_nulls_ok: "run_ops ops c = Inr c' \<Longrightarrow> nulls_ok c \<Longrightarrow> nulls_ok c'"
  by (induction ops arbitrary: c) (auto split: sum.splits dest: apply_op_nulls_ok)

subsection \<open>What the stored NULLs change\<close>

text \<open>Only making a column NOT NULL looks at the rows; everything else depends on the shape alone.\<close>

definition shape :: "catalog \<Rightarrow> catalog" where
  "shape c = c\<lparr>ct_nulls := []\<rparr>"

fun tightens :: "ddl_op \<Rightarrow> bool" where
  "tightens (Alter_nullable t n b) \<longleftrightarrow> \<not> b"
| "tightens _ \<longleftrightarrow> False"

lemma shape_simps [simp]:
  "ct_tables (shape c) = ct_tables c" "ct_indexes (shape c) = ct_indexes c" "ct_enums (shape c) = ct_enums c"
  "ct_nulls (shape c) = []" "shape (shape c) = shape c" "has_column t n (shape c) = has_column t n c"
  "table_names (shape c) = table_names c" "shape (c\<lparr>ct_nulls := ns\<rparr>) = shape c"
  by (simp_all add: shape_def has_column_def table_names_def)

lemma constraint_ok_nulls [simp]: "constraint_ok (c\<lparr>ct_nulls := ns\<rparr>) cols = constraint_ok c cols"
proof
  show "constraint_ok (c\<lparr>ct_nulls := ns\<rparr>) cols k = constraint_ok c cols k" for k by (cases k) simp_all
qed

definition result_shape :: "ddl_error + catalog \<Rightarrow> ddl_error + catalog" where
  "result_shape r = (case r of Inl e \<Rightarrow> Inl e | Inr c \<Rightarrow> Inr (shape c))"

lemma result_shape_simps [simp]: "result_shape (Inl e) = Inl e" "result_shape (Inr c) = Inr (shape c)"
  by (simp_all add: result_shape_def)

lemma result_shape_Inr: "result_shape r = Inr c \<Longrightarrow> \<exists>c'. r = Inr c' \<and> shape c' = c"
  by (cases r) simp_all

lemma apply_op_shape:
  "\<not> tightens op \<Longrightarrow> result_shape (apply_op op c) = result_shape (apply_op op (shape c))"
  by (cases op) (simp_all add: op_defs update_table_def shape_def has_column_def table_names_def)

lemma run_ops_shape:
  "list_all (\<lambda>op. \<not> tightens op) ops \<Longrightarrow>
   result_shape (run_ops ops c) = result_shape (run_ops ops (shape c))"
proof (induction ops arbitrary: c)
  case (Cons op ops)
  then have same: "result_shape (apply_op op c) = result_shape (apply_op op (shape c))"
    by (intro apply_op_shape) simp
  show ?case
  proof (cases "apply_op op c")
    case (Inl e)
    with same show ?thesis by (cases "apply_op op (shape c)") simp_all
  next
    case (Inr c1)
    with same obtain c2 where c2: "apply_op op (shape c) = Inr c2" "shape c1 = shape c2"
      by (cases "apply_op op (shape c)") simp_all
    have "result_shape (run_ops ops c1) = result_shape (run_ops ops (shape c1))"
      "result_shape (run_ops ops c2) = result_shape (run_ops ops (shape c2))"
      using Cons.prems by (auto intro!: Cons.IH)
    with c2 Inr show ?thesis by simp
  qed
qed simp

subsection \<open>Downgrades\<close>

lemma run_ops_append:
  "run_ops (xs @ ys) c = (case run_ops xs c of Inl e \<Rightarrow> Inl e | Inr c' \<Rightarrow> run_ops ys c')"
  by (induction xs arbitrary: c) (simp_all split: sum.split)

lemma alter_free:
  "(t, n) \<notin> set (ct_nulls c) \<Longrightarrow>
   result_shape (apply_op (Alter_nullable t n b) c) = result_shape (apply_op (Alter_nullable t n b) (shape c))"
  by (simp add: alter_nullable_op_def update_table_def shape_def has_column_def)

text \<open>0002's downgrade fills the NULLs before it forbids them, so it never depends on the rows.\<close>

lemma downgrade_0002_shape:
  "result_shape (run_ops downgrade_0002 c) = result_shape (run_ops downgrade_0002 (shape c))"
proof -
  define c1 where "c1 = c\<lparr>ct_nulls := filter (\<lambda>x. x \<noteq> (''grade'', ''passed''))
    (filter (\<lambda>x. x \<noteq> (''grade'', ''score'')) (ct_nulls c))\<rparr>"
  let ?ops = "[Alter_nullable ''grade'' ''score'' False, Alter_nullable ''grade'' ''passed'' False]"
  have run: "run_ops downgrade_0002 c = run_ops ?ops c1" "run_ops downgrade_0002 (shape c) = run_ops ?ops (shape c)"
    by (simp_all add: downgrade_0002_def c1_def shape_def)
  have free: "(''grade'', ''score'') \<notin> set (ct_nulls c1)" "(''grade'', ''passed'') \<notin> set (ct_nulls c1)"
    by (simp_all add: c1_def)
  have shape: "shape c1 = shape c" by (simp add: c1_def)
  show ?thesis
  proof (cases "apply_op (Alter_nullable ''grade'' ''score'' False) c1")
    case (Inl e)
    with alter_free [OF free(1), of False] show ?thesis
      unfolding run by (cases "apply_op (Alter_nullable ''grade'' ''score'' False) (shape c)") (simp_all add: shape)
  next
    case (Inr c2)
    then have "ct_nulls c2 = ct_nulls c1"
      by (auto simp: alter_nullable_op_def update_table_def split: if_splits)
    with free(2) have free2: "(''grade'', ''passed'') \<notin> set (ct_nulls c2)" by simp
    from Inr alter_free [OF free(1), of False] obtain c3 where
      c3: "apply_op (Alter_nullable ''grade'' ''score'' False) (shape c) = Inr c3" "shape c3 = shape c2"
      by (cases "apply_op (Alter_nullable ''grade'' ''score'' False) (shape c)") (simp_all add: shape)
    then have "ct_nulls c3 = []"
      by (auto simp: alter_nullable_op_def update_table_def split: if_splits)
    then have "(''grade'', ''passed'') \<notin> set (ct_nulls c3)" by simp
    from alter_free [OF free2, of False] alter_free [OF this, of False] c3(2)
    have "result_shape (apply_op (Alter_nullable ''grade'' ''passed'' False) c2) =
        result_shape (apply_op (Alter_nullable ''grade'' ''passed'' False) c3)" by simp
    moreover have "run_ops ?ops c1 = apply_op (Alter_nullable ''grade'' ''passed'' False) c2"
        "run_ops ?ops (shape c) = apply_op (Alter_nullable ''grade'' ''passed'' False) c3"
      using Inr c3(1) by (simp_all del: apply_op.simps split: sum.split)
    ultimately show ?thesis unfolding run by simp
  qed
qed

lemma downgrade_shape:
  assumes "i < 5"
  shows "result_shape (run_ops (rev_downgrade (versions ! i)) c) =
    result_shape (run_ops (rev_downgrade (versions ! i)) (shape c))"
proof (cases "i = 1")
  case True
  then show ?thesis using downgrade_0002_shape by (simp add: versions_defs)
next
  case False
  with assms have "i \<in> {0, 2, 3, 4}" by auto
  then have "list_all (\<lambda>op. \<not> tightens op) (rev_downgrade (versions ! i))"
    by (auto simp: versions_defs downgrade_0001_def downgrade_0003_def downgrade_0004_def downgrade_0005_def)
  then show ?thesis by (rule run_ops_shape)
qed

lemma downgrade_restores:
  assumes "i < 5"
  shows "result_shape (run_ops (rev_downgrade (versions ! i)) (shape (at_revision (Suc i)))) =
    Inr (shape (at_revision i))"
proof -
  have "list_all (\<lambda>i. result_shape (run_ops (rev_downgrade (versions ! i)) (shape (at_revision (Suc i)))) =
    Inr (shape (at_revision i))) [0, 1, 2, 3, 4]" by code_simp
  moreover have "i \<in> {0, 1, 2, 3, 4}" using assms by auto
  ultimately show ?thesis by auto
qed

lemma downgrade_step:
  assumes "i < 5" and "shape c = shape (at_revision (Suc i))" and "nulls_ok c"
  shows "\<exists>c'. run_ops (rev_downgrade (versions ! i)) c = Inr c' \<and> shape c' = shape (at_revision i) \<and> nulls_ok c'"
proof -
  have "result_shape (run_ops (rev_downgrade (versions ! i)) c) = Inr (shape (at_revision i))"
    using downgrade_restores [OF assms(1)] by (simp add: downgrade_shape [OF assms(1), of c] assms(2))
  from result_shape_Inr [OF this] show ?thesis using run_ops_nulls_ok assms(3) by blast
qed

text \<open>
  C39. Downgrading undoes upgrading, between any two revisions and whatever NULLs the application has
  stored in the nullable columns: every operation succeeds (0002 sets the missing scores and verdicts
  before it makes their columns NOT NULL again), the catalog has the tables, indexes and types of the
  lower revision, and no NOT NULL column holds a NULL. Down to the base nothing is left, not even a
  type, so the upgrade can run again.
\<close>

theorem downgrade_undoes_upgrade:
  assumes "m \<le> n" and "n \<le> 5" and "shape c = shape (at_revision n)" and "nulls_ok c"
  shows "\<exists>c'. run_ops (concat (map rev_downgrade (rev (drop m (take n versions))))) c = Inr c' \<and>
    shape c' = shape (at_revision m) \<and> nulls_ok c' \<and> (m = 0 \<longrightarrow> c' = empty_catalog)"
proof -
  have len: "length versions = 5" by (simp add: versions_defs)
  have "\<exists>c'. run_ops (concat (map rev_downgrade (rev (drop m (take n versions))))) c = Inr c' \<and>
      shape c' = shape (at_revision m) \<and> nulls_ok c'"
    using assms
  proof (induction "n - m" arbitrary: n c)
    case 0
    then show ?case by simp
  next
    case (Suc k)
    then obtain i where n: "n = Suc i" "m \<le> i" "i < 5" by (cases n) auto
    have "drop m (take n versions) = drop m (take i versions) @ [versions ! i]"
      using n len by (simp add: take_Suc_conv_app_nth)
    then have ops: "concat (map rev_downgrade (rev (drop m (take n versions)))) =
        rev_downgrade (versions ! i) @ concat (map rev_downgrade (rev (drop m (take i versions))))" by simp
    obtain c1 where c1: "run_ops (rev_downgrade (versions ! i)) c = Inr c1" "shape c1 = shape (at_revision i)" "nulls_ok c1"
      using downgrade_step [OF n(3)] Suc.prems n(1) by blast
    from Suc.hyps(1) [of i c1] Suc.hyps(2) n c1 show ?case unfolding ops run_ops_append by simp
  qed
  then obtain c' where c': "run_ops (concat (map rev_downgrade (rev (drop m (take n versions))))) c = Inr c'"
      "shape c' = shape (at_revision m)" "nulls_ok c'" by blast
  moreover have "c' = empty_catalog" if "m = 0"
  proof -
    have shape: "shape c' = empty_catalog" using c'(2) that by (simp add: at_revision_def shape_def empty_catalog_def)
    have "ct_tables c' = []" "ct_indexes c' = []" "ct_enums c' = []"
      using arg_cong [OF shape, of ct_tables] arg_cong [OF shape, of ct_indexes] arg_cong [OF shape, of ct_enums]
      by (simp_all add: empty_catalog_def)
    moreover from this c'(3) have "ct_nulls c' = []"
      by (cases "ct_nulls c'") (auto simp: nulls_ok_def has_column_def)
    ultimately show ?thesis by (simp add: empty_catalog_def)
  qed
  ultimately show ?thesis by blast
qed

definition fx_migrated :: catalog where
  "fx_migrated = (at_revision 5)\<lparr>ct_nulls := [(''grade'', ''score''), (''grade'', ''passed''), (''eval_run'', ''error'')]\<rparr>"

theorem downgrade_undoes_upgrade_witness:
  "\<exists>c'. run_ops (concat (map rev_downgrade (rev (drop 0 (take 5 versions))))) fx_migrated = Inr c' \<and>
    shape c' = shape (at_revision 0) \<and> nulls_ok c' \<and> ((0::nat) = 0 \<longrightarrow> c' = empty_catalog)"
proof (rule downgrade_undoes_upgrade)
  show "shape fx_migrated = shape (at_revision 5)" by (simp add: fx_migrated_def)
  show "nulls_ok fx_migrated" by code_simp
qed simp_all

end
