(* ===== verification/Catalog_Rows.thy ===== *)
theory Catalog_Rows
  imports Migrations Migration_Facts
begin

text \<open>
  What the catalog asks of the rows: types, NOT NULL, primary keys, unique constraints and foreign keys,
  for any catalog. For the catalog that the migrations build and the rows of the data model this is
  exactly \<open>schema_ok\<close>, together with the width of \<open>attempt_count\<close>, the one column the types of the
  records and \<open>schema_ok\<close> leave open. Text and JSON values are not limited in length or content.
\<close>

subsection \<open>Rows\<close>

datatype db_value =
    DB_null | DB_uuid uuid | DB_text string | DB_time timestamp | DB_int int | DB_bool bool | DB_num rat | DB_json

type_synonym db_row = "(string \<times> db_value) list"

definition cell :: "string \<Rightarrow> db_row \<Rightarrow> db_value" where
  "cell n row = (case map_of row n of None \<Rightarrow> DB_null | Some v \<Rightarrow> v)"

definition cells :: "string list \<Rightarrow> db_row \<Rightarrow> db_value list" where
  "cells ns row = map (\<lambda>n. cell n row) ns"

fun typed :: "(string \<times> string list) list \<Rightarrow> column_type \<Rightarrow> db_value \<Rightarrow> bool" where
  "typed enums T_uuid (DB_uuid x) \<longleftrightarrow> True"
| "typed enums T_text (DB_text x) \<longleftrightarrow> True"
| "typed enums T_timestamptz (DB_time x) \<longleftrightarrow> True"
| "typed enums T_integer (DB_int x) \<longleftrightarrow> int4 x"
| "typed enums T_boolean (DB_bool x) \<longleftrightarrow> True"
| "typed enums T_jsonb DB_json \<longleftrightarrow> True"
| "typed enums (T_numeric p s) (DB_num x) \<longleftrightarrow> numeric_column p s x"
| "typed enums (T_enum n) (DB_text x) \<longleftrightarrow> list_ex (\<lambda>(m, labels). m = n \<and> x \<in> set labels) enums"
| "typed enums _ _ \<longleftrightarrow> False"

definition cell_ok :: "(string \<times> string list) list \<Rightarrow> db_row \<Rightarrow> column \<Rightarrow> bool" where
  "cell_ok enums row co \<longleftrightarrow>
     (let v = cell (co_name co) row in if v = DB_null then co_nullable co else typed enums (co_type co) v)"

fun constraint_holds :: "(string \<Rightarrow> db_row list) \<Rightarrow> string \<Rightarrow> table_constraint \<Rightarrow> bool" where
  "constraint_holds rows t (Primary_key n cs) \<longleftrightarrow>
     distinct (map (cells cs) (rows t)) \<and> list_all (\<lambda>r. DB_null \<notin> set (cells cs r)) (rows t)"
| "constraint_holds rows t (Unique n cs) \<longleftrightarrow>
     distinct (filter (\<lambda>vs. DB_null \<notin> set vs) (map (cells cs) (rows t)))"
| "constraint_holds rows t (Foreign_key n cs u rs del) \<longleftrightarrow>
     list_all (\<lambda>r. DB_null \<in> set (cells cs r) \<or> cells cs r \<in> set (map (cells rs) (rows u))) (rows t)"

definition table_holds :: "(string \<times> string list) list \<Rightarrow> (string \<Rightarrow> db_row list) \<Rightarrow> table_def \<Rightarrow> bool" where
  "table_holds enums rows u \<longleftrightarrow>
     list_all (\<lambda>r. list_all (cell_ok enums r) (td_columns u)) (rows (td_name u)) \<and>
     list_all (constraint_holds rows (td_name u)) (td_constraints u)"

definition satisfies :: "catalog \<Rightarrow> (string \<Rightarrow> db_row list) \<Rightarrow> bool" where
  "satisfies c rows \<longleftrightarrow> list_all (table_holds (ct_enums c) rows) (ct_tables c)"

subsection \<open>The rows of the data model\<close>

definition db_option :: "('c \<Rightarrow> db_value) \<Rightarrow> 'c option \<Rightarrow> db_value" where
  "db_option f x = (case x of None \<Rightarrow> DB_null | Some v \<Rightarrow> f v)"

definition row_of_task_set :: "task_set \<Rightarrow> db_row" where
  "row_of_task_set x = [(''id'', DB_uuid (ts_id x)), (''name'', DB_text (ts_name x)),
     (''description'', db_option DB_text (ts_description x)), (''created_at'', DB_time (ts_created_at x))]"

definition row_of_task :: "task \<Rightarrow> db_row" where
  "row_of_task x = [(''id'', DB_uuid (tk_id x)), (''task_set_id'', DB_uuid (tk_task_set_id x)),
     (''prompt'', DB_text (tk_prompt x)), (''capability'', DB_text (tk_capability x)),
     (''expected_output'', db_option DB_text (tk_expected_output x)),
     (''grader_type'', DB_text (grader_type_value (tk_grader_type x))),
     (''grader_config'', db_option (\<lambda>_. DB_json) (tk_grader_config x)),
     (''created_at'', DB_time (tk_created_at x))]"

definition row_of_model_endpoint :: "model_endpoint \<Rightarrow> db_row" where
  "row_of_model_endpoint x = [(''id'', DB_uuid (me_id x)), (''name'', DB_text (me_name x)),
     (''provider'', DB_text (provider_value (me_provider x))), (''model_id'', DB_text (me_model_id x)),
     (''model_version'', DB_text (me_model_version x)), (''base_url'', db_option DB_text (me_base_url x)),
     (''created_at'', DB_time (me_created_at x))]"

definition row_of_eval_run :: "eval_run \<Rightarrow> db_row" where
  "row_of_eval_run x = [(''id'', DB_uuid (er_id x)), (''task_set_id'', DB_uuid (er_task_set_id x)),
     (''status'', DB_text (eval_run_status_value (er_status x))),
     (''started_at'', db_option DB_time (er_started_at x)),
     (''completed_at'', db_option DB_time (er_completed_at x)),
     (''total_cost_usd'', DB_num (er_total_cost_usd x)), (''total_tokens'', DB_int (er_total_tokens x)),
     (''error'', db_option DB_text (er_error x)), (''created_at'', DB_time (er_created_at x))]"

definition row_of_run_item :: "run_item \<Rightarrow> db_row" where
  "row_of_run_item x = [(''id'', DB_uuid (ri_id x)), (''eval_run_id'', DB_uuid (ri_eval_run_id x)),
     (''task_id'', DB_uuid (ri_task_id x)), (''model_endpoint_id'', DB_uuid (ri_model_endpoint_id x)),
     (''status'', DB_text (run_item_status_value (ri_status x))),
     (''attempt_count'', DB_int (ri_attempt_count x)), (''latency_ms'', db_option DB_int (ri_latency_ms x)),
     (''prompt_tokens'', db_option DB_int (ri_prompt_tokens x)),
     (''completion_tokens'', db_option DB_int (ri_completion_tokens x)),
     (''cost_usd'', db_option DB_num (ri_cost_usd x)), (''error'', db_option DB_text (ri_error x)),
     (''artifact_key'', db_option DB_text (ri_artifact_key x)), (''created_at'', DB_time (ri_created_at x)),
     (''updated_at'', DB_time (ri_updated_at x))]"

definition row_of_grade :: "grade \<Rightarrow> db_row" where
  "row_of_grade x = [(''id'', DB_uuid (gr_id x)), (''run_item_id'', DB_uuid (gr_run_item_id x)),
     (''grader'', DB_text (grader_kind_value (gr_grader x))), (''score'', db_option DB_num (gr_score x)),
     (''passed'', db_option DB_bool (gr_passed x)),
     (''rubric_scores'', db_option (\<lambda>_. DB_json) (gr_rubric_scores x)),
     (''rationale'', db_option DB_text (gr_rationale x)), (''created_at'', DB_time (gr_created_at x))]"

definition row_of_review_item :: "review_item \<Rightarrow> db_row" where
  "row_of_review_item x = [(''id'', DB_uuid (rv_id x)), (''run_item_id'', DB_uuid (rv_run_item_id x)),
     (''reason'', DB_text (review_reason_value (rv_reason x))),
     (''status'', DB_text (review_status_value (rv_status x))),
     (''reviewer_label'', db_option DB_num (rv_reviewer_label x)),
     (''reviewer_notes'', db_option DB_text (rv_reviewer_notes x)),
     (''claimed_at'', db_option DB_time (rv_claimed_at x)),
     (''resolved_at'', db_option DB_time (rv_resolved_at x)), (''created_at'', DB_time (rv_created_at x))]"

definition row_of_api_key :: "api_key \<Rightarrow> db_row" where
  "row_of_api_key x = [(''id'', DB_uuid (ak_id x)), (''name'', DB_text (ak_name x)),
     (''role'', DB_text (api_key_role_value (ak_role x))), (''key_prefix'', DB_text (ak_key_prefix x)),
     (''key_hash'', DB_text (ak_key_hash x)), (''created_at'', DB_time (ak_created_at x))]"

definition rows_of :: "'a db_scheme \<Rightarrow> string \<Rightarrow> db_row list" where
  "rows_of d t =
     (if t = ''task_set'' then map row_of_task_set (task_sets d)
      else if t = ''task'' then map row_of_task (tasks d)
      else if t = ''model_endpoint'' then map row_of_model_endpoint (model_endpoints d)
      else if t = ''eval_run'' then map row_of_eval_run (eval_runs d)
      else if t = ''run_item'' then map row_of_run_item (run_items d)
      else if t = ''grade'' then map row_of_grade (grades d)
      else if t = ''review_item'' then map row_of_review_item (review_items d)
      else if t = ''api_key'' then map row_of_api_key (api_keys d)
      else [])"

lemmas row_defs = row_of_task_set_def row_of_task_def row_of_model_endpoint_def row_of_eval_run_def row_of_run_item_def
  row_of_grade_def row_of_review_item_def row_of_api_key_def

subsection \<open>The constraints, table by table\<close>

lemma satisfies_same:
  assumes "same_catalog c c'"
  shows "satisfies c rows \<longleftrightarrow> satisfies c' rows"
proof -
  have "typed (ct_enums c) ty v \<longleftrightarrow> typed (ct_enums c') ty v" for ty v
    using assms by (cases "(ct_enums c, ty, v)" rule: typed.cases) (simp_all add: same_catalog_def list_ex_iff)
  then have enums: "cell_ok (ct_enums c) = cell_ok (ct_enums c')"
    by (intro ext) (simp add: cell_ok_def Let_def)
  have same: "table_holds (ct_enums c) rows t \<longleftrightarrow> table_holds (ct_enums c') rows u" if "same_table t u" for t u
    using that by (simp add: same_table_def table_holds_def enums list_all_iff)
  have "satisfies c rows" if "satisfies c' rows"
    unfolding satisfies_def list_all_iff
  proof
    fix t assume "t \<in> set (ct_tables c)"
    then obtain u where "u \<in> set (ct_tables c')" "same_table t u"
      using assms by (auto simp: same_catalog_def covers_def list_all_iff list_ex_iff)
    with that same show "table_holds (ct_enums c) rows t" by (simp add: satisfies_def list_all_iff)
  qed
  moreover have "satisfies c' rows" if "satisfies c rows"
    unfolding satisfies_def list_all_iff
  proof
    fix u assume "u \<in> set (ct_tables c')"
    then obtain t where "t \<in> set (ct_tables c)" "same_table u t"
      using assms by (auto simp: same_catalog_def covers_def list_all_iff list_ex_iff)
    then have "t \<in> set (ct_tables c)" "same_table t u" by (simp_all add: same_table_def)
    with that same [OF this(2)] show "table_holds (ct_enums c') rows u" by (simp add: satisfies_def list_all_iff)
  qed
  ultimately show ?thesis by blast
qed

lemma distinct_uuid [simp]: "distinct (map (\<lambda>x. [DB_uuid (f x)]) xs) \<longleftrightarrow> distinct (map f xs)"
  by (simp add: distinct_map inj_on_def)

lemma distinct_text [simp]: "distinct (map (\<lambda>x. [DB_text (f x)]) xs) \<longleftrightarrow> distinct (map f xs)"
  by (simp add: distinct_map inj_on_def)

lemma cell_Cons [simp]: "cell n ((m, v) # row) = (if m = n then v else cell n row)"
  by (simp add: cell_def)

lemma cells_simps [simp]: "cells [] row = []" "cells (n # ns) row = cell n row # cells ns row"
  by (simp_all add: cells_def)

lemma db_option_null [simp]:
  "db_option f x = DB_null \<longleftrightarrow> (case x of None \<Rightarrow> True | Some v \<Rightarrow> f v = DB_null)"
  by (simp add: db_option_def split: option.split)


lemmas orm_defs = orm_table_def orm_TaskSet_def orm_Task_def orm_ModelEndpoint_def orm_EvalRun_def
  orm_RunItem_def orm_Grade_def orm_ReviewItem_def orm_ApiKey_def mapped_def mapped_default_def
  mapped_id_def mapped_fk_def timestamp_mixin_def primary_columns_def


lemma at_revision_5: "same_catalog (at_revision 5) orm_catalog"
  by code_simp

text \<open>Each enum column holds one of its labels, because the models' enums have the labels of the types.\<close>

lemma enum_labels [simp]:
  "typed orm_enums (T_enum ''grader_type'') (DB_text (grader_type_value g))"
  "typed orm_enums (T_enum ''provider'') (DB_text (provider_value p))"
  "typed orm_enums (T_enum ''eval_run_status'') (DB_text (eval_run_status_value s))"
  "typed orm_enums (T_enum ''run_item_status'') (DB_text (run_item_status_value i))"
  "typed orm_enums (T_enum ''grader_kind'') (DB_text (grader_kind_value k))"
  "typed orm_enums (T_enum ''review_reason'') (DB_text (review_reason_value r))"
  "typed orm_enums (T_enum ''review_status'') (DB_text (review_status_value v))"
  "typed orm_enums (T_enum ''api_key_role'') (DB_text (api_key_role_value a))"
proof -
  note defs = orm_enums_def enum_values_def
  show "typed orm_enums (T_enum ''grader_type'') (DB_text (grader_type_value g))" by (cases g) (simp_all add: defs)
  show "typed orm_enums (T_enum ''provider'') (DB_text (provider_value p))" by (cases p) (simp_all add: defs)
  show "typed orm_enums (T_enum ''eval_run_status'') (DB_text (eval_run_status_value s))"
    by (cases s) (simp_all add: defs)
  show "typed orm_enums (T_enum ''run_item_status'') (DB_text (run_item_status_value i))"
    by (cases i) (simp_all add: defs)
  show "typed orm_enums (T_enum ''grader_kind'') (DB_text (grader_kind_value k))" by (cases k) (simp_all add: defs)
  show "typed orm_enums (T_enum ''review_reason'') (DB_text (review_reason_value r))"
    by (cases r) (simp_all add: defs)
  show "typed orm_enums (T_enum ''review_status'') (DB_text (review_status_value v))"
    by (cases v) (simp_all add: defs)
  show "typed orm_enums (T_enum ''api_key_role'') (DB_text (api_key_role_value a))" by (cases a) (simp_all add: defs)
qed

declare typed.simps(8) [simp del]

lemma cell_value [simp]:
  assumes "f x \<noteq> DB_null"
  shows "(let v = f x in if v = DB_null then b else P v) = P (f x)"
  by (simp add: assms)

lemma cell_option [simp]:
  assumes "\<And>v. f v \<noteq> DB_null"
  shows "(let v = db_option f x in if v = DB_null then b else P v) \<longleftrightarrow>
    (x = None \<longrightarrow> b) \<and> nullable (\<lambda>v. P (f v)) x"
  by (simp add: db_option_def nullable_def assms split: option.split)

lemmas holds_defs = table_holds_def orm_defs rows_of_def row_defs cell_ok_def map_filter_simps fk_name_def
  comp_def list_all_iff refers_def

lemma no_limit [simp]: "nullable (\<lambda>_. True) x"
  by (simp add: nullable_def split: option.split)

lemma reference_cell [simp]:
  "([DB_uuid i] \<in> (\<lambda>x. [DB_uuid (f x)]) ` X) \<longleftrightarrow> i \<in> f ` X"
  by auto

lemma table_task_set: "table_holds orm_enums (rows_of d) (orm_table orm_TaskSet) \<longleftrightarrow> task_set_table d"
  by (simp add: holds_defs task_set_table_def)

lemma table_task: "table_holds orm_enums (rows_of d) (orm_table orm_Task) \<longleftrightarrow> task_table d"
  by (auto simp add: holds_defs task_table_def)

lemma table_model_endpoint:
  "table_holds orm_enums (rows_of d) (orm_table orm_ModelEndpoint) \<longleftrightarrow> model_endpoint_table d"
  by (simp add: holds_defs model_endpoint_table_def)

lemma table_eval_run: "table_holds orm_enums (rows_of d) (orm_table orm_EvalRun) \<longleftrightarrow> eval_run_table d"
  by (auto simp add: holds_defs eval_run_table_def eval_run_columns_def)

lemma table_run_item:
  "table_holds orm_enums (rows_of d) (orm_table orm_RunItem) \<longleftrightarrow>
   run_item_table d \<and> list_all (\<lambda>r. int4 (ri_attempt_count r)) (run_items d)"
  by (auto simp add: holds_defs run_item_table_def run_item_columns_def)

lemma table_grade: "table_holds orm_enums (rows_of d) (orm_table orm_Grade) \<longleftrightarrow> grade_table d"
  by (auto simp add: holds_defs grade_table_def)

lemma table_review_item:
  "table_holds orm_enums (rows_of d) (orm_table orm_ReviewItem) \<longleftrightarrow> review_item_table d"
  by (auto simp add: holds_defs review_item_table_def)

lemma table_api_key: "table_holds orm_enums (rows_of d) (orm_table orm_ApiKey) \<longleftrightarrow> api_key_table d"
  by (auto simp add: holds_defs api_key_table_def)

text \<open>
  C15. The rows of a database state satisfy the catalog that the five migrations build (every column has
  its type and its NOT NULL, every primary key and unique constraint is unique, every foreign key refers
  to a row) exactly when the state satisfies \<open>schema_ok\<close> and its attempt counts fit into 32 bits.
\<close>

theorem migrated_catalog_is_schema:
  "satisfies (at_revision 5) (rows_of d) \<longleftrightarrow>
   schema_ok d \<and> list_all (\<lambda>r. int4 (ri_attempt_count r)) (run_items d)"
proof -
  have "satisfies orm_catalog (rows_of d) \<longleftrightarrow>
      schema_ok d \<and> list_all (\<lambda>r. int4 (ri_attempt_count r)) (run_items d)"
    unfolding satisfies_def orm_catalog_def orm_classes_def
    by (auto simp: table_task_set table_task table_model_endpoint table_eval_run table_run_item table_grade
        table_review_item table_api_key schema_ok_def)
  then show ?thesis by (simp only: satisfies_same [OF at_revision_5])
qed

end
